(* ===== verification/Prelude.thy ===== *)
theory Prelude
  imports Main "HOL-Library.Word"
begin

text \<open>
  Vocabulary shared by every component: the machine types of the runtime
  (\<open>runtime/src/lib.rs\<close>: \<open>AccountId\<close>, \<open>Balance = u128\<close>, \<open>BlockNumber = u32\<close>), Rust's
  saturating arithmetic on them, and the list operations the pallets use on their bounded
  vectors (\<open>iter_mut().find\<close>, \<open>try_push\<close>, \<open>position\<close>, \<open>remove\<close>), with the
  generic lemmas about them.
\<close>

section \<open>Machine types\<close>

text \<open>\<open>AccountId\<close> is the 32-byte \<open>AccountId32\<close>.\<close>

type_synonym u8 = "8 word"
type_synonym u32 = "32 word"
type_synonym u64 = "64 word"
type_synonym account_id = "256 word"
type_synonym balance = "128 word"
type_synonym block_number = "32 word"

section \<open>Fact collections\<close>

named_theorems keyed \<open>the keyed list operations rewritten to map, filter and set\<close>
named_theorems handler_defs \<open>definitions of the dispatchables\<close>
named_theorems hook_defs \<open>definitions of the session and block hooks\<close>

section \<open>Saturating arithmetic\<close>

definition sat_add :: "'a::len word \<Rightarrow> 'a word \<Rightarrow> 'a word" where
  "sat_add a b = (if a + b < a then - 1 else a + b)"

definition sat_sub :: "'a::len word \<Rightarrow> 'a word \<Rightarrow> 'a word" where
  "sat_sub a b = (if a < b then 0 else a - b)"

lemma unat_max_word: "unat (- 1 :: 'a::len word) = 2 ^ LENGTH('a) - 1"
  by (simp add: unsigned_minus_1_eq_mask mask_eq_exp_minus_1)

lemma add_overflow_iff: "a + b < (a :: 'a::len word) \<longleftrightarrow> 2 ^ LENGTH('a) \<le> unat a + unat b"
  using no_olen_add_nat [of a b] by (simp add: not_le [symmetric])

lemma unat_sat_add:
  "unat (sat_add a (b :: 'a::len word)) = min (2 ^ LENGTH('a) - 1) (unat a + unat b)"
proof (cases "a + b < a")
  case True
  then have "2 ^ LENGTH('a) \<le> unat a + unat b"
    by (simp add: add_overflow_iff)
  then have "2 ^ LENGTH('a) - 1 \<le> unat a + unat b" by linarith
  with True show ?thesis
    by (simp only: sat_add_def if_True unat_max_word min_absorb1)
next
  case False
  then have lt: "unat a + unat b < 2 ^ LENGTH('a)"
    by (simp add: add_overflow_iff)
  then have "unat (a + b) = unat a + unat b"
    by (simp add: unat_add_lem)
  moreover from lt have "unat a + unat b \<le> 2 ^ LENGTH('a) - 1" by linarith
  ultimately show ?thesis
    using False by (simp only: sat_add_def if_False min_absorb2)
qed

lemma unat_sat_sub: "unat (sat_sub a b) = unat a - unat b"
  by (auto simp: sat_sub_def word_less_nat_alt unat_sub_if')

lemma unat_sat_add_le: "unat (sat_add a b) \<le> unat a + unat b"
  by (simp add: unat_sat_add)

lemma sat_sub_exact: "b \<le> a \<Longrightarrow> sat_sub a b = a - b"
  by (simp add: sat_sub_def leD)

lemma sat_add_zero [simp]: "sat_add 0 a = a" "sat_add a 0 = a"
  by (simp_all add: sat_add_def)

lemma sat_add_mono:
  "a \<le> a' \<Longrightarrow> b \<le> b' \<Longrightarrow> sat_add a b \<le> sat_add a' (b' :: 'a::len word)"
  by (simp add: word_le_nat_alt unat_sat_add min_le_iff_disj)

lemma unat_next: "n + 1 \<noteq> (0 :: 'a::len word) \<Longrightarrow> unat (n + 1) = Suc (unat n)"
  using unatSuc [of n] by (simp add: add.commute)

section \<open>Bounded vectors\<close>

text \<open>\<open>BoundedVec::try_push\<close>: the vector is returned unchanged as an error when full.\<close>

definition try_push :: "u32 \<Rightarrow> 'a \<Rightarrow> 'a list \<Rightarrow> 'a list option" where
  "try_push bound x xs = (if length xs < unat bound then Some (xs @ [x]) else None)"

lemma try_push_Some [simp]:
  "try_push b x xs = Some ys \<longleftrightarrow> length xs < unat b \<and> ys = xs @ [x]"
  by (auto simp: try_push_def)

lemma try_push_None [simp]: "try_push b x xs = None \<longleftrightarrow> unat b \<le> length xs"
  by (auto simp: try_push_def)

section \<open>First-match operations\<close>

text \<open>
  \<open>if let Some(x) = xs.iter_mut().find(p) { *x = f(x) }\<close>: the first element that satisfies
  \<open>p\<close> is replaced, the others keep their place. \<open>position\<close> and \<open>remove_at\<close> are
  \<open>iter().position(p)\<close> and \<open>Vec::remove\<close> (whose index the callers take from
  \<open>position\<close>, so it is in range).
\<close>

fun update_first :: "('a \<Rightarrow> bool) \<Rightarrow> ('a \<Rightarrow> 'a) \<Rightarrow> 'a list \<Rightarrow> 'a list" where
  "update_first p f [] = []"
| "update_first p f (x # xs) = (if p x then f x # xs else x # update_first p f xs)"

fun position :: "('a \<Rightarrow> bool) \<Rightarrow> 'a list \<Rightarrow> nat option" where
  "position p [] = None"
| "position p (x # xs) = (if p x then Some 0 else map_option Suc (position p xs))"

definition remove_at :: "nat \<Rightarrow> 'a list \<Rightarrow> 'a list" where
  "remove_at i xs = take i xs @ drop (Suc i) xs"

lemma length_update_first [simp]: "length (update_first p f xs) = length xs"
  by (induction xs) auto

lemma update_first_Nil_iff [simp]: "update_first p f xs = [] \<longleftrightarrow> xs = []"
  by (cases xs) auto

lemma map_update_first:
  "(\<And>x. p x \<Longrightarrow> g (f x) = g x) \<Longrightarrow> map g (update_first p f xs) = map g xs"
  by (induction xs) auto

lemma update_first_id: "(\<And>x. x \<in> set xs \<Longrightarrow> \<not> p x) \<Longrightarrow> update_first p f xs = xs"
  by (induction xs) auto

lemma set_update_first_subset: "set (update_first p f xs) \<subseteq> set xs \<union> f ` {x \<in> set xs. p x}"
  by (induction xs) auto

lemma update_first_append:
  "update_first p f (xs @ ys) =
   (if \<exists>x\<in>set xs. p x then update_first p f xs @ ys else xs @ update_first p f ys)"
  by (induction xs) auto

lemma find_Some_in: "find p xs = Some x \<Longrightarrow> x \<in> set xs \<and> p x"
  by (induction xs) (auto split: if_splits)

lemma update_first_mem: "find p xs = Some x \<Longrightarrow> f x \<in> set (update_first p f xs)"
  by (induction xs) (auto split: if_splits)

lemma find_None_all: "find p xs = None \<longleftrightarrow> (\<forall>x\<in>set xs. \<not> p x)"
  by (induction xs) auto

text \<open>With distinct keys, the first match is the only match.\<close>

lemma distinct_keys_Cons: "distinct (map k (y # ys)) \<Longrightarrow> x \<in> set ys \<Longrightarrow> k x \<noteq> k y"
  by (metis distinct.simps(2) image_eqI list.set_map list.simps(9))

lemma update_first_keyed:
  "distinct (map k xs) \<Longrightarrow>
   update_first (\<lambda>x. k x = a) f xs = map (\<lambda>x. if k x = a then f x else x) xs"
proof (induction xs)
  case Nil
  then show ?case by simp
next
  case (Cons y ys)
  then have "k y = a \<Longrightarrow> \<forall>x\<in>set ys. k x \<noteq> a"
    using distinct_keys_Cons by metis
  with Cons show ?case by (auto simp: map_idI)
qed

lemma find_keyed_unique:
  "distinct (map k xs) \<Longrightarrow> x \<in> set xs \<Longrightarrow> k x = a \<Longrightarrow> find (\<lambda>x. k x = a) xs = Some x"
  by (induction xs) (auto simp: rev_image_eqI)

lemma find_keyed_iff:
  "distinct (map k xs) \<Longrightarrow>
   find (\<lambda>x. k x = a) xs = Some x \<longleftrightarrow> x \<in> set xs \<and> k x = a"
  by (blast dest: find_Some_in intro: find_keyed_unique)

lemma position_Some:
  "position p xs = Some i \<Longrightarrow> i < length xs \<and> p (xs ! i) \<and> find p xs = Some (xs ! i)"
  by (induction xs arbitrary: i) (auto split: if_splits simp: map_option_case split: option.splits)

lemma position_None: "position p xs = None \<longleftrightarrow> find p xs = None"
  by (induction xs) auto

lemma set_remove_at_subset: "set (remove_at i xs) \<subseteq> set xs"
  by (auto simp: remove_at_def dest: in_set_takeD in_set_dropD)

lemma length_remove_at: "i < length xs \<Longrightarrow> length (remove_at i xs) = length xs - 1"
  by (simp add: remove_at_def)

lemma map_remove_at: "map f (remove_at i xs) = remove_at i (map f xs)"
  by (simp add: remove_at_def take_map drop_map)

lemma remove_at_Suc_Cons [simp]: "remove_at (Suc i) (x # xs) = x # remove_at i xs"
  by (simp add: remove_at_def)

lemma remove_at_0_Cons [simp]: "remove_at 0 (x # xs) = xs"
  by (simp add: remove_at_def)

lemma distinct_remove_at: "distinct xs \<Longrightarrow> distinct (remove_at i xs)"
proof (induction xs arbitrary: i)
  case Nil
  then show ?case by (simp add: remove_at_def)
next
  case (Cons x xs)
  then show ?case
    using set_remove_at_subset [of _ xs] by (cases i) auto
qed

lemma remove_at_position_keyed:
  "distinct (map k xs) \<Longrightarrow> position (\<lambda>x. k x = a) xs = Some i \<Longrightarrow>
   remove_at i xs = filter (\<lambda>x. k x \<noteq> a) xs"
proof (induction xs arbitrary: i)
  case Nil
  then show ?case by simp
next
  case (Cons y ys)
  show ?case
  proof (cases "k y = a")
    case True
    with Cons.prems have "\<forall>x\<in>set ys. k x \<noteq> a"
      using distinct_keys_Cons by metis
    with True Cons.prems show ?thesis by (simp add: filter_id_conv)
  next
    case False
    with Cons show ?thesis by auto
  qed
qed

lemma sum_list_split:
  "distinct (map k xs) \<Longrightarrow> x \<in> set xs \<Longrightarrow>
   sum_list (map g xs) = (g x :: nat) + sum_list (map g (filter (\<lambda>y. k y \<noteq> k x) xs))"
proof (induction xs)
  case Nil
  then show ?case by simp
next
  case (Cons y ys)
  show ?case
  proof (cases "y = x")
    case True
    with Cons.prems have "filter (\<lambda>z. k z \<noteq> k x) ys = ys"
      using distinct_keys_Cons by (metis (mono_tags, lifting) filter_True)
    with True show ?thesis by simp
  next
    case False
    with Cons.prems have "x \<in> set ys" "k y \<noteq> k x" by auto
    with Cons show ?thesis by simp
  qed
qed

lemmas keyed_first [keyed] = update_first_keyed remove_at_position_keyed

section \<open>Results\<close>

text \<open>
  A dispatchable returns Rust's \<open>Result<T, E>\<close> together with the storage it leaves behind:
  on \<open>Err\<close> the storage may have been written already, see \<open>with_storage_layer\<close>.
\<close>

type_synonym ('e, 'a, 's) outcome = "('e + 'a) \<times> 's"

abbreviation succeeds :: "('e, 'a, 's) outcome \<Rightarrow> bool" where
  "succeeds r \<equiv> (case fst r of Inl _ \<Rightarrow> False | Inr _ \<Rightarrow> True)"

end
