(* ===== verification/Constants.thy ===== *)
theory Constants
  imports Prelude
begin

text \<open>
  The compile-time constants of the runtime: block times and balance units of
  \<open>runtime/src/lib.rs\<close> and the \<open>parameter_types!\<close> of \<open>runtime/src/configs/mod.rs\<close>
  that the pallets of this repository and the session machinery are configured with, at
  their machine widths.
\<close>

section \<open>Block times and units (\<open>runtime/src/lib.rs\<close>)\<close>

definition MILLI_SECS_PER_BLOCK :: u64 where "MILLI_SECS_PER_BLOCK = 2000"
definition SLOT_DURATION :: u64 where "SLOT_DURATION = MILLI_SECS_PER_BLOCK"

definition MINUTES :: block_number where "MINUTES = 60000 div ucast MILLI_SECS_PER_BLOCK"
definition HOURS :: block_number where "HOURS = MINUTES * 60"
definition DAYS :: block_number where "DAYS = HOURS * 24"

definition BLOCK_HASH_COUNT :: block_number where "BLOCK_HASH_COUNT = 2400"

definition UNIT :: balance where "UNIT = 1000000000000"
definition MILLI_UNIT :: balance where "MILLI_UNIT = 1000000000"
definition MICRO_UNIT :: balance where "MICRO_UNIT = 1000000"

definition EXISTENTIAL_DEPOSIT :: balance where "EXISTENTIAL_DEPOSIT = MILLI_UNIT"

section \<open>Pallet parameters (\<open>runtime/src/configs/mod.rs\<close>)\<close>

definition BlockHashCount :: block_number where "BlockHashCount = 2400"

definition SessionPeriod :: block_number where "SessionPeriod = 1 * HOURS"
definition SessionOffset :: block_number where "SessionOffset = 0"

definition MaxStakingCandidates :: u32 where "MaxStakingCandidates = 50"
definition MaxDelegationsPerCandidate :: u32 where "MaxDelegationsPerCandidate = 100"
definition MinCandidateBond :: balance where "MinCandidateBond = 100 * UNIT"
definition MaxStalingPeriod :: block_number where "MaxStalingPeriod = 14 * DAYS"

definition MinimumPeriod :: u64 where "MinimumPeriod = SLOT_DURATION div 2"

lemmas constant_defs =
  MILLI_SECS_PER_BLOCK_def SLOT_DURATION_def MINUTES_def HOURS_def DAYS_def
  BLOCK_HASH_COUNT_def UNIT_def MILLI_UNIT_def MICRO_UNIT_def EXISTENTIAL_DEPOSIT_def
  BlockHashCount_def SessionPeriod_def SessionOffset_def MaxStakingCandidates_def
  MaxDelegationsPerCandidate_def MinCandidateBond_def MaxStalingPeriod_def MinimumPeriod_def

text \<open>None of the constant expressions wraps at its width: as natural numbers they
  are the products the source writes (1800 blocks an hour, 43200 a day, a 604800-block
  staling period, a bond of \<open>10 ^ 14\<close> base units).\<close>

lemma constants_exact:
  "unat MINUTES * unat MILLI_SECS_PER_BLOCK = 60000 \<and>
   unat HOURS = unat MINUTES * 60 \<and> unat DAYS = unat HOURS * 24 \<and>
   unat SessionPeriod = unat HOURS \<and>
   unat MaxStalingPeriod = 14 * unat DAYS \<and> unat MaxStalingPeriod = 604800 \<and>
   unat MinCandidateBond = 100 * unat UNIT \<and> unat MinCandidateBond = 10 ^ 14 \<and>
   2 * unat MinimumPeriod = unat SLOT_DURATION"
  by (simp add: constant_defs)

end
