(* ===== verification/Ranking.thy ===== *)
theory Ranking
  imports Prelude "HOL-Library.Sorting_Algorithms" "HOL-Library.Product_Lexorder"
begin

text \<open>
  Candidates and their ranking (\<open>pallets/xode-staking/src/lib.rs\<close>): the status enum, the
  candidate and delegation records, the comparison closure of \<open>sort_proposed_candidates\<close>
  and the stable sort of Rust's \<open>sort_by\<close>. The lemmas show that the closure is a
  consistent total preorder (the precondition of \<open>sort_by\<close>), and that the result is the
  one ordering a stable sort can give.
\<close>

section \<open>Data\<close>

datatype status = Offline | Online | Waiting | Queuing | Authoring

text \<open>\<open>derive(PartialOrd)\<close> orders the variants as declared.\<close>

fun status_index :: "status \<Rightarrow> nat" where
  "status_index Offline = 0"
| "status_index Online = 1"
| "status_index Waiting = 2"
| "status_index Queuing = 3"
| "status_index Authoring = 4"

lemma status_index_inj [simp]: "status_index a = status_index b \<longleftrightarrow> a = b"
  by (cases a; cases b) simp_all

instantiation status :: linorder
begin

definition less_eq_status :: "status \<Rightarrow> status \<Rightarrow> bool" where
  "less_eq_status a b \<longleftrightarrow> status_index a \<le> status_index b"

definition less_status :: "status \<Rightarrow> status \<Rightarrow> bool" where
  "less_status a b \<longleftrightarrow> status_index a < status_index b"

instance
  by standard (auto simp: less_eq_status_def less_status_def)

end

record candidate_info =
  who :: account_id
  bond :: balance
  total_stake :: balance
  last_updated :: block_number
  last_authored :: block_number
  leaving :: bool
  offline :: bool
  commission :: u8
  status :: status

record delegation =
  delegator :: account_id
  stake :: balance

text \<open>A freshly shaped candidate, for the states the witnesses start from.\<close>

definition demo_candidate :: "account_id \<Rightarrow> balance \<Rightarrow> candidate_info" where
  "demo_candidate a b =
     \<lparr>who = a, bond = b, total_stake = 0, last_updated = 0, last_authored = 0, leaving = False,
      offline = False, commission = 0, status = Online\<rparr>"

section \<open>The comparison closure\<close>

fun then_with :: "comp \<Rightarrow> comp \<Rightarrow> comp" where
  "then_with Equiv c = c"
| "then_with Less c = Less"
| "then_with Greater c = Greater"

definition cmp_of :: "'a::linorder \<Rightarrow> 'a \<Rightarrow> comp" where
  "cmp_of a b = (if a < b then Less else if b < a then Greater else Equiv)"

definition combined :: "candidate_info \<Rightarrow> balance" where
  "combined c = sat_add (bond c) (total_stake c)"

definition rank_ordering :: "candidate_info \<Rightarrow> candidate_info \<Rightarrow> comp" where
  "rank_ordering a b =
     then_with (cmp_of (offline a) (offline b))
       (then_with (cmp_of (combined b) (combined a))
         (cmp_of (last_updated a) (last_updated b)))"

lemma then_with_iff:
  "then_with c d = Equiv \<longleftrightarrow> c = Equiv \<and> d = Equiv"
  "then_with c d = Less \<longleftrightarrow> c = Less \<or> c = Equiv \<and> d = Less"
  "then_with c d = Greater \<longleftrightarrow> c = Greater \<or> c = Equiv \<and> d = Greater"
  by (cases c; simp)+

lemma cmp_of_iff [simp]:
  "cmp_of a b = Equiv \<longleftrightarrow> a = b" "cmp_of a b = Less \<longleftrightarrow> a < b"
  "cmp_of a b = Greater \<longleftrightarrow> b < a"
  by (auto simp: cmp_of_def)

text \<open>The documented order: online before offline, then the larger combined stake, then
  the entry that was updated longest ago.\<close>

definition ranks_before :: "candidate_info \<Rightarrow> candidate_info \<Rightarrow> bool" where
  "ranks_before a b \<longleftrightarrow>
     (\<not> offline a \<and> offline b) \<or>
     (offline a = offline b \<and>
       (combined b < combined a \<or>
        combined a = combined b \<and> last_updated a < last_updated b))"

lemma rank_ordering_Less: "rank_ordering a b = Less \<longleftrightarrow> ranks_before a b"
  by (auto simp: rank_ordering_def ranks_before_def then_with_iff)

lemma rank_ordering_Greater: "rank_ordering a b = Greater \<longleftrightarrow> ranks_before b a"
  by (auto simp: rank_ordering_def ranks_before_def then_with_iff)

lemma rank_ordering_Equiv:
  "rank_ordering a b = Equiv \<longleftrightarrow>
   offline a = offline b \<and> combined a = combined b \<and> last_updated a = last_updated b"
  by (auto simp: rank_ordering_def then_with_iff)

lemma rank_comparator: "comparator rank_ordering"
proof
  fix a b c
  show "rank_ordering a a = Equiv"
    by (simp add: rank_ordering_Equiv)
  show "rank_ordering a b = Equiv \<Longrightarrow> rank_ordering b c = Equiv \<Longrightarrow> rank_ordering a c = Equiv"
    by (simp add: rank_ordering_Equiv)
  show "rank_ordering a b = Less \<Longrightarrow> rank_ordering b c = Less \<Longrightarrow> rank_ordering a c = Less"
    by (auto simp: rank_ordering_Less ranks_before_def)
  show "rank_ordering b a = Greater \<longleftrightarrow> rank_ordering a b = Less"
    by (simp add: rank_ordering_Less rank_ordering_Greater)
qed

lift_definition rank_cmp :: "candidate_info comparator" is rank_ordering
  by (rule rank_comparator)

lemma compare_rank_cmp [simp]: "compare rank_cmp = rank_ordering"
  by (rule rank_cmp.rep_eq)

section \<open>The stable sort\<close>

definition sort_candidates :: "candidate_info list \<Rightarrow> candidate_info list" where
  "sort_candidates cs = Sorting_Algorithms.sort rank_cmp cs"

definition ranked :: "candidate_info list \<Rightarrow> bool" where
  "ranked cs = Sorting_Algorithms.sorted rank_cmp cs"

lemma set_sort_candidates [simp]: "set (sort_candidates cs) = set cs"
  by (simp add: sort_candidates_def)

lemma length_sort_candidates [simp]: "length (sort_candidates cs) = length cs"
  by (simp add: sort_candidates_def)

lemma mset_sort_candidates [simp]: "mset (sort_candidates cs) = mset cs"
  by (simp add: sort_candidates_def)

lemma mset_map_sort_candidates [simp]:
  "mset (map f (sort_candidates cs)) = mset (map f cs)"
  by (simp add: mset_map)

lemma distinct_map_sort_candidates [simp]:
  "distinct (map f (sort_candidates cs)) \<longleftrightarrow> distinct (map f cs)"
  using mset_map_sort_candidates by (metis mset_eq_imp_distinct_iff)

lemma sum_sort_candidates [simp]:
  "sum_list (map (f :: _ \<Rightarrow> nat) (sort_candidates cs)) = sum_list (map f cs)"
  by (metis mset_map_sort_candidates sum_mset_sum_list)

lemma sort_candidates_Nil_iff [simp]: "sort_candidates cs = [] \<longleftrightarrow> cs = []"
  by (metis length_0_conv length_sort_candidates)

lemma ranked_sort_candidates [simp]: "ranked (sort_candidates cs)"
  by (simp add: ranked_def sort_candidates_def)

lemma ranked_Nil [simp]: "ranked []"
  by (simp add: ranked_def)

text \<open>Lists of at most two candidates, as the demonstrations have them.\<close>

lemma sort_candidates_small [simp]:
  "sort_candidates [] = []" "sort_candidates [c] = [c]"
  "sort_candidates [c, d] = (if ranks_before d c then [d, c] else [c, d])"
  by (simp_all add: sort_candidates_def Sorting_Algorithms.sort_def rank_ordering_Greater)

lemma ranked_nth:
  "ranked cs \<Longrightarrow> i < j \<Longrightarrow> j < length cs \<Longrightarrow> \<not> ranks_before (cs ! j) (cs ! i)"
proof (induction cs arbitrary: i j)
  case Nil
  then show ?case by simp
next
  case (Cons c cs)
  show ?case
  proof (cases i)
    case 0
    with Cons.prems have "cs ! (j - 1) \<in> set cs" by simp
    then show ?thesis
      using 0 Cons.prems sorted_Cons_imp_not_less [of rank_cmp c cs]
      by (cases j) (auto simp: ranked_def rank_ordering_Greater)
  next
    case (Suc i')
    with Cons.prems show ?thesis
      using Cons.IH [of i' "j - 1"] sorted_Cons_imp_sorted [of rank_cmp c cs]
      by (cases j) (auto simp: ranked_def)
  qed
qed

lemma ranked_adjacentI:
  "(\<And>i. Suc i < length cs \<Longrightarrow> \<not> ranks_before (cs ! Suc i) (cs ! i)) \<Longrightarrow> ranked cs"
proof (induction cs)
  case Nil
  then show ?case by simp
next
  case (Cons c cs)
  have "ranked cs"
    using Cons.prems by (intro Cons.IH) (metis Suc_less_eq length_Cons nth_Cons_Suc)
  then show ?case
    using Cons.prems [of 0] by (cases cs) (simp_all add: ranked_def rank_ordering_Greater)
qed

text \<open>\<open>sort_proposed_candidates\<close> returns a permutation of the candidates in which
  nobody stands behind a candidate he ranks before, and candidates that tie keep their
  previous order.\<close>

theorem sort_candidates_correct:
  "mset (sort_candidates cs) = mset cs \<and>
   (\<forall>i j. i < j \<and> j < length cs \<longrightarrow>
      \<not> ranks_before (sort_candidates cs ! j) (sort_candidates cs ! i)) \<and>
   filter (\<lambda>d. rank_ordering c d = Equiv) (sort_candidates cs) =
   filter (\<lambda>d. rank_ordering c d = Equiv) cs"
  using stable_sort [of rank_cmp c cs] ranked_nth [OF ranked_sort_candidates, of _ _ cs]
  by (simp add: sort_candidates_def)

theorem sort_candidates_correct_witness:
  "let cs = [demo_candidate 1 5, demo_candidate 2 9] in
   mset (sort_candidates cs) = {#demo_candidate 1 5, demo_candidate 2 9#} \<and>
   \<not> ranks_before (sort_candidates cs ! 1) (sort_candidates cs ! 0)"
  using sort_candidates_correct [of "[demo_candidate 1 5, demo_candidate 2 9]" undefined]
  by (simp add: Let_def)

text \<open>The sorted order is the only one: whatever algorithm \<open>sort_by\<close> uses, a stable
  rearrangement that leaves no pair out of rank is this list, so every node computes the
  same validator ranking.\<close>

theorem sort_candidates_unique:
  assumes perm: "mset ds = mset cs"
    and ord: "\<And>i. Suc i < length ds \<Longrightarrow> \<not> ranks_before (ds ! Suc i) (ds ! i)"
    and stable: "\<And>c. filter (\<lambda>d. rank_ordering c d = Equiv) ds =
                     filter (\<lambda>d. rank_ordering c d = Equiv) cs"
  shows "ds = sort_candidates cs"
proof -
  have "ranked ds" using ord by (rule ranked_adjacentI)
  then show ?thesis
    unfolding sort_candidates_def ranked_def using perm stable
    by (intro sort_eqI [symmetric]) simp_all
qed

theorem sort_candidates_unique_witness:
  "sort_candidates [demo_candidate 1 5, demo_candidate 2 9, demo_candidate 3 5] =
   [demo_candidate 2 9, demo_candidate 1 5, demo_candidate 3 5]"
  by (rule sort_candidates_unique [symmetric])
    (auto simp: demo_candidate_def ranks_before_def rank_ordering_Equiv combined_def sat_add_def
      nth_Cons' less_Suc_eq)

section \<open>The reference sort\<close>

text \<open>The documented ranking as one key: online first, then the larger combined stake, then the
  entry updated longest ago.\<close>

definition rank_key :: "candidate_info \<Rightarrow> bool \<times> int \<times> block_number" where
  "rank_key c = (offline c, - uint (combined c), last_updated c)"

lemma rank_key_less: "rank_key a < rank_key b \<longleftrightarrow> ranks_before a b"
  by (auto simp: rank_key_def ranks_before_def less_prod_def less_eq_prod_def word_less_def word_uint_eq_iff)

lemma rank_key_eq: "rank_key a = rank_key b \<longleftrightarrow> rank_ordering b a = Equiv"
  by (auto simp: rank_key_def rank_ordering_Equiv word_uint_eq_iff [of "combined _"])

text \<open>C23: the code's comparison sort is the library's reference insertion sort by the documented
  key: online candidates first, by decreasing saturated sum of bond and stake, ties by age
  of the last update, remaining ties in the previous order.\<close>

theorem sort_is_reference_sort:
  "sort_candidates cs = sort_key (\<lambda>c. (offline c, - uint (sat_add (bond c) (total_stake c)), last_updated c)) cs"
proof -
  have "sort_key rank_key cs = sort_candidates cs"
  proof (rule sort_candidates_unique)
    show "mset (sort_key rank_key cs) = mset cs" by simp
    show "\<not> ranks_before (sort_key rank_key cs ! Suc i) (sort_key rank_key cs ! i)"
      if "Suc i < length (sort_key rank_key cs)" for i
      using sorted_nth_mono [OF sorted_sort_key [of rank_key cs], of i "Suc i"] that
      by (simp add: rank_key_less [symmetric])
    show "filter (\<lambda>d. rank_ordering c d = Equiv) (sort_key rank_key cs) =
        filter (\<lambda>d. rank_ordering c d = Equiv) cs" for c
      using sort_key_stable [of rank_key "rank_key c" cs] by (simp add: rank_key_eq)
  qed
  moreover have "rank_key = (\<lambda>c. (offline c, - uint (sat_add (bond c) (total_stake c)), last_updated c))"
    by (simp add: fun_eq_iff rank_key_def combined_def)
  ultimately show ?thesis by simp
qed

end
