(* ===== verification/Frame.thy ===== *)
theory Frame
  imports Prelude
begin

text \<open>
  The framework interface the two pallets are written against. FRAME itself is not part of
  the repository: what the pallets use of it is either a parameter of the model (the currency
  behind \<open>ReservableCurrency\<close>, as a record of operations over an abstract bank state)
  or documented vocabulary (origins, dispatch errors, the transactional storage layer around
  every extrinsic). The locale \<open>reservable_currency\<close> states the documented contract of
  the currency; \<open>ledger\<close> is a concrete account book that satisfies it.
\<close>

section \<open>Origins and errors\<close>

text \<open>
  \<open>OriginCaller\<close> of the runtime: \<open>frame_system::RawOrigin\<close> and the two
  \<open>pallet_collective\<close> instances (\<open>Members(yes, total)\<close> is a motion approved by
  \<open>yes\<close> of \<open>total\<close> members).
\<close>

datatype 'a raw_origin = Root | Signed 'a | Unsigned

datatype collective_origin = Members u32 u32 | Member account_id

datatype origin =
    System "account_id raw_origin"
  | TechnicalCommittee collective_origin
  | TreasuryCouncil collective_origin

text \<open>
  \<open>DispatchError\<close>: a bad origin, an error of the pallet itself, an error handed through
  from another pallet (its code is opaque), or a panic of the pallet's code.
\<close>

datatype 'e dispatch_error = BadOrigin | PalletError 'e | ForeignError nat | Panic

fun ensure_signed :: "origin \<Rightarrow> 'e dispatch_error + account_id" where
  "ensure_signed (System (Signed a)) = Inr a"
| "ensure_signed _ = Inl BadOrigin"

lemma ensure_signed_Inr [simp]: "ensure_signed org = Inr a \<longleftrightarrow> org = System (Signed a)"
  by (cases org rule: ensure_signed.cases) auto

section \<open>The transactional storage layer\<close>

text \<open>
  Every call generated by \<open>#[pallet::call]\<close> runs in its own storage layer: when it returns
  \<open>Err\<close> all its writes are discarded.
\<close>

definition with_storage_layer ::
    "('s \<Rightarrow> ('e, 'a, 's) outcome) \<Rightarrow> 's \<Rightarrow> ('e, 'a, 's) outcome" where
  "with_storage_layer f s =
     (case f s of (Inl e, _) \<Rightarrow> (Inl e, s) | (Inr x, s') \<Rightarrow> (Inr x, s'))"

lemma with_storage_layer_Inr [simp]:
  "with_storage_layer f s = (Inr x, s') \<longleftrightarrow> f s = (Inr x, s')"
  by (auto simp: with_storage_layer_def split: prod.splits sum.splits)

lemma with_storage_layer_Inl:
  "with_storage_layer f s = (Inl e, s') \<longleftrightarrow> s' = s \<and> (\<exists>t. f s = (Inl e, t))"
  by (auto simp: with_storage_layer_def split: prod.splits sum.splits)

section \<open>The reservable currency\<close>

text \<open>
  \<open>Currency\<close> and \<open>ReservableCurrency\<close> as the staking pallet calls them, over an
  abstract bank state \<open>'c\<close>. \<open>reserve\<close> is fallible; \<open>unreserve\<close> cannot fail and
  returns the part of the request it could not release.
\<close>

record 'c currency_ops =
  free_balance :: "'c \<Rightarrow> account_id \<Rightarrow> balance"
  reserved_balance :: "'c \<Rightarrow> account_id \<Rightarrow> balance"
  reserve :: "'c \<Rightarrow> account_id \<Rightarrow> balance \<Rightarrow> nat + 'c"
  unreserve :: "'c \<Rightarrow> account_id \<Rightarrow> balance \<Rightarrow> balance \<times> 'c"

locale reservable_currency =
  fixes C :: "'c currency_ops"
  assumes reserve_covered: "reserve C m a v = Inr m' \<Longrightarrow> v \<le> free_balance C m a"
    and reserve_free: "reserve C m a v = Inr m' \<Longrightarrow>
      free_balance C m' a = free_balance C m a - v"
    and reserve_reserved: "reserve C m a v = Inr m' \<Longrightarrow>
      unat (reserved_balance C m' a) = unat (reserved_balance C m a) + unat v"
    and reserve_frame: "reserve C m a v = Inr m' \<Longrightarrow> b \<noteq> a \<Longrightarrow>
      free_balance C m' b = free_balance C m b \<and>
      reserved_balance C m' b = reserved_balance C m b"
    and unreserve_result: "fst (unreserve C m a v) = sat_sub v (reserved_balance C m a)"
    and unreserve_free: "free_balance C (snd (unreserve C m a v)) a =
      sat_add (free_balance C m a) (min v (reserved_balance C m a))"
    and unreserve_reserved: "reserved_balance C (snd (unreserve C m a v)) a =
      sat_sub (reserved_balance C m a) v"
    and unreserve_frame: "b \<noteq> a \<Longrightarrow>
      free_balance C (snd (unreserve C m a v)) b = free_balance C m b \<and>
      reserved_balance C (snd (unreserve C m a v)) b = reserved_balance C m b"
begin

lemma reserve_reserved_at:
  "reserve C m a v = Inr m' \<Longrightarrow>
   unat (reserved_balance C m' b) =
     unat (reserved_balance C m b) + (if b = a then unat v else 0)"
  using reserve_reserved [of m a v m'] reserve_frame [of m a v m' b] by auto

lemma unreserve_reserved_at:
  "unat (reserved_balance C (snd (unreserve C m a v)) b) =
     unat (reserved_balance C m b) - (if b = a then unat v else 0)"
  using unreserve_reserved [of m a v] unreserve_frame [of b a m v]
  by (auto simp: unat_sat_sub)

text \<open>Reserving moves money between the two pots of one account and creates none.\<close>

lemma reserve_total:
  assumes "reserve C m a v = Inr m'"
  shows "unat (free_balance C m' b) + unat (reserved_balance C m' b) =
         unat (free_balance C m b) + unat (reserved_balance C m b)"
proof (cases "b = a")
  case True
  have "unat (free_balance C m a - v) = unat (free_balance C m a) - unat v"
    and "unat v \<le> unat (free_balance C m a)"
    using reserve_covered [OF assms] by (simp_all add: unat_sub word_le_nat_alt)
  with True assms show ?thesis
    by (simp add: reserve_free [OF assms] reserve_reserved [OF assms])
next
  case False
  then show ?thesis using reserve_frame [OF assms] by simp
qed

text \<open>So does releasing, as long as the two pots together fit the balance type.\<close>

lemma unreserve_total:
  assumes "unat (free_balance C m a) + unat (reserved_balance C m a) < 2 ^ 128"
  shows "unat (free_balance C (snd (unreserve C m a v)) b) +
           unat (reserved_balance C (snd (unreserve C m a v)) b) =
         unat (free_balance C m b) + unat (reserved_balance C m b)"
proof (cases "b = a")
  case True
  have "unat (min v (reserved_balance C m a)) = min (unat v) (unat (reserved_balance C m a))"
    by (simp add: min_def word_le_nat_alt)
  moreover have "unat (free_balance C m a) + min (unat v) (unat (reserved_balance C m a)) \<le> 2 ^ 128 - 1"
    using assms by linarith
  ultimately show ?thesis
    using True by (simp add: unreserve_free unreserve_reserved unat_sat_add unat_sat_sub)
next
  case False
  then show ?thesis using unreserve_frame [of b a m v] by simp
qed

text \<open>Releasing what was just reserved restores both pots.\<close>

lemma unreserve_reserve:
  assumes "reserve C m a v = Inr m'"
  defines "m'' \<equiv> snd (unreserve C m' a v)"
  shows "free_balance C m'' b = free_balance C m b \<and>
         reserved_balance C m'' b = reserved_balance C m b"
proof (cases "b = a")
  case True
  note res = reserve_reserved [OF assms(1)] and le = reserve_covered [OF assms(1)]
  have v_le: "v \<le> reserved_balance C m' a"
    using res by (simp add: word_le_nat_alt)
  then have "unat (reserved_balance C m'' a) = unat (reserved_balance C m a)"
    using res by (simp add: m''_def unreserve_reserved unat_sat_sub)
  moreover have "unat (free_balance C m'' a) = unat (free_balance C m a)"
  proof -
    have "unat (free_balance C m'' a) = min (2 ^ 128 - 1) (unat (free_balance C m a - v) + unat v)"
      using v_le by (simp add: m''_def unreserve_free unat_sat_add reserve_free [OF assms(1)] min_absorb1)
    also have "unat (free_balance C m a - v) + unat v = unat (free_balance C m a)"
      using le by (simp add: unat_sub word_le_nat_alt)
    also have "min (2 ^ 128 - 1) (unat (free_balance C m a)) = unat (free_balance C m a)"
      using unsigned_less [of "free_balance C m a", where ?'a = nat] by (intro min_absorb2) simp
    finally show ?thesis .
  qed
  ultimately show ?thesis
    unfolding True by (intro conjI word_unat_eq_iff [THEN iffD2])
next
  case False
  then show ?thesis
    using reserve_frame [OF assms(1)] unreserve_frame [of b a m' v] by (simp add: m''_def)
qed

end

section \<open>A concrete account book\<close>

text \<open>
  Free and reserved balance per account, with the overflow and balance checks of the
  documented contract. It is the bank the witnesses run on.
\<close>

record ledger =
  l_free :: "account_id \<Rightarrow> balance"
  l_reserved :: "account_id \<Rightarrow> balance"

definition ledger_reserve :: "ledger \<Rightarrow> account_id \<Rightarrow> balance \<Rightarrow> nat + ledger" where
  "ledger_reserve m a v =
     (if l_free m a < v then Inl 0
      else if l_reserved m a + v < l_reserved m a then Inl 1
      else Inr (m\<lparr>l_free := (l_free m)(a := l_free m a - v),
                  l_reserved := (l_reserved m)(a := l_reserved m a + v)\<rparr>))"

definition ledger_unreserve :: "ledger \<Rightarrow> account_id \<Rightarrow> balance \<Rightarrow> balance \<times> ledger" where
  "ledger_unreserve m a v =
     (let moved = min v (l_reserved m a) in
      (v - moved,
       m\<lparr>l_free := (l_free m)(a := sat_add (l_free m a) moved),
         l_reserved := (l_reserved m)(a := l_reserved m a - moved)\<rparr>))"

definition ledger_ops :: "ledger currency_ops" where
  "ledger_ops = \<lparr>free_balance = l_free, reserved_balance = l_reserved,
                 reserve = ledger_reserve, unreserve = ledger_unreserve\<rparr>"

lemma ledger_ops_sel [simp]:
  "free_balance ledger_ops = l_free" "reserved_balance ledger_ops = l_reserved"
  "reserve ledger_ops = ledger_reserve" "unreserve ledger_ops = ledger_unreserve"
  by (simp_all add: ledger_ops_def)

lemma ledger_unreserve_reserved:
  "l_reserved (snd (ledger_unreserve m a v)) a = sat_sub (l_reserved m a) v"
  by (auto simp: ledger_unreserve_def Let_def sat_sub_def min_def)

interpretation ledger: reservable_currency ledger_ops
proof unfold_locales
  fix m a v m' and b :: account_id
  assume "reserve ledger_ops m a v = Inr m'"
  then have r: "\<not> l_free m a < v" "\<not> l_reserved m a + v < l_reserved m a"
    "m' = m\<lparr>l_free := (l_free m)(a := l_free m a - v),
            l_reserved := (l_reserved m)(a := l_reserved m a + v)\<rparr>"
    by (auto simp: ledger_reserve_def split: if_splits)
  from r show "v \<le> free_balance ledger_ops m a"
    and "free_balance ledger_ops m' a = free_balance ledger_ops m a - v"
    and "b \<noteq> a \<Longrightarrow> free_balance ledger_ops m' b = free_balance ledger_ops m b \<and>
         reserved_balance ledger_ops m' b = reserved_balance ledger_ops m b"
    by auto
  have "unat (l_reserved m a + v) = unat (l_reserved m a) + unat v"
    using r(2) by (simp add: add_overflow_iff unat_add_lem [symmetric] not_le)
  with r(3) show "unat (reserved_balance ledger_ops m' a) =
      unat (reserved_balance ledger_ops m a) + unat v"
    by simp
qed (auto simp: ledger_unreserve_reserved ledger_unreserve_def Let_def sat_sub_def min_def)

end
