(* ===== verification/Staking_State.thy ===== *)
theory Staking_State
  imports Ranking Frame
begin

text \<open>
  The storage of \<open>pallet-xode-staking\<close> (\<open>pallets/xode-staking/src/lib.rs\<close>), its
  configuration trait, events and errors, and the private helpers of the pallet that the
  dispatchables and the session hooks share. Storage the pallet only reads
  (\<open>pallet_session::Validators\<close>, the block number, the bank behind
  \<open>StakingCurrency\<close>) is part of the state record too.
\<close>

section \<open>Configuration, errors, events, storage\<close>

text \<open>
  The \<open>Config\<close> trait. \<open>encode_validator\<close> and \<open>decode_account\<close> are the SCALE codec of
  \<open>ValidatorId\<close> and \<open>AccountId\<close>, which \<open>validator_to_account\<close> goes through.
\<close>

record 'c staking_config =
  currency :: "'c currency_ops"
  max_candidates :: u32
  max_delegations :: u32
  min_candidate_bond :: balance
  max_staling_period :: block_number
  encode_validator :: "account_id \<Rightarrow> u8 list"
  decode_account :: "u8 list \<Rightarrow> account_id option"

datatype staking_error =
    CandidateAlreadyExists
  | CandidateMaxExceeded
  | CandidateNotFound
  | InvalidCommission
  | InsufficientBalance
  | InsufficientBond
  | StillOnline
  | StillWaiting
  | StillQueuing
  | StillAuthoring
  | DelegationToSelfNotAllowed
  | DelegationInsufficientBalance
  | CandidateDoesNotExist
  | DelegationNotFound
  | NoDelegationsForCandidate
  | DelegationsMaxExceeded
  | WaitingCandidatesEmpty

datatype staking_event =
    CandidateRegistered account_id
  | CandidateBonded account_id balance
  | CandidateBondCorrected account_id
  | CandidateCommissionSet account_id u8
  | CandidateWentOffline account_id
  | CandidateWentOnline account_id
  | CandidateLeft account_id
  | DelegationAdded account_id account_id balance
  | DelegationRevoked account_id account_id

type_synonym staking_failure = "staking_error dispatch_error"

record 'c chain =
  invulnerables :: "account_id list"
  desired_candidates :: "account_id list"
  proposed_candidates :: "candidate_info list"
  waiting_candidates :: "account_id list"
  delegations :: "account_id \<Rightarrow> delegation list option"
  actual_authors :: "account_id list"
  validators :: "account_id list"
  block_number :: block_number
  bank :: 'c
  events :: "staking_event list"

text \<open>The empty storage before genesis: every \<open>ValueQuery\<close> reads as the empty vector.\<close>

definition empty_chain :: "'c \<Rightarrow> 'c chain" where
  "empty_chain m =
     \<lparr>invulnerables = [], desired_candidates = [], proposed_candidates = [],
      waiting_candidates = [], delegations = (\<lambda>_. None), actual_authors = [],
      validators = [], block_number = 0, bank = m, events = []\<rparr>"

definition genesis_build :: "'c staking_config \<Rightarrow> account_id list \<Rightarrow> 'c chain \<Rightarrow> 'c chain option" where
  "genesis_build cfg desired s =
     (if length desired \<le> unat (max_candidates cfg)
      then Some (s\<lparr>desired_candidates := desired, invulnerables := desired,
                    waiting_candidates := desired\<rparr>)
      else None)"

definition deposit_event :: "staking_event \<Rightarrow> 'c chain \<Rightarrow> 'c chain" where
  "deposit_event e s = s\<lparr>events := events s @ [e]\<rparr>"

section \<open>Private helpers\<close>

text \<open>
  \<open>candidates.iter_mut().find(|c| c.who == who)\<close> as a lookup, and the write through the
  reference it returns.
\<close>

definition find_candidate :: "account_id \<Rightarrow> 'c chain \<Rightarrow> candidate_info option" where
  "find_candidate a s = find (\<lambda>c. who c = a) (proposed_candidates s)"

definition modify_candidate ::
    "account_id \<Rightarrow> (candidate_info \<Rightarrow> candidate_info) \<Rightarrow> 'c chain \<Rightarrow> 'c chain" where
  "modify_candidate a f s =
     s\<lparr>proposed_candidates := update_first (\<lambda>c. who c = a) f (proposed_candidates s)\<rparr>"

definition set_offline :: "account_id \<Rightarrow> bool \<Rightarrow> 'c chain \<Rightarrow> staking_failure + 'c chain" where
  "set_offline a off s =
     (case find_candidate a s of
        None \<Rightarrow> Inl (PalletError CandidateNotFound)
      | Some _ \<Rightarrow> Inr (modify_candidate a
                    (\<lambda>c. c\<lparr>offline := off, last_updated := block_number s\<rparr>) s))"

text \<open>The \<open>expect\<close> of \<open>validator_to_account\<close> panics where the decoder fails: \<open>None\<close>.\<close>

definition validator_to_account :: "'c staking_config \<Rightarrow> account_id \<Rightarrow> account_id option" where
  "validator_to_account cfg v = decode_account cfg (encode_validator cfg v)"

definition current_validators :: "'c staking_config \<Rightarrow> 'c chain \<Rightarrow> account_id list option" where
  "current_validators cfg s = those (map (validator_to_account cfg) (validators s))"

definition is_current_validator :: "'c staking_config \<Rightarrow> account_id \<Rightarrow> 'c chain \<Rightarrow> bool option" where
  "is_current_validator cfg a s = map_option (\<lambda>vs. a \<in> set vs) (current_validators cfg s)"

definition remove_from_waiting :: "account_id \<Rightarrow> 'c chain \<Rightarrow> 'c chain" where
  "remove_from_waiting a s =
     s\<lparr>waiting_candidates := filter (\<lambda>w. w \<noteq> a) (waiting_candidates s)\<rparr>"

definition set_status :: "account_id \<Rightarrow> status \<Rightarrow> 'c chain \<Rightarrow> 'c chain" where
  "set_status a st = modify_candidate a (\<lambda>c. c\<lparr>status := st\<rparr>)"

definition sort_proposed_candidates :: "'c chain \<Rightarrow> 'c chain" where
  "sort_proposed_candidates s =
     s\<lparr>proposed_candidates := sort_candidates (proposed_candidates s)\<rparr>"

definition total_of :: "delegation list option \<Rightarrow> balance" where
  "total_of ds =
     (case ds of None \<Rightarrow> 0 | Some l \<Rightarrow> foldl (\<lambda>acc d. sat_add acc (stake d)) 0 l)"

definition recompute_total_stake :: "account_id \<Rightarrow> 'c chain \<Rightarrow> staking_failure + 'c chain" where
  "recompute_total_stake a s =
     (let t = total_of (delegations s a) in
      case find_candidate a s of
        None \<Rightarrow> Inl (PalletError CandidateNotFound)
      | Some _ \<Rightarrow> Inr (sort_proposed_candidates
                    (modify_candidate a
                      (\<lambda>c. c\<lparr>total_stake := t, last_updated := block_number s\<rparr>) s)))"

definition record_authored_block :: "account_id \<Rightarrow> 'c chain \<Rightarrow> 'c chain" where
  "record_authored_block a s =
     modify_candidate a (\<lambda>c. c\<lparr>last_authored := block_number s\<rparr>) s"

definition add_actual_author :: "'c staking_config \<Rightarrow> account_id \<Rightarrow> 'c chain \<Rightarrow> 'c chain" where
  "add_actual_author cfg a s =
     (if a \<in> set (actual_authors s) then s
      else case try_push (max_candidates cfg) a (actual_authors s) of
             None \<Rightarrow> s
           | Some as \<Rightarrow> s\<lparr>actual_authors := as\<rparr>)"

text \<open>The three guards that \<open>bond_candidate\<close>, \<open>leave_candidate\<close> and \<open>bond_correction\<close>
  repeat: not in the waiting list, not queued, not a current validator.\<close>

definition ensure_out_of_pipeline ::
    "'c staking_config \<Rightarrow> account_id \<Rightarrow> 'c chain \<Rightarrow> staking_failure + unit" where
  "ensure_out_of_pipeline cfg a s =
     (if a \<in> set (waiting_candidates s) then Inl (PalletError StillWaiting)
      else if a \<in> set (invulnerables s) then Inl (PalletError StillQueuing)
      else case is_current_validator cfg a s of
             None \<Rightarrow> Inl Panic
           | Some True \<Rightarrow> Inl (PalletError StillAuthoring)
           | Some False \<Rightarrow> Inr ())"

section \<open>Facts about the helpers\<close>

lemma those_map_Some [simp]: "those (map Some xs) = Some xs"
  by (induction xs) auto

lemma those_map_total: "(\<And>x. f x = Some x) \<Longrightarrow> those (map f xs) = Some xs"
  by (induction xs) auto

text \<open>With a codec that decodes what it encodes, the \<open>expect\<close> never fires.\<close>

definition lawful_codec :: "'c staking_config \<Rightarrow> bool" where
  "lawful_codec cfg \<longleftrightarrow> (\<forall>a. decode_account cfg (encode_validator cfg a) = Some a)"

lemma current_validators_lawful [simp]:
  "lawful_codec cfg \<Longrightarrow> current_validators cfg s = Some (validators s)"
  by (simp add: current_validators_def validator_to_account_def lawful_codec_def
      those_map_total)

lemma is_current_validator_lawful [simp]:
  "lawful_codec cfg \<Longrightarrow> is_current_validator cfg a s = Some (a \<in> set (validators s))"
  by (simp add: is_current_validator_def)

lemma ensure_out_of_pipeline_Inr:
  "ensure_out_of_pipeline cfg a s = Inr u \<longleftrightarrow>
   a \<notin> set (waiting_candidates s) \<and> a \<notin> set (invulnerables s) \<and>
   is_current_validator cfg a s = Some False"
  by (auto simp: ensure_out_of_pipeline_def split: option.splits bool.splits)

lemma modify_candidate_sel [simp]:
  "invulnerables (modify_candidate a f s) = invulnerables s"
  "desired_candidates (modify_candidate a f s) = desired_candidates s"
  "waiting_candidates (modify_candidate a f s) = waiting_candidates s"
  "delegations (modify_candidate a f s) = delegations s"
  "actual_authors (modify_candidate a f s) = actual_authors s"
  "validators (modify_candidate a f s) = validators s"
  "block_number (modify_candidate a f s) = block_number s"
  "bank (modify_candidate a f s) = bank s"
  "events (modify_candidate a f s) = events s"
  "proposed_candidates (modify_candidate a f s) =
     update_first (\<lambda>c. who c = a) f (proposed_candidates s)"
  by (simp_all add: modify_candidate_def)

lemma sort_proposed_candidates_sel [simp]:
  "invulnerables (sort_proposed_candidates s) = invulnerables s"
  "desired_candidates (sort_proposed_candidates s) = desired_candidates s"
  "waiting_candidates (sort_proposed_candidates s) = waiting_candidates s"
  "delegations (sort_proposed_candidates s) = delegations s"
  "actual_authors (sort_proposed_candidates s) = actual_authors s"
  "validators (sort_proposed_candidates s) = validators s"
  "block_number (sort_proposed_candidates s) = block_number s"
  "bank (sort_proposed_candidates s) = bank s"
  "events (sort_proposed_candidates s) = events s"
  "proposed_candidates (sort_proposed_candidates s) = sort_candidates (proposed_candidates s)"
  by (simp_all add: sort_proposed_candidates_def)

lemma deposit_event_sel [simp]:
  "invulnerables (deposit_event e s) = invulnerables s"
  "desired_candidates (deposit_event e s) = desired_candidates s"
  "proposed_candidates (deposit_event e s) = proposed_candidates s"
  "waiting_candidates (deposit_event e s) = waiting_candidates s"
  "delegations (deposit_event e s) = delegations s"
  "actual_authors (deposit_event e s) = actual_authors s"
  "validators (deposit_event e s) = validators s"
  "block_number (deposit_event e s) = block_number s"
  "bank (deposit_event e s) = bank s"
  "events (deposit_event e s) = events s @ [e]"
  by (simp_all add: deposit_event_def)

lemma remove_from_waiting_sel [simp]:
  "invulnerables (remove_from_waiting a s) = invulnerables s"
  "desired_candidates (remove_from_waiting a s) = desired_candidates s"
  "proposed_candidates (remove_from_waiting a s) = proposed_candidates s"
  "delegations (remove_from_waiting a s) = delegations s"
  "actual_authors (remove_from_waiting a s) = actual_authors s"
  "validators (remove_from_waiting a s) = validators s"
  "block_number (remove_from_waiting a s) = block_number s"
  "bank (remove_from_waiting a s) = bank s"
  "events (remove_from_waiting a s) = events s"
  "waiting_candidates (remove_from_waiting a s) = filter (\<lambda>w. w \<noteq> a) (waiting_candidates s)"
  by (simp_all add: remove_from_waiting_def)

lemma set_status_sel [simp]:
  "invulnerables (set_status a st s) = invulnerables s"
  "desired_candidates (set_status a st s) = desired_candidates s"
  "waiting_candidates (set_status a st s) = waiting_candidates s"
  "delegations (set_status a st s) = delegations s"
  "actual_authors (set_status a st s) = actual_authors s"
  "validators (set_status a st s) = validators s"
  "block_number (set_status a st s) = block_number s"
  "bank (set_status a st s) = bank s"
  "events (set_status a st s) = events s"
  by (simp_all add: set_status_def)

lemma remove_from_waiting_absent:
  "a \<notin> set (waiting_candidates s) \<Longrightarrow> remove_from_waiting a s = s"
  by (cases s) (auto simp: remove_from_waiting_def filter_id_conv)

section \<open>The saturating sum of delegations\<close>

definition stake_sum :: "delegation list option \<Rightarrow> nat" where
  "stake_sum ds = (case ds of None \<Rightarrow> 0 | Some l \<Rightarrow> sum_list (map (\<lambda>d. unat (stake d)) l))"

lemma foldl_sat_add:
  "unat (foldl (\<lambda>acc d. sat_add acc (stake d)) b l) =
   min (2 ^ 128 - 1) (unat b + sum_list (map (\<lambda>d. unat (stake d)) l))"
proof (induction l arbitrary: b)
  case Nil
  have "unat b \<le> 2 ^ 128 - 1"
    using unsigned_less [of b, where ?'a = nat] by simp
  then show ?case by simp
next
  case (Cons d l)
  then show ?case by (simp add: unat_sat_add)
qed

text \<open>
  The \<open>total_stake\<close> the pallet computes is the exact sum of the stakes, cut off at the
  largest \<open>u128\<close>: the saturating fold never wraps.
\<close>

lemma unat_total_of: "unat (total_of ds) = min (2 ^ 128 - 1) (stake_sum ds)"
  by (auto simp: total_of_def stake_sum_def foldl_sat_add split: option.splits)

end
