(* ===== verification/Runtime_Config.thy ===== *)
theory Runtime_Config
  imports Staking_State Constants
begin

text \<open>
  The runtime's instance of the staking pallet's configuration
  (\<open>runtime/src/configs/mod.rs\<close>): the parameters are those of \<open>Constants\<close>; the currency
  and the SCALE codec of \<open>AccountId\<close> stay parameters. \<open>account_bytes\<close> is the 32-byte
  encoding with which the witnesses instantiate the codec.
\<close>

definition xode_staking_config ::
    "'c currency_ops \<Rightarrow> (account_id \<Rightarrow> u8 list) \<Rightarrow> (u8 list \<Rightarrow> account_id option) \<Rightarrow>
     'c staking_config" where
  "xode_staking_config C enc dec =
     \<lparr>currency = C, max_candidates = MaxStakingCandidates,
      max_delegations = MaxDelegationsPerCandidate, min_candidate_bond = MinCandidateBond,
      max_staling_period = MaxStalingPeriod, encode_validator = enc, decode_account = dec\<rparr>"

text \<open>\<open>AccountIdToValidatorId\<close>: a validator is identified by its own account.\<close>

definition account_to_validator_id :: "account_id \<Rightarrow> account_id option" where
  "account_to_validator_id a = Some a"

lemma xode_staking_config_sel [simp]:
  "currency (xode_staking_config C enc dec) = C"
  "max_candidates (xode_staking_config C enc dec) = 50"
  "max_delegations (xode_staking_config C enc dec) = 100"
  "min_candidate_bond (xode_staking_config C enc dec) = 100000000000000"
  "max_staling_period (xode_staking_config C enc dec) = 604800"
  "encode_validator (xode_staking_config C enc dec) = enc"
  "decode_account (xode_staking_config C enc dec) = dec"
  by (simp_all add: xode_staking_config_def constant_defs)

section \<open>A concrete codec\<close>

unbundle bit_operations_syntax

definition account_bytes :: "account_id \<Rightarrow> u8 list" where
  "account_bytes a = map (\<lambda>i. ucast (drop_bit (8 * i) a)) [0..<32]"

definition account_of_bytes :: "u8 list \<Rightarrow> account_id option" where
  "account_of_bytes bs =
     (if length bs < 32 then None
      else Some (foldr (\<lambda>b acc. push_bit 8 acc OR ucast b) (take 32 bs) 0))"

lemma fold_bytes:
  "foldr (\<lambda>b acc. push_bit 8 acc OR ucast b)
     (map (\<lambda>i. ucast (drop_bit (8 * i) a) :: u8) [k..<k + n]) (0 :: account_id) =
   take_bit (8 * n) (drop_bit (8 * k) a)"
proof (induction n arbitrary: k)
  case 0
  then show ?case by simp
next
  case (Suc n)
  have "[k..<k + Suc n] = k # [Suc k..<Suc k + n]"
    by (simp add: upt_conv_Cons)
  then have "foldr (\<lambda>b acc. push_bit 8 acc OR ucast b)
      (map (\<lambda>i. ucast (drop_bit (8 * i) a) :: u8) [k..<k + Suc n]) (0 :: account_id) =
    push_bit 8 (take_bit (8 * n) (drop_bit (8 * Suc k) a)) OR
      ucast (ucast (drop_bit (8 * k) a) :: u8)"
    using Suc.IH [of "Suc k"] by simp
  also have "\<dots> = take_bit (8 * Suc n) (drop_bit (8 * k) a)"
    by (rule bit_word_eqI) (auto simp: bit_simps)
  finally show ?case .
qed

lemma account_codec: "account_of_bytes (account_bytes a) = Some a"
  using fold_bytes [of a 0 32] by (simp add: account_of_bytes_def account_bytes_def take_bit_word_eq_self)

section \<open>The demonstration chain of the witnesses\<close>

text \<open>The runtime's limits over the concrete ledger, in which every account starts with
  \<open>10 ^ 15\<close> free base units.\<close>

definition demo_config :: "ledger staking_config" where
  "demo_config = xode_staking_config ledger_ops account_bytes account_of_bytes"

definition demo_ledger :: ledger where
  "demo_ledger = \<lparr>l_free = (\<lambda>_. 1000000000000000), l_reserved = (\<lambda>_. 0)\<rparr>"

definition demo_genesis :: "account_id list \<Rightarrow> ledger chain" where
  "demo_genesis desired = (empty_chain demo_ledger)
     \<lparr>desired_candidates := desired, invulnerables := desired, waiting_candidates := desired\<rparr>"

lemma demo_config_sel [simp]:
  "currency demo_config = ledger_ops"
  "max_candidates demo_config = 50"
  "max_delegations demo_config = 100"
  "min_candidate_bond demo_config = 100000000000000"
  "max_staling_period demo_config = 604800"
  by (simp_all add: demo_config_def)

lemma demo_codec [simp]: "lawful_codec demo_config"
  by (simp add: lawful_codec_def demo_config_def account_codec)

definition demo_chain :: "account_id list \<Rightarrow> candidate_info list \<Rightarrow> ledger chain" where
  "demo_chain desired cs = (demo_genesis desired)\<lparr>proposed_candidates := cs\<rparr>"

lemmas demo_simps = demo_chain_def demo_genesis_def empty_chain_def demo_ledger_def
  demo_candidate_def

end
