(* ===== verification/Staking_Calls.thy ===== *)
theory Staking_Calls
  imports Staking_State Runtime_Config
begin

text \<open>
  The nine dispatchables of \<open>pallet-xode-staking\<close>. Each is a function from the storage
  to a result and the storage the body leaves behind, with the guards in the order of the
  source; \<open>dispatch\<close> runs a body in its storage layer, as the runtime does. The second
  half characterises every body: what a successful call has checked and what it wrote.
\<close>

section \<open>The dispatchables\<close>

type_synonym 'c call_result = "(staking_failure, unit, 'c chain) outcome"

definition register_candidate :: "'c staking_config \<Rightarrow> origin \<Rightarrow> 'c chain \<Rightarrow> 'c call_result" where
  [handler_defs]: "register_candidate cfg org s =
     (case ensure_signed org of
        Inl e \<Rightarrow> (Inl e, s)
      | Inr a \<Rightarrow>
         if list_ex (\<lambda>c. who c = a) (proposed_candidates s)
         then (Inl (PalletError CandidateAlreadyExists), s)
         else
           let now = block_number s;
               info = \<lparr>who = a, bond = 0, total_stake = 0, last_updated = now,
                       last_authored = now, leaving = False, offline = False,
                       commission = 0, status = Online\<rparr>
           in case try_push (max_candidates cfg) info (proposed_candidates s) of
                None \<Rightarrow> (Inl (PalletError CandidateMaxExceeded), s)
              | Some cs \<Rightarrow>
                  (Inr (), deposit_event (CandidateRegistered a) (s\<lparr>proposed_candidates := cs\<rparr>)))"

text \<open>The two branches of the guard in front of \<open>bond_candidate\<close>.\<close>

definition ensure_bond_allowed ::
    "'c staking_config \<Rightarrow> account_id \<Rightarrow> balance \<Rightarrow> 'c chain \<Rightarrow> staking_failure + unit" where
  "ensure_bond_allowed cfg a new_bond s =
     (if new_bond = 0 then ensure_out_of_pipeline cfg a s
      else if min_candidate_bond cfg \<le> new_bond then Inr ()
      else Inl (PalletError InsufficientBond))"

text \<open>The reserve adjustment of \<open>bond_candidate\<close>: reserve the increase or release the
  decrease.\<close>

definition adjust_reserve ::
    "'c staking_config \<Rightarrow> account_id \<Rightarrow> balance \<Rightarrow> balance \<Rightarrow> 'c \<Rightarrow> staking_failure + 'c" where
  "adjust_reserve cfg a old_bond new_bond m =
     (if old_bond < new_bond then
        let diff = sat_sub new_bond old_bond in
        if diff \<le> free_balance (currency cfg) m a then
          (case reserve (currency cfg) m a diff of
             Inl n \<Rightarrow> Inl (ForeignError n)
           | Inr m' \<Rightarrow> Inr m')
        else Inl (PalletError InsufficientBalance)
      else if new_bond < old_bond then
        Inr (snd (unreserve (currency cfg) m a (sat_sub old_bond new_bond)))
      else Inr m)"

definition bond_candidate ::
    "'c staking_config \<Rightarrow> origin \<Rightarrow> balance \<Rightarrow> 'c chain \<Rightarrow> 'c call_result" where
  [handler_defs]: "bond_candidate cfg org new_bond s =
     (case ensure_signed org of
        Inl e \<Rightarrow> (Inl e, s)
      | Inr a \<Rightarrow>
         (case ensure_bond_allowed cfg a new_bond s of
            Inl e \<Rightarrow> (Inl e, s)
          | Inr _ \<Rightarrow>
             (case find_candidate a s of
                None \<Rightarrow> (Inl (PalletError CandidateNotFound), s)
              | Some c \<Rightarrow>
                 (case adjust_reserve cfg a (bond c) new_bond (bank s) of
                    Inl e \<Rightarrow> (Inl e, s)
                  | Inr m \<Rightarrow>
                      (Inr (),
                       deposit_event (CandidateBonded a new_bond)
                        (sort_proposed_candidates
                          (modify_candidate a
                            (\<lambda>c. c\<lparr>bond := new_bond, last_updated := block_number s\<rparr>)
                            (s\<lparr>bank := m\<rparr>))))))))"

definition set_commission_of_candidate ::
    "'c staking_config \<Rightarrow> origin \<Rightarrow> u8 \<Rightarrow> 'c chain \<Rightarrow> 'c call_result" where
  [handler_defs]: "set_commission_of_candidate cfg org com s =
     (case ensure_signed org of
        Inl e \<Rightarrow> (Inl e, s)
      | Inr a \<Rightarrow>
         if 1 \<le> com \<and> com \<le> 100 then
           (case find_candidate a s of
              None \<Rightarrow> (Inl (PalletError CandidateNotFound), s)
            | Some _ \<Rightarrow>
                (Inr (),
                 deposit_event (CandidateCommissionSet a com)
                  (modify_candidate a
                    (\<lambda>c. c\<lparr>commission := com, last_updated := block_number s\<rparr>) s)))
         else (Inl (PalletError InvalidCommission), s))"

text \<open>The delegation vector after \<open>stake_candidate\<close>'s \<open>try_mutate\<close>: an existing entry
  grows, a new one is pushed if there is room.\<close>

definition add_delegation ::
    "u32 \<Rightarrow> account_id \<Rightarrow> balance \<Rightarrow> delegation list option \<Rightarrow> delegation list option" where
  "add_delegation bound a amount maybe =
     (let ds = (case maybe of None \<Rightarrow> [] | Some l \<Rightarrow> l) in
      case find (\<lambda>d. delegator d = a) ds of
        Some _ \<Rightarrow> Some (update_first (\<lambda>d. delegator d = a)
                         (\<lambda>d. d\<lparr>stake := sat_add (stake d) amount\<rparr>) ds)
      | None \<Rightarrow> try_push bound \<lparr>delegator = a, stake = amount\<rparr> ds)"

definition stake_candidate ::
    "'c staking_config \<Rightarrow> origin \<Rightarrow> account_id \<Rightarrow> balance \<Rightarrow> 'c chain \<Rightarrow> 'c call_result" where
  [handler_defs]: "stake_candidate cfg org cand amount s =
     (case ensure_signed org of
        Inl e \<Rightarrow> (Inl e, s)
      | Inr a \<Rightarrow>
         if a = cand then (Inl (PalletError DelegationToSelfNotAllowed), s)
         else if \<not> list_ex (\<lambda>c. who c = cand) (proposed_candidates s)
         then (Inl (PalletError CandidateDoesNotExist), s)
         else if \<not> amount \<le> free_balance (currency cfg) (bank s) a
         then (Inl (PalletError DelegationInsufficientBalance), s)
         else
           (case reserve (currency cfg) (bank s) a amount of
              Inl n \<Rightarrow> (Inl (ForeignError n), s)
            | Inr m \<Rightarrow>
               let s1 = s\<lparr>bank := m\<rparr> in
               (case add_delegation (max_delegations cfg) a amount (delegations s1 cand) of
                  None \<Rightarrow> (Inl (PalletError DelegationsMaxExceeded), s1)
                | Some ds \<Rightarrow>
                   let s2 = s1\<lparr>delegations := (delegations s1)(cand := Some ds)\<rparr> in
                   (case recompute_total_stake cand s2 of
                      Inl e \<Rightarrow> (Inl e, s2)
                    | Inr s3 \<Rightarrow> (Inr (), deposit_event (DelegationAdded a cand amount) s3)))))"

text \<open>\<open>unstake_candidate\<close>'s \<open>try_mutate_exists\<close>: the removed stake and the vector that is
  left, which is dropped from the map when empty.\<close>

definition take_delegation ::
    "account_id \<Rightarrow> delegation list option \<Rightarrow> staking_failure + (balance \<times> delegation list option)" where
  "take_delegation a maybe =
     (case maybe of
        None \<Rightarrow> Inl (PalletError NoDelegationsForCandidate)
      | Some ds \<Rightarrow>
         (case position (\<lambda>d. delegator d = a) ds of
            None \<Rightarrow> Inl (PalletError DelegationNotFound)
          | Some i \<Rightarrow>
             let amount = stake (ds ! i); rest = remove_at i ds in
             Inr (amount, if rest = [] then None else Some rest)))"

definition unstake_candidate ::
    "'c staking_config \<Rightarrow> origin \<Rightarrow> account_id \<Rightarrow> 'c chain \<Rightarrow> 'c call_result" where
  [handler_defs]: "unstake_candidate cfg org cand s =
     (case ensure_signed org of
        Inl e \<Rightarrow> (Inl e, s)
      | Inr a \<Rightarrow>
         (case take_delegation a (delegations s cand) of
            Inl e \<Rightarrow> (Inl e, s)
          | Inr (amount, rest) \<Rightarrow>
             let s1 = s\<lparr>delegations := (delegations s)(cand := rest)\<rparr>;
                 s2 = s1\<lparr>bank := snd (unreserve (currency cfg) (bank s1) a amount)\<rparr>
             in (case recompute_total_stake cand s2 of
                   Inl e \<Rightarrow> (Inl e, s2)
                 | Inr s3 \<Rightarrow> (Inr (), deposit_event (DelegationRevoked a cand) s3))))"

definition offline_candidate :: "'c staking_config \<Rightarrow> origin \<Rightarrow> 'c chain \<Rightarrow> 'c call_result" where
  [handler_defs]: "offline_candidate cfg org s =
     (case ensure_signed org of
        Inl e \<Rightarrow> (Inl e, s)
      | Inr a \<Rightarrow>
         (case set_offline a True s of
            Inl e \<Rightarrow> (Inl e, s)
          | Inr s1 \<Rightarrow>
              (Inr (), deposit_event (CandidateWentOffline a) (sort_proposed_candidates s1))))"

definition online_candidate :: "'c staking_config \<Rightarrow> origin \<Rightarrow> 'c chain \<Rightarrow> 'c call_result" where
  [handler_defs]: "online_candidate cfg org s =
     (case ensure_signed org of
        Inl e \<Rightarrow> (Inl e, s)
      | Inr a \<Rightarrow>
         (case set_offline a False s of
            Inl e \<Rightarrow> (Inl e, s)
          | Inr s1 \<Rightarrow>
              (Inr (), deposit_event (CandidateWentOnline a) (sort_proposed_candidates s1))))"

definition leave_candidate :: "'c staking_config \<Rightarrow> origin \<Rightarrow> 'c chain \<Rightarrow> 'c call_result" where
  [handler_defs]: "leave_candidate cfg org s =
     (case ensure_signed org of
        Inl e \<Rightarrow> (Inl e, s)
      | Inr a \<Rightarrow>
         (case find_candidate a s of
            None \<Rightarrow> (Inl (PalletError CandidateNotFound), s)
          | Some c \<Rightarrow>
             if \<not> offline c then (Inl (PalletError StillOnline), s)
             else
               (case ensure_out_of_pipeline cfg a s of
                  Inl e \<Rightarrow> (Inl e, s)
                | Inr _ \<Rightarrow>
                    (Inr (),
                     deposit_event (CandidateLeft a)
                      (remove_from_waiting a
                        (modify_candidate a
                          (\<lambda>c. c\<lparr>leaving := True, last_updated := block_number s\<rparr>) s))))))"

definition bond_correction ::
    "'c staking_config \<Rightarrow> origin \<Rightarrow> balance \<Rightarrow> 'c chain \<Rightarrow> 'c call_result" where
  [handler_defs]: "bond_correction cfg org frozen_balance s =
     (case ensure_signed org of
        Inl e \<Rightarrow> (Inl e, s)
      | Inr a \<Rightarrow>
         (case find_candidate a s of
            None \<Rightarrow> (Inl (PalletError CandidateNotFound), s)
          | Some c \<Rightarrow>
             if \<not> offline c then (Inl (PalletError StillOnline), s)
             else
               (case ensure_out_of_pipeline cfg a s of
                  Inl e \<Rightarrow> (Inl e, s)
                | Inr _ \<Rightarrow>
                    (Inr (),
                     deposit_event (CandidateBondCorrected a)
                      (modify_candidate a
                        (\<lambda>c. c\<lparr>bond := 0, last_updated := block_number s\<rparr>)
                        (s\<lparr>bank := snd (unreserve (currency cfg) (bank s) a frozen_balance)\<rparr>))))))"

section \<open>Calls as data\<close>

datatype staking_call =
    RegisterCandidate
  | BondCandidate balance
  | SetCommissionOfCandidate u8
  | StakeCandidate account_id balance
  | UnstakeCandidate account_id
  | OfflineCandidate
  | OnlineCandidate
  | LeaveCandidate
  | BondCorrection balance

fun call_index :: "staking_call \<Rightarrow> nat" where
  "call_index RegisterCandidate = 0"
| "call_index (BondCandidate _) = 1"
| "call_index (SetCommissionOfCandidate _) = 2"
| "call_index (StakeCandidate _ _) = 3"
| "call_index (UnstakeCandidate _) = 4"
| "call_index OfflineCandidate = 5"
| "call_index OnlineCandidate = 6"
| "call_index LeaveCandidate = 7"
| "call_index (BondCorrection _) = 8"

fun call_body :: "'c staking_config \<Rightarrow> origin \<Rightarrow> staking_call \<Rightarrow> 'c chain \<Rightarrow> 'c call_result" where
  "call_body cfg org RegisterCandidate = register_candidate cfg org"
| "call_body cfg org (BondCandidate b) = bond_candidate cfg org b"
| "call_body cfg org (SetCommissionOfCandidate com) = set_commission_of_candidate cfg org com"
| "call_body cfg org (StakeCandidate cand amount) = stake_candidate cfg org cand amount"
| "call_body cfg org (UnstakeCandidate cand) = unstake_candidate cfg org cand"
| "call_body cfg org OfflineCandidate = offline_candidate cfg org"
| "call_body cfg org OnlineCandidate = online_candidate cfg org"
| "call_body cfg org LeaveCandidate = leave_candidate cfg org"
| "call_body cfg org (BondCorrection b) = bond_correction cfg org b"

definition dispatch :: "'c staking_config \<Rightarrow> origin \<Rightarrow> staking_call \<Rightarrow> 'c chain \<Rightarrow> 'c call_result" where
  "dispatch cfg org call = with_storage_layer (call_body cfg org call)"

section \<open>What a successful call has done\<close>

lemma dispatch_Inr [simp]:
  "dispatch cfg org call s = (Inr u, s') \<longleftrightarrow> call_body cfg org call s = (Inr u, s')"
  by (simp add: dispatch_def)

lemma find_candidate_None:
  "find_candidate a s = None \<longleftrightarrow> (\<forall>c\<in>set (proposed_candidates s). who c \<noteq> a)"
  by (simp add: find_candidate_def find_None_all)

lemma find_candidate_Some:
  "find_candidate a s = Some c \<Longrightarrow> c \<in> set (proposed_candidates s) \<and> who c = a"
  unfolding find_candidate_def by (rule find_Some_in)

lemma list_ex_who:
  "list_ex (\<lambda>c. who c = a) (proposed_candidates s) \<longleftrightarrow> find_candidate a s \<noteq> None"
  by (simp add: find_candidate_None list_ex_iff)

lemma register_candidate_ok:
  "register_candidate cfg org s = (Inr u, s') \<Longrightarrow>
   \<exists>a. org = System (Signed a) \<and> find_candidate a s = None \<and>
     length (proposed_candidates s) < unat (max_candidates cfg) \<and>
     s' = deposit_event (CandidateRegistered a) (s\<lparr>proposed_candidates := proposed_candidates s @
       [\<lparr>who = a, bond = 0, total_stake = 0, last_updated = block_number s,
         last_authored = block_number s, leaving = False, offline = False,
         commission = 0, status = Online\<rparr>]\<rparr>)"
  by (auto simp: register_candidate_def Let_def list_ex_who
      split: sum.splits if_splits option.splits)

lemma bond_candidate_ok:
  "bond_candidate cfg org b s = (Inr u, s') \<Longrightarrow>
   \<exists>a c m. org = System (Signed a) \<and> ensure_bond_allowed cfg a b s = Inr () \<and>
     find_candidate a s = Some c \<and> adjust_reserve cfg a (bond c) b (bank s) = Inr m \<and>
     s' = deposit_event (CandidateBonded a b) (sort_proposed_candidates
            (modify_candidate a (\<lambda>c. c\<lparr>bond := b, last_updated := block_number s\<rparr>)
              (s\<lparr>bank := m\<rparr>)))"
  by (auto simp: bond_candidate_def split: sum.splits option.splits)

lemma set_commission_ok:
  "set_commission_of_candidate cfg org com s = (Inr u, s') \<Longrightarrow>
   \<exists>a c. org = System (Signed a) \<and> 1 \<le> com \<and> com \<le> 100 \<and> find_candidate a s = Some c \<and>
     s' = deposit_event (CandidateCommissionSet a com)
            (modify_candidate a (\<lambda>c. c\<lparr>commission := com, last_updated := block_number s\<rparr>) s)"
  by (auto simp: set_commission_of_candidate_def split: sum.splits option.splits if_splits)

lemma stake_candidate_ok:
  "stake_candidate cfg org cand amount s = (Inr u, s') \<Longrightarrow>
   \<exists>a c m ds. org = System (Signed a) \<and> a \<noteq> cand \<and> find_candidate cand s = Some c \<and>
     reserve (currency cfg) (bank s) a amount = Inr m \<and>
     add_delegation (max_delegations cfg) a amount (delegations s cand) = Some ds \<and>
     s' = deposit_event (DelegationAdded a cand amount) (sort_proposed_candidates
            (modify_candidate cand
              (\<lambda>c. c\<lparr>total_stake := total_of (Some ds), last_updated := block_number s\<rparr>)
              (s\<lparr>bank := m, delegations := (delegations s)(cand := Some ds)\<rparr>)))"
  by (auto simp: stake_candidate_def Let_def list_ex_who recompute_total_stake_def
      split: sum.splits option.splits if_splits)

lemma take_delegation_Inr:
  "take_delegation a maybe = Inr (amount, rest) \<Longrightarrow>
   \<exists>ds i. maybe = Some ds \<and> position (\<lambda>d. delegator d = a) ds = Some i \<and>
     amount = stake (ds ! i) \<and>
     rest = (if remove_at i ds = [] then None else Some (remove_at i ds))"
  by (auto simp: take_delegation_def Let_def split: option.splits if_splits)

lemma unstake_candidate_ok:
  "unstake_candidate cfg org cand s = (Inr u, s') \<Longrightarrow>
   \<exists>a c amount rest. org = System (Signed a) \<and> find_candidate cand s = Some c \<and>
     take_delegation a (delegations s cand) = Inr (amount, rest) \<and>
     s' = deposit_event (DelegationRevoked a cand) (sort_proposed_candidates
            (modify_candidate cand
              (\<lambda>c. c\<lparr>total_stake := total_of rest, last_updated := block_number s\<rparr>)
              (s\<lparr>delegations := (delegations s)(cand := rest),
                 bank := snd (unreserve (currency cfg) (bank s) a amount)\<rparr>)))"
  by (auto simp: unstake_candidate_def Let_def recompute_total_stake_def find_candidate_def
      split: sum.splits option.splits prod.splits)

lemma offline_candidate_ok:
  "offline_candidate cfg org s = (Inr u, s') \<Longrightarrow>
   \<exists>a c. org = System (Signed a) \<and> find_candidate a s = Some c \<and>
     s' = deposit_event (CandidateWentOffline a) (sort_proposed_candidates
            (modify_candidate a (\<lambda>c. c\<lparr>offline := True, last_updated := block_number s\<rparr>) s))"
  by (auto simp: offline_candidate_def set_offline_def split: sum.splits option.splits)

lemma online_candidate_ok:
  "online_candidate cfg org s = (Inr u, s') \<Longrightarrow>
   \<exists>a c. org = System (Signed a) \<and> find_candidate a s = Some c \<and>
     s' = deposit_event (CandidateWentOnline a) (sort_proposed_candidates
            (modify_candidate a (\<lambda>c. c\<lparr>offline := False, last_updated := block_number s\<rparr>) s))"
  by (auto simp: online_candidate_def set_offline_def split: sum.splits option.splits)

text \<open>The final \<open>remove_from_waiting\<close> of \<open>leave_candidate\<close> never finds anything: the
  caller has just been checked not to be in the list.\<close>

lemma leave_candidate_ok:
  "leave_candidate cfg org s = (Inr u, s') \<Longrightarrow>
   \<exists>a c. org = System (Signed a) \<and> find_candidate a s = Some c \<and> offline c \<and>
     ensure_out_of_pipeline cfg a s = Inr () \<and>
     s' = deposit_event (CandidateLeft a)
            (modify_candidate a (\<lambda>c. c\<lparr>leaving := True, last_updated := block_number s\<rparr>) s)"
  by (auto simp: leave_candidate_def ensure_out_of_pipeline_Inr remove_from_waiting_absent
      split: sum.splits option.splits if_splits)

lemma bond_correction_ok:
  "bond_correction cfg org b s = (Inr u, s') \<Longrightarrow>
   \<exists>a c. org = System (Signed a) \<and> find_candidate a s = Some c \<and> offline c \<and>
     ensure_out_of_pipeline cfg a s = Inr () \<and>
     s' = deposit_event (CandidateBondCorrected a)
            (modify_candidate a (\<lambda>c. c\<lparr>bond := 0, last_updated := block_number s\<rparr>)
              (s\<lparr>bank := snd (unreserve (currency cfg) (bank s) a b)\<rparr>))"
  by (auto simp: bond_correction_def split: sum.splits option.splits if_splits)

lemmas call_ok = register_candidate_ok bond_candidate_ok set_commission_ok stake_candidate_ok
  unstake_candidate_ok offline_candidate_ok online_candidate_ok leave_candidate_ok
  bond_correction_ok

text \<open>All a successful staking call does to the bank is at most one reserve or one unreserve on
  the caller's account.\<close>

lemma call_bank:
  assumes "call_body cfg org call s = (Inr u, t)"
  shows "\<exists>a. org = System (Signed a) \<and>
    (bank t = bank s \<or> (\<exists>v. reserve (currency cfg) (bank s) a v = Inr (bank t)) \<or>
     (\<exists>v. bank t = snd (unreserve (currency cfg) (bank s) a v)))"
proof (cases call)
  case RegisterCandidate
  with assms show ?thesis by (auto dest: register_candidate_ok)
next
  case (BondCandidate b)
  with assms have "bond_candidate cfg org b s = (Inr u, t)" by simp
  from bond_candidate_ok [OF this] show ?thesis
    by (auto simp: adjust_reserve_def Let_def split: if_splits sum.splits)
next
  case (StakeCandidate cand amount)
  with assms have "stake_candidate cfg org cand amount s = (Inr u, t)" by simp
  from stake_candidate_ok [OF this] show ?thesis by auto
next
  case (UnstakeCandidate cand)
  with assms have "unstake_candidate cfg org cand s = (Inr u, t)" by simp
  from unstake_candidate_ok [OF this] show ?thesis by auto
next
  case (BondCorrection b)
  with assms have "bond_correction cfg org b s = (Inr u, t)" by simp
  from bond_correction_ok [OF this] show ?thesis by auto
qed (use assms in \<open>auto dest: set_commission_ok offline_candidate_ok online_candidate_ok leave_candidate_ok\<close>)

section \<open>The bank behind the pallet\<close>

text \<open>The pallet over a lawful currency: what its own arithmetic adds to the contract.\<close>

locale staking_bank =
  fixes cfg :: "'c staking_config"
  assumes bank_law: "reservable_currency (currency cfg)"

sublocale staking_bank \<subseteq> reservable_currency "currency cfg"
  by (rule bank_law)

context staking_bank
begin

lemma adjust_reserve_at:
  assumes "adjust_reserve cfg a old new m = Inr m'"
  shows "unat (reserved_balance (currency cfg) m' b) =
    unat (reserved_balance (currency cfg) m b) +
      (if b = a then unat new - unat old else 0) - (if b = a then unat old - unat new else 0)"
  using assms
  by (auto simp: adjust_reserve_def Let_def reserve_reserved_at unreserve_reserved_at
      unat_sat_sub word_less_nat_alt split: if_splits sum.splits)

lemma adjust_reserve_other:
  assumes "adjust_reserve cfg a old new m = Inr m'" "b \<noteq> a"
  shows "reserved_balance (currency cfg) m' b = reserved_balance (currency cfg) m b"
  using adjust_reserve_at [OF assms(1), of b] assms(2) by (simp add: word_unat_eq_iff [where ?'a = 128])

end

interpretation demo: staking_bank demo_config
  by (rule staking_bank.intro) (simp add: ledger.reservable_currency_axioms)

section \<open>Error behaviour\<close>

text \<open>Check before write. Every dispatchable but \<open>stake_candidate\<close> and
  \<open>unstake_candidate\<close> leaves the storage untouched when it returns an error, even without
  the storage layer around it.\<close>

theorem call_error_writes_nothing:
  assumes "call_body cfg org call s = (Inl e, t)"
    and "call \<notin> range (\<lambda>(cand, n). StakeCandidate cand n) \<union> range UnstakeCandidate"
  shows "t = s"
proof (cases call)
  case (StakeCandidate cand n)
  with assms(2) show ?thesis by (auto simp: image_iff)
qed (use assms in \<open>auto simp: handler_defs Let_def
      split: sum.splits if_splits option.splits\<close>)

theorem call_error_writes_nothing_witness:
  "call_body demo_config (System (Signed 2)) OfflineCandidate (demo_chain [1] []) =
     (Inl (PalletError CandidateNotFound), demo_chain [1] [])"
proof -
  obtain t where t: "call_body demo_config (System (Signed 2)) OfflineCandidate (demo_chain [1] []) =
      (Inl (PalletError CandidateNotFound), t)"
    by (simp add: offline_candidate_def set_offline_def find_candidate_def demo_simps)
  have "OfflineCandidate \<notin> range (\<lambda>(cand, n). StakeCandidate cand n) \<union> range UnstakeCandidate"
    by (simp add: image_iff split_beta)
  from call_error_writes_nothing [OF t this] have "t = demo_chain [1] []" .
  with t show ?thesis by simp
qed

text \<open>\<open>stake_candidate\<close> on a candidate with a full delegation vector has already
  reserved the caller's money when it fails; only the storage layer of the dispatch gives
  it back.\<close>

theorem stake_failure_needs_layer:
  assumes "stake_candidate cfg org cand amount s = (Inl (PalletError DelegationsMaxExceeded), t)"
  shows "\<exists>a m. org = System (Signed a) \<and> reserve (currency cfg) (bank s) a amount = Inr m \<and>
           t = s\<lparr>bank := m\<rparr> \<and>
           dispatch cfg org (StakeCandidate cand amount) s =
             (Inl (PalletError DelegationsMaxExceeded), s)"
proof -
  have "dispatch cfg org (StakeCandidate cand amount) s =
      (Inl (PalletError DelegationsMaxExceeded), s)"
    using assms by (simp add: dispatch_def with_storage_layer_Inl)
  moreover have "\<exists>a m. org = System (Signed a) \<and> reserve (currency cfg) (bank s) a amount = Inr m \<and>
      t = s\<lparr>bank := m\<rparr>"
    using assms
    by (auto simp: stake_candidate_def Let_def recompute_total_stake_def
        split: sum.splits if_splits option.splits elim!: ensure_signed.elims)
  ultimately show ?thesis by blast
qed

theorem stake_failure_needs_layer_witness:
  "\<exists>t. stake_candidate (demo_config\<lparr>max_delegations := 1\<rparr>) (System (Signed 4)) 2 70
        ((demo_chain [1] [demo_candidate 2 0])
          \<lparr>delegations := (\<lambda>_. None)(2 := Some [\<lparr>delegator = 3, stake = 5\<rparr>])\<rparr>) =
      (Inl (PalletError DelegationsMaxExceeded), t) \<and>
      l_reserved (bank t) 4 = 70"
proof -
  let ?cfg = "demo_config\<lparr>max_delegations := 1\<rparr>"
  let ?s = "(demo_chain [1] [demo_candidate 2 0])
    \<lparr>delegations := (\<lambda>_. None)(2 := Some [\<lparr>delegator = 3, stake = 5\<rparr>])\<rparr>"
  have r: "stake_candidate ?cfg (System (Signed 4)) 2 70 ?s =
      (Inl (PalletError DelegationsMaxExceeded),
       snd (stake_candidate ?cfg (System (Signed 4)) 2 70 ?s))"
    by (simp add: stake_candidate_def demo_simps ledger_reserve_def add_delegation_def try_push_def Let_def)
  from stake_failure_needs_layer [OF r] obtain m where
    m: "reserve (currency ?cfg) (bank ?s) 4 70 = Inr m"
      "snd (stake_candidate ?cfg (System (Signed 4)) 2 70 ?s) = ?s\<lparr>bank := m\<rparr>"
    by auto
  from m(1) have "l_reserved m 4 = 70"
    by (auto simp: ledger_reserve_def demo_simps split: if_splits)
  with r m(2) show ?thesis by (intro exI [of _ "?s\<lparr>bank := m\<rparr>"]) simp
qed

text \<open>Registration succeeds exactly for a signed caller who is not registered yet while
  there is room, and appends one unbonded, online entry.\<close>

theorem register_candidate_exact:
  "register_candidate cfg org s = (Inr (), t) \<longleftrightarrow>
   (\<exists>a. org = System (Signed a) \<and> a \<notin> who ` set (proposed_candidates s) \<and>
     length (proposed_candidates s) < unat (max_candidates cfg) \<and>
     t = s\<lparr>proposed_candidates := proposed_candidates s @
           [\<lparr>who = a, bond = 0, total_stake = 0, last_updated = block_number s,
             last_authored = block_number s, leaving = False, offline = False,
             commission = 0, status = Online\<rparr>],
           events := events s @ [CandidateRegistered a]\<rparr>)"
  by (auto simp: register_candidate_def Let_def list_ex_iff deposit_event_def
      split: sum.splits if_splits option.splits)

theorem register_candidate_exact_witness:
  "\<exists>t. register_candidate demo_config (System (Signed 2)) (demo_chain [1] []) = (Inr (), t) \<and>
      proposed_candidates t = [demo_candidate 2 0]"
proof -
  let ?t = "(demo_chain [1] [demo_candidate 2 0])\<lparr>events := [CandidateRegistered 2]\<rparr>"
  have "register_candidate demo_config (System (Signed 2)) (demo_chain [1] []) = (Inr (), ?t)"
    unfolding register_candidate_exact by (simp add: demo_simps)
  then show ?thesis by (intro exI [of _ ?t]) (simp add: demo_simps)
qed

text \<open>C18: nobody in the validator pipeline can withdraw his bond or leave: while an account
  is in the waiting list, queued, or a current validator, a zero bond, \<open>leave_candidate\<close>
  and \<open>bond_correction\<close> are refused with a pallet error and nothing is written.\<close>

theorem pipeline_members_cannot_exit:
  assumes codec: "lawful_codec cfg"
    and member: "a \<in> set (waiting_candidates s) \<union> set (invulnerables s) \<union> set (validators s)"
    and call: "call \<in> {BondCandidate 0, LeaveCandidate} \<union> range BondCorrection"
  shows "\<exists>e. dispatch cfg (System (Signed a)) call s = (Inl (PalletError e), s)"
proof -
  have "\<exists>e. ensure_out_of_pipeline cfg a s = Inl (PalletError e)"
    using codec member by (auto simp: ensure_out_of_pipeline_def)
  with call show ?thesis
    by (auto simp: dispatch_def with_storage_layer_Inl bond_candidate_def ensure_bond_allowed_def
        leave_candidate_def bond_correction_def split: option.splits)
qed

theorem pipeline_members_cannot_exit_witness:
  "\<exists>e. dispatch demo_config (System (Signed 1)) LeaveCandidate
        (demo_chain [1] [(demo_candidate 1 0)\<lparr>offline := True\<rparr>]) =
      (Inl (PalletError e), demo_chain [1] [(demo_candidate 1 0)\<lparr>offline := True\<rparr>])"
  by (rule pipeline_members_cannot_exit) (simp_all add: demo_simps)

text \<open>After any successful call that changes a stake, a bond or the online flag through
  a sorting dispatchable, the stored candidates are in rank order again.\<close>

theorem ranking_restored:
  assumes "dispatch cfg org call s = (Inr (), t)"
    and "call \<in> range BondCandidate \<union> range (\<lambda>(cand, n). StakeCandidate cand n) \<union>
           range UnstakeCandidate \<union> {OfflineCandidate, OnlineCandidate}"
  shows "ranked (proposed_candidates t)"
  using assms by (auto dest!: call_ok)

theorem ranking_restored_witness:
  "\<exists>t. dispatch demo_config (System (Signed 2)) OfflineCandidate
        (demo_chain [1] [demo_candidate 2 0, demo_candidate 3 0]) = (Inr (), t) \<and>
      ranked (proposed_candidates t)"
proof -
  obtain t where t: "dispatch demo_config (System (Signed 2)) OfflineCandidate
      (demo_chain [1] [demo_candidate 2 0, demo_candidate 3 0]) = (Inr (), t)"
    by (simp add: offline_candidate_def set_offline_def find_candidate_def demo_simps)
  from ranking_restored [OF t] t show ?thesis by auto
qed

text \<open>A candidate who sets a bond ends up with exactly that bond recorded and, if his
  old bond was reserved, with his reserve changed by exactly the difference; nobody else's
  reserve moves.\<close>

theorem bond_candidate_reserve:
  assumes law: "reservable_currency (currency cfg)"
    and ok: "dispatch cfg (System (Signed a)) (BondCandidate b) s = (Inr (), t)"
    and old: "find_candidate a s = Some c"
    and held: "bond c \<le> reserved_balance (currency cfg) (bank s) a"
  shows "(\<exists>c'. c' \<in> set (proposed_candidates t) \<and> who c' = a \<and> bond c' = b) \<and>
         unat (reserved_balance (currency cfg) (bank t) a) + unat (bond c) =
           unat (reserved_balance (currency cfg) (bank s) a) + unat b \<and>
         (\<forall>x. x \<noteq> a \<longrightarrow> reserved_balance (currency cfg) (bank t) x =
                          reserved_balance (currency cfg) (bank s) x)"
proof -
  have bank: "staking_bank cfg" using law by (rule staking_bank.intro)
  from ok old obtain m where
    m: "adjust_reserve cfg a (bond c) b (bank s) = Inr m" "bank t = m"
    and t: "proposed_candidates t = sort_candidates (update_first (\<lambda>c. who c = a)
        (\<lambda>c. c\<lparr>bond := b, last_updated := block_number s\<rparr>) (proposed_candidates s))"
    by (auto dest!: bond_candidate_ok)
  have "c\<lparr>bond := b, last_updated := block_number s\<rparr> \<in> set (proposed_candidates t)"
    using old update_first_mem
      [where f = "\<lambda>c. c\<lparr>bond := b, last_updated := block_number s\<rparr>"]
    by (simp add: t find_candidate_def)
  moreover have "who c = a" using find_candidate_Some [OF old] by simp
  ultimately show ?thesis
    using staking_bank.adjust_reserve_at [OF bank m(1), of a]
      staking_bank.adjust_reserve_other [OF bank m(1)] held m(2)
    by (auto simp: word_le_nat_alt intro!: exI [of _ "c\<lparr>bond := b, last_updated := block_number s\<rparr>"])
qed

theorem bond_candidate_reserve_witness:
  "\<exists>t. dispatch demo_config (System (Signed 2)) (BondCandidate 200000000000000)
        (demo_chain [1] [demo_candidate 2 0]) = (Inr (), t) \<and>
      unat (l_reserved (bank t) 2) = 200000000000000"
proof -
  let ?s = "demo_chain [1] [demo_candidate 2 0]"
  obtain t where t: "dispatch demo_config (System (Signed 2)) (BondCandidate 200000000000000) ?s = (Inr (), t)"
    by (simp add: bond_candidate_def ensure_bond_allowed_def adjust_reserve_def find_candidate_def
        demo_simps ledger_reserve_def sat_sub_def Let_def)
  have "find_candidate 2 ?s = Some (demo_candidate 2 0)"
    by (simp add: find_candidate_def demo_simps)
  from bond_candidate_reserve [OF demo.bank_law t this] t show ?thesis
    by (auto simp: demo_simps)
qed

end
