(* ===== verification/Staking_Session.thy ===== *)
theory Staking_Session
  imports Staking_State
begin

text \<open>
  The hooks through which the rest of the runtime drives \<open>pallet-xode-staking\<close>:
  \<open>on_initialize\<close> (author bookkeeping) and the \<open>SessionManager\<close> implementation that
  \<open>pallet_session\<close> calls at every session boundary. The loops over a snapshot of the
  candidates are kept as folds over that snapshot; the lemmas replace each by a
  declarative description (a map, a filter) under the invariant that candidates are
  registered once.
\<close>

section \<open>The hooks\<close>

text \<open>\<open>author\<close> is the result of \<open>pallet_authorship::Pallet::author()\<close>.\<close>

definition on_initialize ::
    "'c staking_config \<Rightarrow> account_id option \<Rightarrow> 'c chain \<Rightarrow> 'c chain" where
  [hook_defs]: "on_initialize cfg author s =
     (case author of
        None \<Rightarrow> s
      | Some a \<Rightarrow> add_actual_author cfg a (record_authored_block a s))"

definition queue_authors :: "'c chain \<Rightarrow> staking_failure + 'c chain" where
  [hook_defs]: "queue_authors s =
     (let waiting = waiting_candidates s in
      if waiting = [] then Inl (PalletError WaitingCandidatesEmpty)
      else Inr (s\<lparr>proposed_candidates :=
                    map (\<lambda>c. if status c = Waiting \<and> who c \<in> set waiting
                             then c\<lparr>status := Queuing\<rparr> else c) (proposed_candidates s),
                  invulnerables := waiting\<rparr>))"

text \<open>The test and the writes of the loop body of \<open>slash_stale_authors\<close>.\<close>

definition is_stale :: "account_id list \<Rightarrow> block_number \<Rightarrow> block_number \<Rightarrow> candidate_info \<Rightarrow> bool" where
  "is_stale stale now period c \<longleftrightarrow>
     who c \<in> set stale \<and> period < sat_sub now (last_authored c)"

definition marked :: "block_number \<Rightarrow> (candidate_info \<Rightarrow> bool) \<Rightarrow> candidate_info \<Rightarrow> candidate_info" where
  "marked now hit c = (if hit c then c\<lparr>offline := True, last_updated := now\<rparr> else c)"

definition slash_stale_authors :: "'c staking_config \<Rightarrow> 'c chain \<Rightarrow> 'c chain option" where
  [hook_defs]: "slash_stale_authors cfg s =
     (case current_validators cfg s of
        None \<Rightarrow> None
      | Some vs \<Rightarrow>
         let now = block_number s;
             stale = filter (\<lambda>v. v \<notin> set (actual_authors s) \<and> v \<notin> set (desired_candidates s)) vs;
             hit = is_stale stale now (max_staling_period cfg);
             s1 = (if stale \<noteq> [] then
                     let changed = list_ex hit (proposed_candidates s);
                         t = s\<lparr>proposed_candidates :=
                                map (marked now hit) (proposed_candidates s)\<rparr>
                     in if changed then sort_proposed_candidates t else t
                   else s)
         in Some (s1\<lparr>actual_authors := []\<rparr>))"

definition retain_others :: "account_id \<Rightarrow> 'c chain \<Rightarrow> 'c chain" where
  "retain_others a s =
     s\<lparr>proposed_candidates := filter (\<lambda>x. who x \<noteq> a) (proposed_candidates s)\<rparr>"

text \<open>Whether \<open>prepare_next_waiting_list\<close> acts on a candidate, and what it does with him.\<close>

definition dropping :: "candidate_info \<Rightarrow> bool" where
  "dropping c \<longleftrightarrow> offline c \<or> leaving c \<or> bond c = 0"

definition prepare_candidate :: "candidate_info \<Rightarrow> 'c chain \<Rightarrow> 'c chain" where
  "prepare_candidate c s =
     (if dropping c then
        (case status c of
           Online \<Rightarrow> retain_others (who c) s
         | Offline \<Rightarrow> retain_others (who c) s
         | Waiting \<Rightarrow> retain_others (who c) (remove_from_waiting (who c) s)
         | Queuing \<Rightarrow> set_status (who c) Waiting s
         | Authoring \<Rightarrow> set_status (who c) Queuing s)
      else s)"

definition prepare_next_waiting_list :: "'c chain \<Rightarrow> 'c chain" where
  [hook_defs]: "prepare_next_waiting_list s = fold prepare_candidate (proposed_candidates s) s"

text \<open>The two loops of \<open>refresh_waiting_list\<close>, with their \<open>break\<close>s.\<close>

fun push_desired :: "u32 \<Rightarrow> account_id list \<Rightarrow> account_id list \<Rightarrow> account_id list" where
  "push_desired bound waiting [] = waiting"
| "push_desired bound waiting (a # as) =
     (case try_push bound a waiting of
        None \<Rightarrow> waiting
      | Some w \<Rightarrow> push_desired bound w as)"

definition eligible :: "candidate_info \<Rightarrow> bool" where
  "eligible c \<longleftrightarrow> bond c \<noteq> 0 \<and> \<not> leaving c \<and> \<not> offline c"

fun push_proposed ::
    "u32 \<Rightarrow> account_id list \<Rightarrow> candidate_info list \<Rightarrow> 'c chain \<Rightarrow> account_id list \<times> 'c chain" where
  "push_proposed bound waiting [] s = (waiting, s)"
| "push_proposed bound waiting (c # cs) s =
     (if unat bound \<le> length waiting then (waiting, s)
      else if who c \<notin> set waiting \<and> eligible c then
        (case try_push bound (who c) waiting of
           None \<Rightarrow> (waiting, s)
         | Some w \<Rightarrow>
             push_proposed bound w cs (if status c = Online then set_status (who c) Waiting s else s))
      else push_proposed bound waiting cs s)"

definition refresh_waiting_list :: "'c staking_config \<Rightarrow> 'c chain \<Rightarrow> 'c chain" where
  [hook_defs]: "refresh_waiting_list cfg s =
     (case push_proposed (max_candidates cfg)
             (push_desired (max_candidates cfg) [] (desired_candidates s))
             (proposed_candidates s) s of
        (waiting, s1) \<Rightarrow> s1\<lparr>waiting_candidates := waiting\<rparr>)"

definition new_session :: "'c chain \<Rightarrow> account_id list option \<times> 'c chain" where
  [hook_defs]: "new_session s =
     (let authors = invulnerables s in
      (Some authors, fold (\<lambda>a. set_status a Authoring) authors s))"

definition start_session :: "'c chain \<Rightarrow> 'c chain" where
  "start_session s = s"

text \<open>\<open>None\<close>: the \<open>expect\<close> in \<open>validator_to_account\<close> panicked.\<close>

definition end_session :: "'c staking_config \<Rightarrow> 'c chain \<Rightarrow> 'c chain option" where
  "end_session cfg s =
     (let s1 = (case queue_authors s of Inl _ \<Rightarrow> s | Inr t \<Rightarrow> t) in
      case slash_stale_authors cfg s1 of
        None \<Rightarrow> None
      | Some s2 \<Rightarrow> Some (refresh_waiting_list cfg (prepare_next_waiting_list s2)))"

text \<open>\<open>EventHandler::note_author\<close> pays nobody yet.\<close>

definition note_author :: "account_id \<Rightarrow> 'c chain \<Rightarrow> 'c chain" where
  "note_author a s = s"

section \<open>What the hooks leave alone\<close>

text \<open>Storage no hook writes. Agreement on it is an equivalence the folds preserve.\<close>

definition same_outside :: "'c chain \<Rightarrow> 'c chain \<Rightarrow> bool" where
  "same_outside s t \<longleftrightarrow>
     desired_candidates t = desired_candidates s \<and> delegations t = delegations s \<and>
     validators t = validators s \<and> block_number t = block_number s \<and>
     bank t = bank s \<and> events t = events s"

lemma same_outside_refl [simp]: "same_outside s s"
  by (simp add: same_outside_def)

lemma same_outside_trans [trans]:
  "same_outside s t \<Longrightarrow> same_outside t u \<Longrightarrow> same_outside s u"
  by (simp add: same_outside_def)

lemma same_outside_fold:
  "(\<And>x t. same_outside t (f x t)) \<Longrightarrow> same_outside s (fold f xs s)"
proof (induction xs arbitrary: s)
  case Nil
  then show ?case by simp
next
  case (Cons x xs)
  from Cons.IH [of "f x s"] Cons.prems show ?case
    by (auto intro: same_outside_trans)
qed

lemma set_status_outside [simp]: "same_outside s (set_status a st s)"
  by (simp add: same_outside_def)

lemma prepare_candidate_outside: "same_outside s (prepare_candidate c s)"
  by (simp add: prepare_candidate_def same_outside_def retain_others_def split: status.split)

lemma prepare_next_waiting_list_outside: "same_outside s (prepare_next_waiting_list s)"
  unfolding prepare_next_waiting_list_def
  by (rule same_outside_fold) (rule prepare_candidate_outside)

lemma push_proposed_outside: "same_outside s (snd (push_proposed b w cs s))"
proof (induction b w cs s rule: push_proposed.induct)
  case (2 bound waiting c cs s)
  have "same_outside s (if status c = Online then set_status (who c) Waiting s else s)"
    by simp
  with 2 show ?case
    by (auto split: option.split dest: same_outside_trans)
qed simp

lemma refresh_waiting_list_outside: "same_outside s (refresh_waiting_list cfg s)"
  using push_proposed_outside [of s "max_candidates cfg"
      "push_desired (max_candidates cfg) [] (desired_candidates s)" "proposed_candidates s"]
  by (simp add: refresh_waiting_list_def same_outside_def split_beta)

lemma queue_authors_outside: "queue_authors s = Inr t \<Longrightarrow> same_outside s t"
  by (auto simp: queue_authors_def Let_def same_outside_def split: if_splits)

lemma slash_stale_authors_outside: "slash_stale_authors cfg s = Some t \<Longrightarrow> same_outside s t"
  by (auto simp: slash_stale_authors_def Let_def same_outside_def split: option.splits if_splits)

lemma end_session_outside:
  assumes "end_session cfg s = Some t"
  shows "same_outside s t"
proof -
  define s1 where "s1 = (case queue_authors s of Inl _ \<Rightarrow> s | Inr t \<Rightarrow> t)"
  from assms obtain s2 where s2: "slash_stale_authors cfg s1 = Some s2"
    and t: "t = refresh_waiting_list cfg (prepare_next_waiting_list s2)"
    by (auto simp: end_session_def s1_def split: option.splits)
  have "same_outside s s1"
    by (auto simp: s1_def split: sum.splits dest: queue_authors_outside)
  also have "same_outside s1 s2"
    using s2 by (rule slash_stale_authors_outside)
  also have "same_outside s2 (prepare_next_waiting_list s2)"
    by (rule prepare_next_waiting_list_outside)
  also have "same_outside (prepare_next_waiting_list s2) t"
    unfolding t by (rule refresh_waiting_list_outside)
  finally show ?thesis .
qed

lemma new_session_outside: "same_outside s (snd (new_session s))"
  by (auto simp: new_session_def Let_def intro: same_outside_fold)

lemma on_initialize_outside: "same_outside s (on_initialize cfg author s)"
  by (auto simp: on_initialize_def add_actual_author_def record_authored_block_def
      same_outside_def split: option.splits)

section \<open>Declarative descriptions of the loops\<close>

abbreviation registered_once :: "'c chain \<Rightarrow> bool" where
  "registered_once s \<equiv> distinct (map who (proposed_candidates s))"

subsection \<open>Dropping and demoting\<close>

text \<open>What one pass of \<open>prepare_next_waiting_list\<close> makes of a candidate: \<open>None\<close> when he
  is removed.\<close>

definition prepared :: "candidate_info \<Rightarrow> candidate_info option" where
  "prepared c =
     (if dropping c then
        (case status c of
           Queuing \<Rightarrow> Some (c\<lparr>status := Waiting\<rparr>)
         | Authoring \<Rightarrow> Some (c\<lparr>status := Queuing\<rparr>)
         | _ \<Rightarrow> None)
      else Some c)"

lemma prepared_who: "prepared c = Some d \<Longrightarrow> who d = who c"
  by (auto simp: prepared_def split: if_splits status.splits)

text \<open>One loop iteration, with the candidates already treated to the left.\<close>

lemma set_status_split:
  assumes "proposed_candidates s = done @ c # cs" and "distinct (map who (done @ c # cs))"
  shows "proposed_candidates (set_status (who c) st s) = done @ c\<lparr>status := st\<rparr> # cs"
  using assms by (auto simp: set_status_def update_first_append image_iff)

lemma retain_others_split:
  assumes "proposed_candidates s = done @ c # cs" and "distinct (map who (done @ c # cs))"
  shows "proposed_candidates (retain_others (who c) s) = done @ cs"
proof -
  have "filter (\<lambda>x. who x \<noteq> who c) done = done" "filter (\<lambda>x. who x \<noteq> who c) cs = cs"
    using assms(2) by (auto simp: filter_id_conv image_iff)
  with assms(1) show ?thesis by (simp add: retain_others_def)
qed

lemma prepare_candidate_split:
  assumes "proposed_candidates s = done @ c # cs" and "distinct (map who (done @ c # cs))"
  shows "proposed_candidates (prepare_candidate c s) =
           done @ (case prepared c of None \<Rightarrow> [] | Some d \<Rightarrow> [d]) @ cs"
proof -
  have "proposed_candidates (remove_from_waiting (who c) s) = done @ c # cs"
    using assms(1) by simp
  with assms show ?thesis
    by (simp add: prepare_candidate_def prepared_def set_status_split retain_others_split
        split: status.split)
qed

lemma prepare_fold_proposed:
  "proposed_candidates s = done @ cs \<Longrightarrow> distinct (map who (done @ cs)) \<Longrightarrow>
   proposed_candidates (fold prepare_candidate cs s) = done @ List.map_filter prepared cs"
proof (induction cs arbitrary: s "done")
  case Nil
  then show ?case by simp
next
  case (Cons c cs)
  define d' where "d' = done @ (case prepared c of None \<Rightarrow> [] | Some d \<Rightarrow> [d])"
  have "proposed_candidates (prepare_candidate c s) = d' @ cs"
    using prepare_candidate_split [OF Cons.prems] by (simp add: d'_def)
  moreover have "distinct (map who (d' @ cs))"
    using Cons.prems(2) by (auto simp: d'_def prepared_who split: option.split)
  ultimately have "proposed_candidates (fold prepare_candidate cs (prepare_candidate c s)) =
      d' @ List.map_filter prepared cs"
    by (rule Cons.IH)
  then show ?case
    by (simp add: d'_def map_filter_simps split: option.split)
qed

lemma prepare_proposed:
  "registered_once s \<Longrightarrow>
   proposed_candidates (prepare_next_waiting_list s) =
     List.map_filter prepared (proposed_candidates s)"
  using prepare_fold_proposed [of s "[]" "proposed_candidates s"]
  by (simp add: prepare_next_waiting_list_def)

lemma prepare_candidate_other [simp]:
  "invulnerables (prepare_candidate c s) = invulnerables s"
  "actual_authors (prepare_candidate c s) = actual_authors s"
  by (simp_all add: prepare_candidate_def retain_others_def split: status.split)

lemma prepare_other [simp]:
  "invulnerables (prepare_next_waiting_list s) = invulnerables s"
  "actual_authors (prepare_next_waiting_list s) = actual_authors s"
proof -
  have "invulnerables (fold prepare_candidate cs s) = invulnerables s \<and>
        actual_authors (fold prepare_candidate cs s) = actual_authors s" for cs
    by (induction cs arbitrary: s) simp_all
  then show "invulnerables (prepare_next_waiting_list s) = invulnerables s"
    "actual_authors (prepare_next_waiting_list s) = actual_authors s"
    by (simp_all add: prepare_next_waiting_list_def)
qed

subsection \<open>The waiting list\<close>

lemma push_desired_take:
  "length w \<le> unat b \<Longrightarrow> push_desired b w as = w @ take (unat b - length w) as"
proof (induction as arbitrary: w)
  case Nil
  then show ?case by simp
next
  case (Cons a as)
  show ?case
  proof (cases "length w < unat b")
    case True
    then have "push_desired b w (a # as) = push_desired b (w @ [a]) as"
      by (simp add: try_push_def)
    also have "\<dots> = (w @ [a]) @ take (unat b - length (w @ [a])) as"
      using True by (intro Cons.IH) simp
    finally show ?thesis
      using True by (simp add: take_Cons' Suc_diff_Suc)
  next
    case False
    with Cons.prems show ?thesis by (simp add: try_push_def)
  qed
qed

text \<open>The candidates the second loop takes, in order, and what happens to their status.\<close>

definition newcomers :: "account_id list \<Rightarrow> candidate_info list \<Rightarrow> account_id list" where
  "newcomers w cs = map who (filter (\<lambda>c. eligible c \<and> who c \<notin> set w) cs)"

definition waitlisted :: "account_id list \<Rightarrow> candidate_info \<Rightarrow> candidate_info" where
  "waitlisted new c =
     (if who c \<in> set new \<and> status c = Online then c\<lparr>status := Waiting\<rparr> else c)"

lemma waitlisted_who [simp]: "who (waitlisted new c) = who c"
  by (simp add: waitlisted_def)

lemma newcomers_fresh: "a \<notin> who ` set cs \<Longrightarrow> newcomers (w @ [a]) cs = newcomers w cs"
  unfolding newcomers_def by (intro arg_cong [where f = "map who"] filter_cong) auto

lemma set_newcomers_subset: "set (newcomers w cs) \<subseteq> who ` set cs"
  by (auto simp: newcomers_def)

lemma map_waitlisted_fresh:
  "who ` set cs \<inter> set new = {} \<Longrightarrow> map (waitlisted new) cs = cs"
  by (rule map_idI) (auto simp: waitlisted_def)

lemma map_waitlisted_Cons:
  "a \<notin> who ` set cs \<Longrightarrow> map (waitlisted (a # new)) cs = map (waitlisted new) cs"
  by (rule map_cong) (auto simp: waitlisted_def)

text \<open>One iteration of the second loop, taking or skipping its candidate.\<close>

lemma newcomers_pick:
  assumes "eligible c" "who c \<notin> set w" "length w < n" "who c \<notin> who ` set cs"
  shows "take (n - length w) (newcomers w (c # cs)) =
    who c # take (n - length (w @ [who c])) (newcomers (w @ [who c]) cs)"
  using assms by (simp add: newcomers_fresh) (simp add: newcomers_def take_Cons' Suc_diff_Suc)

lemma newcomers_skip: "\<not> (who c \<notin> set w \<and> eligible c) \<Longrightarrow> newcomers w (c # cs) = newcomers w cs"
  by (auto simp: newcomers_def)

lemma waitlisted_pick:
  "who c \<notin> who ` set cs \<Longrightarrow> map (waitlisted (who c # new)) (c # cs) =
   (if status c = Online then c\<lparr>status := Waiting\<rparr> else c) # map (waitlisted new) cs"
  by (simp add: map_waitlisted_Cons) (simp add: waitlisted_def)

lemma waitlisted_skip:
  assumes "who c \<notin> who ` set cs"
  shows "waitlisted (take k (newcomers w cs)) c = c"
  using assms set_newcomers_subset [of w cs] by (auto simp: waitlisted_def dest: in_set_takeD)

lemma set_status_pick:
  assumes "proposed_candidates s = done @ c # cs" and "distinct (map who (done @ c # cs))"
  shows "(if status c = Online then set_status (who c) Waiting s else s) =
    s\<lparr>proposed_candidates :=
        (done @ [if status c = Online then c\<lparr>status := Waiting\<rparr> else c]) @ cs\<rparr>"
  using set_status_split [OF assms, of Waiting] assms(1)
  by (auto simp: set_status_def modify_candidate_def)

lemma push_proposed_spec:
  assumes "proposed_candidates s = done @ cs" and "distinct (map who (done @ cs))"
    and "length w \<le> unat b"
  shows "push_proposed b w cs s =
    (let new = take (unat b - length w) (newcomers w cs) in
     (w @ new, s\<lparr>proposed_candidates := done @ map (waitlisted new) cs\<rparr>))"
  using assms
proof (induction cs arbitrary: s "done" w)
  case Nil
  then show ?case by (simp add: newcomers_def)
next
  case (Cons c cs)
  have fresh: "who c \<notin> who ` set cs" using Cons.prems(2) by auto
  consider (full) "unat b \<le> length w"
    | (pick) "length w < unat b" "who c \<notin> set w" "eligible c"
    | (skip) "length w < unat b" "\<not> (who c \<notin> set w \<and> eligible c)" by linarith
  then show ?case
  proof cases
    case full
    with Cons.prems show ?thesis by (simp add: waitlisted_def map_idI)
  next
    case pick
    define c' where "c' = (if status c = Online then c\<lparr>status := Waiting\<rparr> else c)"
    define s' where "s' = s\<lparr>proposed_candidates := (done @ [c']) @ cs\<rparr>"
    have "push_proposed b w (c # cs) s = push_proposed b (w @ [who c]) cs s'"
      using pick set_status_pick [OF Cons.prems(1,2)] by (simp add: try_push_def s'_def c'_def)
    also have "\<dots> = (let new = take (unat b - length (w @ [who c])) (newcomers (w @ [who c]) cs) in
        ((w @ [who c]) @ new, s'\<lparr>proposed_candidates := (done @ [c']) @ map (waitlisted new) cs\<rparr>))"
      using Cons.prems(2) pick by (intro Cons.IH) (auto simp: s'_def c'_def)
    finally show ?thesis
      using newcomers_pick [OF pick(3,2,1) fresh]
      by (simp only: Let_def waitlisted_pick [OF fresh]) (simp add: s'_def c'_def)
  next
    case skip
    have "push_proposed b w (c # cs) s = push_proposed b w cs s"
      using skip by auto
    also have "\<dots> = (let new = take (unat b - length w) (newcomers w cs) in
        (w @ new, s\<lparr>proposed_candidates := (done @ [c]) @ map (waitlisted new) cs\<rparr>))"
      using Cons.prems by (intro Cons.IH) simp_all
    finally show ?thesis
      by (simp add: newcomers_skip [OF skip(2)] waitlisted_skip [OF fresh] Let_def)
  qed
qed

definition waiting_spec :: "nat \<Rightarrow> account_id list \<Rightarrow> candidate_info list \<Rightarrow> account_id list" where
  "waiting_spec n desired cs = take n (desired @ newcomers desired cs)"

lemma refresh_spec:
  fixes cfg :: "'c staking_config" and s :: "'c chain"
  assumes "registered_once s"
  defines "n \<equiv> unat (max_candidates cfg)" and "des \<equiv> desired_candidates s"
  shows "refresh_waiting_list cfg s =
    s\<lparr>waiting_candidates := waiting_spec n des (proposed_candidates s),
      proposed_candidates := map (waitlisted (take (n - length des) (newcomers des (proposed_candidates s))))
                               (proposed_candidates s)\<rparr>"
proof (cases "length des < n")
  case True
  have "push_desired (max_candidates cfg) [] des = des"
    using True by (simp add: push_desired_take n_def)
  moreover have "push_proposed (max_candidates cfg) des (proposed_candidates s) s =
    (let new = take (n - length des) (newcomers des (proposed_candidates s)) in
     (des @ new, s\<lparr>proposed_candidates := [] @ map (waitlisted new) (proposed_candidates s)\<rparr>))"
    unfolding n_def using assms(1) True by (intro push_proposed_spec) (simp_all add: n_def)
  ultimately show ?thesis
    using True by (simp add: refresh_waiting_list_def Let_def waiting_spec_def flip: des_def)
next
  case False
  have w: "push_desired (max_candidates cfg) [] des = take n des"
    by (simp add: push_desired_take n_def)
  have "push_proposed (max_candidates cfg) (take n des) (proposed_candidates s) s = (take n des, s)"
    using False by (cases "proposed_candidates s") (simp_all add: n_def)
  with w False show ?thesis
    by (simp add: refresh_waiting_list_def waiting_spec_def waitlisted_def map_idI flip: des_def)
qed

subsection \<open>Promotion, slashing and the new validator set\<close>

definition promoted :: "account_id list \<Rightarrow> candidate_info \<Rightarrow> candidate_info" where
  "promoted waiting c =
     (if status c = Waiting \<and> who c \<in> set waiting then c\<lparr>status := Queuing\<rparr> else c)"

definition slashed ::
    "block_number \<Rightarrow> (candidate_info \<Rightarrow> bool) \<Rightarrow> candidate_info list \<Rightarrow> candidate_info list" where
  "slashed now hit cs =
     (if list_ex hit cs then sort_candidates (map (marked now hit) cs) else cs)"

lemma promoted_who [simp]: "who (promoted w c) = who c"
  by (simp add: promoted_def)

lemma marked_who [simp]: "who (marked now hit c) = who c"
  by (simp add: marked_def)

lemma who_comp [simp]:
  "who \<circ> promoted w = who" "who \<circ> marked now hit = who" "who \<circ> waitlisted new = who"
  by (simp_all add: fun_eq_iff)

lemma distinct_slashed [simp]:
  "distinct (map who (slashed now hit cs)) \<longleftrightarrow> distinct (map who cs)"
  by (simp add: slashed_def)

lemma queue_authors_eq:
  "(case queue_authors s of Inl _ \<Rightarrow> s | Inr t \<Rightarrow> t) =
   s\<lparr>proposed_candidates := map (promoted (waiting_candidates s)) (proposed_candidates s),
     invulnerables := (if waiting_candidates s = [] then invulnerables s
                       else waiting_candidates s)\<rparr>"
  by (simp add: queue_authors_def Let_def promoted_def cong: map_cong)

lemma marked_none: "\<not> list_ex hit cs \<Longrightarrow> map (marked now hit) cs = cs"
  by (rule map_idI) (auto simp: marked_def list_ex_iff)

definition stale_validators :: "'c chain \<Rightarrow> account_id list \<Rightarrow> account_id list" where
  "stale_validators s vs =
     filter (\<lambda>v. v \<notin> set (actual_authors s) \<and> v \<notin> set (desired_candidates s)) vs"

definition slash_hit :: "'c staking_config \<Rightarrow> 'c chain \<Rightarrow> account_id list \<Rightarrow> candidate_info \<Rightarrow> bool" where
  "slash_hit cfg s vs = is_stale (stale_validators s vs) (block_number s) (max_staling_period cfg)"

lemma slash_stale_authors_eq:
  assumes "current_validators cfg s = Some vs"
  shows "slash_stale_authors cfg s =
    Some (s\<lparr>proposed_candidates :=
              slashed (block_number s) (slash_hit cfg s vs) (proposed_candidates s),
            actual_authors := []\<rparr>)"
proof (cases "stale_validators s vs = []")
  case True
  then have "\<not> list_ex (slash_hit cfg s vs) (proposed_candidates s)"
    by (simp add: list_ex_iff slash_hit_def is_stale_def)
  with True assms show ?thesis
    by (simp add: slash_stale_authors_def slashed_def stale_validators_def Let_def)
next
  case False
  with assms show ?thesis
    by (simp add: slash_stale_authors_def slash_hit_def stale_validators_def slashed_def
        sort_proposed_candidates_def marked_none Let_def)
qed

lemma set_status_eq:
  "registered_once s \<Longrightarrow> set_status a st s =
   s\<lparr>proposed_candidates :=
       map (\<lambda>c. if who c = a then c\<lparr>status := st\<rparr> else c) (proposed_candidates s)\<rparr>"
  by (simp add: set_status_def modify_candidate_def keyed)

lemma fold_set_status_eq:
  "registered_once s \<Longrightarrow> fold (\<lambda>a. set_status a st) as s =
   s\<lparr>proposed_candidates :=
       map (\<lambda>c. if who c \<in> set as then c\<lparr>status := st\<rparr> else c) (proposed_candidates s)\<rparr>"
proof (induction as arbitrary: s)
  case Nil
  then show ?case by simp
next
  case (Cons a as)
  have "map who (map (\<lambda>c. if who c = a then c\<lparr>status := st\<rparr> else c) (proposed_candidates s)) =
        map who (proposed_candidates s)"
    by simp
  then have "registered_once (set_status a st s)"
    using Cons.prems by (simp add: set_status_eq del: map_map)
  then show ?case
    using Cons.IH [of "set_status a st s"] Cons.prems
    by (auto simp: set_status_eq comp_def intro!: arg_cong [where f = "\<lambda>x. s\<lparr>proposed_candidates := x\<rparr>"])
qed

lemma new_session_eq:
  "registered_once s \<Longrightarrow> new_session s =
   (Some (invulnerables s),
    s\<lparr>proposed_candidates :=
        map (\<lambda>c. if who c \<in> set (invulnerables s) then c\<lparr>status := Authoring\<rparr> else c)
          (proposed_candidates s)\<rparr>)"
  by (simp add: new_session_def fold_set_status_eq Let_def)

subsection \<open>The whole session boundary\<close>

text \<open>
  The specification of \<open>end_session\<close>: promote, slash, drop and demote, then re-waitlist.
  \<open>surviving\<close> is the candidate list after the first three stages.
\<close>

definition surviving :: "'c staking_config \<Rightarrow> 'c chain \<Rightarrow> account_id list \<Rightarrow> candidate_info list" where
  "surviving cfg s vs =
     List.map_filter prepared
       (slashed (block_number s) (slash_hit cfg s vs)
         (map (promoted (waiting_candidates s)) (proposed_candidates s)))"

definition end_session_spec :: "'c staking_config \<Rightarrow> 'c chain \<Rightarrow> account_id list \<Rightarrow> 'c chain" where
  "end_session_spec cfg s vs =
     (let cs = surviving cfg s vs;
          n = unat (max_candidates cfg);
          des = desired_candidates s
      in s\<lparr>invulnerables :=
             (if waiting_candidates s = [] then invulnerables s else waiting_candidates s),
           waiting_candidates := waiting_spec n des cs,
           proposed_candidates := map (waitlisted (take (n - length des) (newcomers des cs))) cs,
           actual_authors := []\<rparr>)"

lemma set_map_filter_prepared:
  "set (map who (List.map_filter prepared cs)) \<subseteq> set (map who cs)"
  by (auto simp: List.map_filter_def prepared_who)

lemma distinct_map_filter_prepared:
  "distinct (map who cs) \<Longrightarrow> distinct (map who (List.map_filter prepared cs))"
proof (induction cs)
  case Nil
  then show ?case by simp
next
  case (Cons c cs)
  show ?case
  proof (cases "prepared c")
    case None
    with Cons show ?thesis by (simp add: map_filter_simps)
  next
    case (Some d)
    from Cons.prems have "who c \<notin> set (map who (List.map_filter prepared cs))"
      using set_map_filter_prepared [of cs] by auto
    with Some Cons prepared_who [OF Some] show ?thesis by (simp add: map_filter_simps)
  qed
qed

lemma distinct_surviving:
  "registered_once s \<Longrightarrow> distinct (map who (surviving cfg s vs))"
  unfolding surviving_def by (rule distinct_map_filter_prepared) simp

lemma end_session_eq:
  assumes once: "registered_once s" and vs: "current_validators cfg s = Some vs"
  shows "end_session cfg s = Some (end_session_spec cfg s vs)"
proof -
  define s1 where "s1 = s\<lparr>proposed_candidates := map (promoted (waiting_candidates s)) (proposed_candidates s),
     invulnerables := (if waiting_candidates s = [] then invulnerables s else waiting_candidates s)\<rparr>"
  define s2 where "s2 = s1\<lparr>proposed_candidates := slashed (block_number s) (slash_hit cfg s vs) (proposed_candidates s1),
     actual_authors := []\<rparr>"
  have "current_validators cfg s1 = Some vs" "slash_hit cfg s1 vs = slash_hit cfg s vs"
    using vs by (simp_all add: s1_def current_validators_def slash_hit_def stale_validators_def)
  then have slash: "slash_stale_authors cfg s1 = Some s2"
    by (simp add: slash_stale_authors_eq s2_def) (simp add: s1_def)
  define s3 where "s3 = prepare_next_waiting_list s2"
  have once2: "registered_once s2"
    using once by (simp add: s2_def s1_def)
  have s3: "proposed_candidates s3 = surviving cfg s vs"
    using prepare_proposed [OF once2] by (simp add: s3_def s2_def s1_def surviving_def)
  have same: "same_outside s2 s3" "invulnerables s3 = invulnerables s2" "actual_authors s3 = []"
    by (simp_all add: s3_def prepare_next_waiting_list_outside) (simp add: s2_def)
  have "refresh_waiting_list cfg s3 = end_session_spec cfg s vs"
    using refresh_spec [of s3 cfg] distinct_surviving [OF once, of cfg vs] same
    by (simp add: s3 end_session_spec_def Let_def same_outside_def s2_def s1_def)
  then show ?thesis
    by (simp add: end_session_def queue_authors_eq slash s3_def flip: s1_def)
qed

end
