(* ===== verification/Transition.thy ===== *)
theory Transition
  imports Prelude
begin

text \<open>
  Reachability and invariants, once for every state machine of the development: a state is
  reachable when a finite run of steps leads to it from an initial state, and a predicate
  that holds initially and is kept by every step holds in every reachable state.
\<close>

inductive reach :: "('s \<Rightarrow> bool) \<Rightarrow> ('s \<Rightarrow> 's \<Rightarrow> bool) \<Rightarrow> 's \<Rightarrow> bool"
  for init :: "'s \<Rightarrow> bool" and step :: "'s \<Rightarrow> 's \<Rightarrow> bool" where
  reach_init: "init s \<Longrightarrow> reach init step s"
| reach_step: "reach init step s \<Longrightarrow> step s t \<Longrightarrow> reach init step t"

locale inductive_invariant =
  fixes init :: "'s \<Rightarrow> bool" and step :: "'s \<Rightarrow> 's \<Rightarrow> bool" and inv :: "'s \<Rightarrow> bool"
  assumes inv_init: "init s \<Longrightarrow> inv s"
    and inv_step: "inv s \<Longrightarrow> step s t \<Longrightarrow> inv t"
begin

lemma inv_reach: "reach init step s \<Longrightarrow> inv s"
  by (induction rule: reach.induct) (auto intro: inv_init inv_step)

lemma inv_steps: "step\<^sup>*\<^sup>* s t \<Longrightarrow> inv s \<Longrightarrow> inv t"
  by (induction rule: rtranclp_induct) (auto intro: inv_step)

end

text \<open>A second invariant may be proved relative to a first one.\<close>

locale relative_invariant = inductive_invariant +
  fixes extra :: "'s \<Rightarrow> bool"
  assumes extra_init: "init s \<Longrightarrow> extra s"
    and extra_step: "inv s \<Longrightarrow> extra s \<Longrightarrow> step s t \<Longrightarrow> extra t"

sublocale relative_invariant \<subseteq> both: inductive_invariant init step "\<lambda>s. inv s \<and> extra s"
  by unfold_locales (auto intro: inv_init inv_step extra_init extra_step)

end
