(* ===== verification/Staking_Invariants.thy ===== *)
theory Staking_Invariants
  imports Staking_Calls Staking_Session Transition
begin

text \<open>
  The staking pallet as a transition system, and its well-formedness invariant. A step is
  an extrinsic, a hook, or a move of the environment (another block, another validator set
  installed by \<open>pallet_session\<close>, other pallets moving money in the bank), in any order:
  nothing is assumed about when the session pallet calls the hooks.
\<close>

section \<open>Steps\<close>

datatype 'c action =
    Extrinsic origin staking_call
  | InitializeBlock "account_id option"
  | EndSession
  | NewSession
  | AdvanceBlock block_number
  | InstallValidators "account_id list"
  | MoveMoney 'c

inductive chain_step :: "'c staking_config \<Rightarrow> 'c action \<Rightarrow> 'c chain \<Rightarrow> 'c chain \<Rightarrow> bool"
  for cfg :: "'c staking_config" where
  step_extrinsic: "dispatch cfg org call s = (r, t) \<Longrightarrow> chain_step cfg (Extrinsic org call) s t"
| step_initialize: "t = on_initialize cfg author s \<Longrightarrow> chain_step cfg (InitializeBlock author) s t"
| step_end_session: "end_session cfg s = Some t \<Longrightarrow> chain_step cfg EndSession s t"
| step_new_session: "new_session s = (vs, t) \<Longrightarrow> chain_step cfg NewSession s t"
| step_block: "block_number s \<le> n \<Longrightarrow> chain_step cfg (AdvanceBlock n) s (s\<lparr>block_number := n\<rparr>)"
| step_validators: "chain_step cfg (InstallValidators vs) s (s\<lparr>validators := vs\<rparr>)"
| step_money: "chain_step cfg (MoveMoney m) s (s\<lparr>bank := m\<rparr>)"

inductive_cases step_cases [elim]:
  "chain_step cfg (Extrinsic org call) s t"
  "chain_step cfg (InitializeBlock author) s t"
  "chain_step cfg EndSession s t"
  "chain_step cfg NewSession s t"
  "chain_step cfg (AdvanceBlock n) s t"
  "chain_step cfg (InstallValidators vs) s t"
  "chain_step cfg (MoveMoney m) s t"

definition at_genesis :: "'c staking_config \<Rightarrow> account_id list \<Rightarrow> 'c chain \<Rightarrow> bool" where
  "at_genesis cfg desired s \<longleftrightarrow> (\<exists>m. genesis_build cfg desired (empty_chain m) = Some s)"

definition steps_to :: "'c staking_config \<Rightarrow> 'c chain \<Rightarrow> 'c chain \<Rightarrow> bool" where
  "steps_to cfg s t \<longleftrightarrow> (\<exists>act. chain_step cfg act s t)"

text \<open>A hook is any step that is neither a call nor a move of money by another pallet.\<close>

fun hook_action :: "'c action \<Rightarrow> bool" where
  "hook_action (Extrinsic _ _) = False"
| "hook_action (MoveMoney _) = False"
| "hook_action _ = True"

definition hook_step :: "'c staking_config \<Rightarrow> 'c chain \<Rightarrow> 'c chain \<Rightarrow> bool" where
  "hook_step cfg s t \<longleftrightarrow> (\<exists>act. hook_action act \<and> chain_step cfg act s t)"

lemma hook_step_steps: "(hook_step cfg)\<^sup>*\<^sup>* s t \<Longrightarrow> (steps_to cfg)\<^sup>*\<^sup>* s t"
  by (erule rtranclp_mono [THEN predicate2D, rotated]) (auto simp: hook_step_def steps_to_def)

lemma hook_steps: "hook_action act \<Longrightarrow> chain_step cfg act s t \<Longrightarrow> (hook_step cfg)\<^sup>*\<^sup>* s t"
  by (rule r_into_rtranclp) (auto simp: hook_step_def)

abbreviation reachable :: "'c staking_config \<Rightarrow> account_id list \<Rightarrow> 'c chain \<Rightarrow> bool" where
  "reachable cfg desired \<equiv> reach (at_genesis cfg desired) (steps_to cfg)"

section \<open>The invariant\<close>

definition candidate_ok ::
    "'c staking_config \<Rightarrow> block_number \<Rightarrow> (account_id \<Rightarrow> delegation list option) \<Rightarrow>
     candidate_info \<Rightarrow> bool" where
  "candidate_ok cfg now dels c \<longleftrightarrow>
     (bond c = 0 \<or> min_candidate_bond cfg \<le> bond c) \<and>
     unat (total_stake c) \<le> stake_sum (dels (who c)) \<and>
     commission c \<le> 100 \<and> status c \<noteq> Offline \<and>
     last_updated c \<le> now \<and> last_authored c \<le> now"

definition candidates_inv ::
    "'c staking_config \<Rightarrow> block_number \<Rightarrow> (account_id \<Rightarrow> delegation list option) \<Rightarrow>
     candidate_info list \<Rightarrow> bool" where
  "candidates_inv cfg now dels cs \<longleftrightarrow>
     distinct (map who cs) \<and> length cs \<le> unat (max_candidates cfg) \<and>
     (\<forall>c\<in>set cs. candidate_ok cfg now dels c)"

definition delegation_ok :: "'c staking_config \<Rightarrow> account_id \<Rightarrow> delegation list \<Rightarrow> bool" where
  "delegation_ok cfg cand ds \<longleftrightarrow>
     ds \<noteq> [] \<and> distinct (map delegator ds) \<and> length ds \<le> unat (max_delegations cfg) \<and>
     cand \<notin> delegator ` set ds"

definition delegations_inv ::
    "'c staking_config \<Rightarrow> (account_id \<Rightarrow> delegation list option) \<Rightarrow> bool" where
  "delegations_inv cfg dels \<longleftrightarrow> (\<forall>cand ds. dels cand = Some ds \<longrightarrow> delegation_ok cfg cand ds)"

definition pipeline_inv :: "'c staking_config \<Rightarrow> account_id list \<Rightarrow> 'c chain \<Rightarrow> bool" where
  "pipeline_inv cfg desired s \<longleftrightarrow>
     desired_candidates s = desired \<and> length desired \<le> unat (max_candidates cfg) \<and>
     length (invulnerables s) \<le> unat (max_candidates cfg) \<and>
     length (waiting_candidates s) \<le> unat (max_candidates cfg) \<and>
     length (actual_authors s) \<le> unat (max_candidates cfg) \<and> distinct (actual_authors s) \<and>
     set desired \<subseteq> set (invulnerables s) \<and> set desired \<subseteq> set (waiting_candidates s) \<and>
     (distinct desired \<longrightarrow> distinct (invulnerables s) \<and> distinct (waiting_candidates s))"

definition staking_inv :: "'c staking_config \<Rightarrow> account_id list \<Rightarrow> 'c chain \<Rightarrow> bool" where
  "staking_inv cfg desired s \<longleftrightarrow>
     candidates_inv cfg (block_number s) (delegations s) (proposed_candidates s) \<and>
     delegations_inv cfg (delegations s) \<and> pipeline_inv cfg desired s"

lemma staking_inv_once: "staking_inv cfg desired s \<Longrightarrow> registered_once s"
  by (simp add: staking_inv_def candidates_inv_def)

subsection \<open>Candidate lists\<close>

named_theorems inv_intros \<open>rules that keep the parts of the invariant\<close>

lemma candidates_inv_update [inv_intros]:
  assumes "candidates_inv cfg now dels cs"
    and "\<And>c. candidate_ok cfg now dels c \<Longrightarrow> who c = a \<Longrightarrow> candidate_ok cfg now dels (f c)"
    and "\<And>c. who (f c) = who c"
  shows "candidates_inv cfg now dels (update_first (\<lambda>c. who c = a) f cs)"
  using assms set_update_first_subset [of "\<lambda>c. who c = a" f cs]
  by (auto simp: candidates_inv_def map_update_first)

lemma candidates_inv_sort [simp]:
  "candidates_inv cfg now dels (sort_candidates cs) \<longleftrightarrow> candidates_inv cfg now dels cs"
  by (simp add: candidates_inv_def)

lemma candidates_inv_map [inv_intros]:
  assumes "candidates_inv cfg now dels cs"
    and "\<And>c. candidate_ok cfg now dels c \<Longrightarrow> candidate_ok cfg now dels (f c)"
    and "\<And>c. who (f c) = who c"
  shows "candidates_inv cfg now dels (map f cs)"
  using assms by (auto simp: candidates_inv_def comp_def)

lemma candidates_inv_snoc [inv_intros]:
  assumes "candidates_inv cfg now dels cs" "candidate_ok cfg now dels c"
    and "\<forall>d\<in>set cs. who d \<noteq> who c" "length cs < unat (max_candidates cfg)"
  shows "candidates_inv cfg now dels (cs @ [c])"
  using assms by (auto simp: candidates_inv_def)

lemma candidates_inv_prepared [inv_intros]:
  assumes "candidates_inv cfg now dels cs"
  shows "candidates_inv cfg now dels (List.map_filter prepared cs)"
proof -
  have "length (List.map_filter prepared cs) \<le> length cs"
    by (simp add: List.map_filter_def)
  moreover have "candidate_ok cfg now dels d"
    if "d \<in> set (List.map_filter prepared cs)" for d
  proof -
    from that obtain c where "c \<in> set cs" "prepared c = Some d"
      by (auto simp: List.map_filter_def)
    with assms show ?thesis
      by (auto simp: candidates_inv_def prepared_def candidate_ok_def
          split: if_splits status.splits)
  qed
  ultimately show ?thesis
    using assms by (auto simp: candidates_inv_def distinct_map_filter_prepared)
qed

lemma candidates_inv_later:
  "candidates_inv cfg now dels cs \<Longrightarrow> now \<le> now' \<Longrightarrow> candidates_inv cfg now' dels cs"
  by (auto simp: candidates_inv_def candidate_ok_def)

text \<open>When the delegations of one candidate change and his \<open>total_stake\<close> is recomputed.\<close>

lemma candidates_inv_restake:
  assumes inv: "candidates_inv cfg now dels cs"
  shows "candidates_inv cfg now (dels(cand := ds))
     (update_first (\<lambda>c. who c = cand)
       (\<lambda>c. c\<lparr>total_stake := total_of ds, last_updated := now\<rparr>) cs)"
proof -
  define g :: "candidate_info \<Rightarrow> candidate_info" where "g = (\<lambda>c. if who c = cand
    then c\<lparr>total_stake := total_of ds, last_updated := now\<rparr> else c)"
  have "unat (total_of ds) \<le> stake_sum ds"
    by (auto simp: total_of_def stake_sum_def foldl_sat_add split: option.split)
  then have ok: "candidate_ok cfg now (dels(cand := ds)) (g c)" if "candidate_ok cfg now dels c" for c
    using that by (simp add: candidate_ok_def g_def)
  have "update_first (\<lambda>c. who c = cand)
      (\<lambda>c. c\<lparr>total_stake := total_of ds, last_updated := now\<rparr>) cs = map g cs"
    using inv by (simp add: candidates_inv_def keyed g_def)
  moreover have "who \<circ> g = who"
    by (auto simp: g_def)
  ultimately show ?thesis
    using inv ok by (simp add: candidates_inv_def)
qed

subsection \<open>Delegations\<close>

lemma delegations_inv_upd:
  "delegations_inv cfg dels \<Longrightarrow> (\<And>l. ds = Some l \<Longrightarrow> delegation_ok cfg cand l) \<Longrightarrow>
   delegations_inv cfg (dels(cand := ds))"
  by (auto simp: delegations_inv_def)

lemma add_delegation_ok:
  assumes "delegations_inv cfg dels" "a \<noteq> cand"
    and "add_delegation (max_delegations cfg) a amount (dels cand) = Some ds"
  shows "delegation_ok cfg cand ds"
proof (cases "dels cand")
  case None
  with assms(2,3) show ?thesis
    by (auto simp: add_delegation_def delegation_ok_def)
next
  case (Some l)
  then have l: "delegation_ok cfg cand l"
    using assms(1) by (simp add: delegations_inv_def)
  show ?thesis
  proof (cases "find (\<lambda>d. delegator d = a) l")
    case None
    with Some l assms(2,3) show ?thesis
      by (auto simp: add_delegation_def delegation_ok_def find_None_all)
  next
    case (Some d)
    have "map delegator ds = map delegator l"
      using Some \<open>dels cand = Some l\<close> assms(3)
      by (auto simp: add_delegation_def map_update_first)
    then show ?thesis
      using l by (metis delegation_ok_def length_map list.set_map map_is_Nil_conv)
  qed
qed

lemma take_delegation_ok:
  assumes "delegations_inv cfg dels" and "take_delegation a (dels cand) = Inr (amount, Some l)"
  shows "delegation_ok cfg cand l"
proof -
  from take_delegation_Inr [OF assms(2)] obtain ds i where
    ds: "dels cand = Some ds" "position (\<lambda>d. delegator d = a) ds = Some i"
      "l = remove_at i ds" "l \<noteq> []"
    by (auto split: if_splits)
  then have "delegation_ok cfg cand ds"
    using assms(1) by (simp add: delegations_inv_def)
  moreover have "l = filter (\<lambda>d. delegator d \<noteq> a) ds"
    using ds calculation by (simp add: delegation_ok_def keyed)
  ultimately show ?thesis
    using ds(4)
    by (auto simp: delegation_ok_def distinct_map_filter intro: le_trans [OF length_filter_le])
qed

section \<open>Every step keeps the invariant\<close>

subsection \<open>Extrinsics\<close>

text \<open>No dispatchable writes the lists the session hooks own.\<close>

lemma call_pipeline:
  assumes "call_body cfg org call s = (Inr u, t)"
  shows "pipeline_inv cfg desired t \<longleftrightarrow> pipeline_inv cfg desired s"
  using assms by (cases call) (auto dest!: call_ok simp: pipeline_inv_def)

lemma call_block_number:
  "call_body cfg org call s = (Inr u, t) \<Longrightarrow> block_number t = block_number s"
  by (cases call) (auto dest!: call_ok)

lemma call_delegations_inv:
  assumes "call_body cfg org call s = (Inr u, t)" "delegations_inv cfg (delegations s)"
  shows "delegations_inv cfg (delegations t)"
  using assms
  by (cases call)
    (auto dest!: call_ok intro!: delegations_inv_upd intro: add_delegation_ok take_delegation_ok)

lemma call_candidates_inv:
  assumes "call_body cfg org call s = (Inr u, t)"
    and inv: "candidates_inv cfg (block_number s) (delegations s) (proposed_candidates s)"
  shows "candidates_inv cfg (block_number s) (delegations t) (proposed_candidates t)"
proof (cases call)
  case RegisterCandidate
  with assms show ?thesis
    by (auto dest!: register_candidate_ok intro!: inv_intros simp: candidate_ok_def find_candidate_None)
next
  case (BondCandidate b)
  with assms obtain a where "b = 0 \<or> min_candidate_bond cfg \<le> b"
    "delegations t = delegations s"
    "proposed_candidates t = sort_candidates (update_first (\<lambda>c. who c = a)
       (\<lambda>c. c\<lparr>bond := b, last_updated := block_number s\<rparr>) (proposed_candidates s))"
    by (auto dest!: bond_candidate_ok simp: ensure_bond_allowed_def split: if_splits)
  with inv show ?thesis
    by (auto intro!: inv_intros simp: candidate_ok_def)
next
  case (SetCommissionOfCandidate com)
  with assms show ?thesis
    by (auto dest!: set_commission_ok intro!: inv_intros simp: candidate_ok_def)
next
  case (StakeCandidate cand amount)
  with assms show ?thesis
    by (auto dest!: stake_candidate_ok intro!: candidates_inv_restake)
next
  case (UnstakeCandidate cand)
  with assms show ?thesis
    by (auto dest!: unstake_candidate_ok intro!: candidates_inv_restake)
next
  case OfflineCandidate
  with assms show ?thesis
    by (auto dest!: offline_candidate_ok intro!: inv_intros simp: candidate_ok_def)
next
  case OnlineCandidate
  with assms show ?thesis
    by (auto dest!: online_candidate_ok intro!: inv_intros simp: candidate_ok_def)
next
  case LeaveCandidate
  with assms show ?thesis
    by (auto dest!: leave_candidate_ok intro!: inv_intros simp: candidate_ok_def)
next
  case (BondCorrection b)
  with assms show ?thesis
    by (auto dest!: bond_correction_ok intro!: inv_intros simp: candidate_ok_def)
qed

lemma call_staking_inv:
  assumes "staking_inv cfg desired s" "call_body cfg org call s = (Inr u, t)"
  shows "staking_inv cfg desired t"
  using assms call_candidates_inv [OF assms(2)] call_delegations_inv [OF assms(2)]
    call_pipeline [OF assms(2)] call_block_number [OF assms(2)]
  by (simp add: staking_inv_def)

lemma dispatch_staking_inv:
  assumes "staking_inv cfg desired s" "dispatch cfg org call s = (r, t)"
  shows "staking_inv cfg desired t"
proof (cases r)
  case (Inl e)
  with assms show ?thesis by (auto simp: dispatch_def with_storage_layer_Inl)
next
  case (Inr u)
  with assms show ?thesis using call_staking_inv by (simp add: dispatch_def)
qed

subsection \<open>Hooks\<close>

lemma on_initialize_staking_inv:
  assumes "staking_inv cfg desired s"
  shows "staking_inv cfg desired (on_initialize cfg author s)"
proof (cases author)
  case None
  with assms show ?thesis by (simp add: on_initialize_def)
next
  case (Some a)
  have "candidates_inv cfg (block_number s) (delegations s)
    (update_first (\<lambda>c. who c = a) (\<lambda>c. c\<lparr>last_authored := block_number s\<rparr>) (proposed_candidates s))"
    using assms by (auto intro!: inv_intros simp: staking_inv_def candidate_ok_def)
  with Some assms show ?thesis
    by (auto simp: on_initialize_def add_actual_author_def record_authored_block_def
        staking_inv_def pipeline_inv_def split: option.split)
qed

lemma waiting_spec_length: "length (waiting_spec n desired cs) \<le> n"
  by (simp add: waiting_spec_def)

lemma waiting_spec_desired: "length desired \<le> n \<Longrightarrow> set desired \<subseteq> set (waiting_spec n desired cs)"
  by (simp add: waiting_spec_def)

lemma waiting_spec_distinct:
  assumes "distinct desired" "distinct (map who cs)"
  shows "distinct (waiting_spec n desired cs)"
proof -
  have "distinct (newcomers desired cs)"
    using assms(2) by (simp add: newcomers_def distinct_map_filter)
  moreover have "set desired \<inter> set (newcomers desired cs) = {}"
    by (auto simp: newcomers_def)
  ultimately show ?thesis
    unfolding waiting_spec_def using assms(1) by (intro distinct_take) simp
qed

lemma candidates_inv_slashed:
  assumes "candidates_inv cfg now dels cs"
  shows "candidates_inv cfg now dels (slashed now hit cs)"
proof -
  have "candidates_inv cfg now dels (map (marked now hit) cs)"
    using assms by (auto intro!: inv_intros simp: candidate_ok_def marked_def)
  with assms show ?thesis by (simp add: slashed_def)
qed

lemma candidates_inv_surviving:
  assumes "candidates_inv cfg (block_number s) dels (proposed_candidates s)"
  shows "candidates_inv cfg (block_number s) dels (surviving cfg s vs)"
proof -
  have "candidates_inv cfg (block_number s) dels
      (map (promoted (waiting_candidates s)) (proposed_candidates s))"
    using assms by (auto intro!: inv_intros simp: candidate_ok_def promoted_def)
  then show ?thesis
    unfolding surviving_def by (intro candidates_inv_prepared candidates_inv_slashed)
qed

lemma end_session_spec_staking_inv:
  assumes inv: "staking_inv cfg desired s"
  shows "staking_inv cfg desired (end_session_spec cfg s vs)"
proof -
  let ?cs = "surviving cfg s vs"
  have cs: "candidates_inv cfg (block_number s) (delegations s) ?cs"
    using inv by (simp add: staking_inv_def candidates_inv_surviving)
  have once: "distinct (map who ?cs)"
    using cs by (simp add: candidates_inv_def)
  have waitlist: "candidates_inv cfg (block_number s) (delegations s) (map (waitlisted new) ?cs)" for new
    using cs by (auto intro!: inv_intros simp: candidate_ok_def waitlisted_def)
  show ?thesis
    using inv waitlist once
    by (auto simp: staking_inv_def pipeline_inv_def end_session_spec_def Let_def
        waiting_spec_length waiting_spec_distinct dest: subsetD [OF waiting_spec_desired])
qed

lemma end_session_is_spec:
  assumes "registered_once s" "end_session cfg s = Some t"
  shows "\<exists>vs. current_validators cfg s = Some vs \<and> t = end_session_spec cfg s vs"
proof -
  obtain vs where vs: "current_validators cfg s = Some vs"
    using assms(2)
    by (cases "current_validators cfg s")
      (auto simp: end_session_def queue_authors_eq slash_stale_authors_def current_validators_def
        split: option.splits)
  with end_session_eq [OF assms(1)] assms(2) show ?thesis by auto
qed

lemma end_session_staking_inv:
  assumes "staking_inv cfg desired s" "end_session cfg s = Some t"
  shows "staking_inv cfg desired t"
  using end_session_is_spec [OF staking_inv_once [OF assms(1)] assms(2)] assms(1)
  by (auto simp: end_session_spec_staking_inv)

lemma new_session_staking_inv:
  assumes "staking_inv cfg desired s" "new_session s = (vs, t)"
  shows "staking_inv cfg desired t"
proof -
  have "candidates_inv cfg (block_number s) (delegations s)
    (map (\<lambda>c. if who c \<in> set (invulnerables s) then c\<lparr>status := Authoring\<rparr> else c)
      (proposed_candidates s))"
    using assms(1) by (auto intro!: inv_intros simp: staking_inv_def candidate_ok_def)
  with assms show ?thesis
    by (auto simp: new_session_eq [OF staking_inv_once [OF assms(1)]] staking_inv_def pipeline_inv_def)
qed

lemma chain_step_staking_inv:
  assumes "chain_step cfg act s t" "staking_inv cfg desired s"
  shows "staking_inv cfg desired t"
  using assms
proof (cases rule: chain_step.cases)
  case (step_block n)
  with assms(2) show ?thesis
    by (auto simp: staking_inv_def pipeline_inv_def intro: candidates_inv_later)
next
  case (step_validators vs)
  with assms(2) show ?thesis by (simp add: staking_inv_def pipeline_inv_def)
next
  case (step_money m)
  with assms(2) show ?thesis by (simp add: staking_inv_def pipeline_inv_def)
qed (use assms(2) in \<open>auto intro: dispatch_staking_inv on_initialize_staking_inv
      end_session_staking_inv new_session_staking_inv\<close>)

lemma genesis_staking_inv:
  "at_genesis cfg desired s \<Longrightarrow> staking_inv cfg desired s"
  by (auto simp: at_genesis_def genesis_build_def empty_chain_def staking_inv_def candidates_inv_def
      delegations_inv_def pipeline_inv_def split: if_splits)

interpretation staking: inductive_invariant
  "at_genesis cfg desired" "steps_to cfg" "staking_inv cfg desired"
  for cfg :: "'c staking_config" and desired :: "account_id list"
  by unfold_locales (auto simp: steps_to_def genesis_staking_inv intro: chain_step_staking_inv)

end
