(* ===== verification/Staking_Solvency.thy ===== *)
theory Staking_Solvency
  imports Staking_Invariants
begin

text \<open>
  Money: every bond the pallet records and every stake a delegator has behind any candidate
  is covered by that account's reserved balance. The currency is any implementation of the
  \<open>reservable_currency\<close> contract. Two kinds of steps are outside the guarantee and are
  named as such by \<open>admissible\<close>: another pallet releasing what this pallet has reserved (it
  may well release a deposit of its own, which lies beyond the claims recorded here), and a
  \<open>bond_correction\<close> that asks for more than the caller's own bond.
\<close>

section \<open>Claims on an account's reserve\<close>

definition bonded_in :: "candidate_info list \<Rightarrow> account_id \<Rightarrow> nat" where
  "bonded_in cs a = sum_list (map (\<lambda>c. if who c = a then unat (bond c) else 0) cs)"

definition staked_in :: "delegation list option \<Rightarrow> account_id \<Rightarrow> nat" where
  "staked_in ds a =
     (case ds of None \<Rightarrow> 0
      | Some l \<Rightarrow> sum_list (map (\<lambda>d. if delegator d = a then unat (stake d) else 0) l))"

definition delegated :: "(account_id \<Rightarrow> delegation list option) \<Rightarrow> account_id \<Rightarrow> nat" where
  "delegated dels a = (\<Sum>cand\<in>UNIV. staked_in (dels cand) a)"

definition claims :: "'c chain \<Rightarrow> account_id \<Rightarrow> nat" where
  "claims s a = bonded_in (proposed_candidates s) a + delegated (delegations s) a"

definition backed :: "'c staking_config \<Rightarrow> 'c chain \<Rightarrow> bool" where
  "backed cfg s \<longleftrightarrow>
     (\<forall>a. claims s a \<le> unat (reserved_balance (currency cfg) (bank s) a))"

subsection \<open>How the claims move\<close>

lemma bonded_in_sort [simp]: "bonded_in (sort_candidates cs) a = bonded_in cs a"
  by (simp add: bonded_in_def)

lemma bonded_in_update_frame:
  "(\<And>c. who (f c) = who c) \<Longrightarrow> (\<And>c. bond (f c) = bond c) \<Longrightarrow>
   bonded_in (update_first p f cs) a = bonded_in cs a"
  by (induction cs) (auto simp: bonded_in_def)

lemma bonded_in_map_frame:
  "(\<And>c. who (f c) = who c) \<Longrightarrow> (\<And>c. bond (f c) = bond c) \<Longrightarrow>
   bonded_in (map f cs) a = bonded_in cs a"
  by (induction cs) (auto simp: bonded_in_def)

lemma bonded_in_absent: "\<forall>c\<in>set cs. who c \<noteq> a \<Longrightarrow> bonded_in cs a = 0"
  by (auto simp: bonded_in_def)

lemma bonded_in_find:
  assumes "distinct (map who cs)" "find (\<lambda>c. who c = a) cs = Some c"
  shows "bonded_in cs a = unat (bond c)"
  using assms
proof (induction cs)
  case Nil
  then show ?case by simp
next
  case (Cons d cs)
  show ?case
  proof (cases "who d = a")
    case True
    with Cons.prems(1) have "\<forall>c\<in>set cs. who c \<noteq> a"
      using distinct_keys_Cons by metis
    with True Cons.prems(2) bonded_in_absent show ?thesis by (simp add: bonded_in_def)
  next
    case False
    with Cons show ?thesis by (simp add: bonded_in_def)
  qed
qed

lemma bonded_in_rebond:
  assumes "distinct (map who cs)" "find (\<lambda>c. who c = a) cs = Some c"
    and f: "\<And>c. who (f c) = who c" "\<And>c. bond (f c) = x"
  shows "bonded_in (update_first (\<lambda>c. who c = a) f cs) b =
         (if b = a then unat x else bonded_in cs b)"
  using assms(1,2)
proof (induction cs)
  case Nil
  then show ?case by simp
next
  case (Cons d cs)
  show ?case
  proof (cases "who d = a")
    case True
    with Cons.prems(1) have "\<forall>c\<in>set cs. who c \<noteq> a"
      using distinct_keys_Cons by metis
    with True f bonded_in_absent [of cs a] show ?thesis by (simp add: bonded_in_def)
  next
    case False
    with Cons show ?thesis by (auto simp: bonded_in_def)
  qed
qed

lemma bonded_in_prepared: "bonded_in (List.map_filter prepared cs) a \<le> bonded_in cs a"
proof (induction cs)
  case Nil
  then show ?case by simp
next
  case (Cons c cs)
  show ?case
  proof (cases "prepared c")
    case None
    with Cons show ?thesis by (simp add: bonded_in_def map_filter_simps)
  next
    case (Some d)
    then have "bond d = bond c" "who d = who c"
      by (auto simp: prepared_def split: if_splits status.splits)
    with Some Cons show ?thesis by (simp add: bonded_in_def map_filter_simps)
  qed
qed

lemma bonded_in_slashed [simp]: "bonded_in (slashed now hit cs) a = bonded_in cs a"
  by (simp add: slashed_def bonded_in_map_frame marked_def)

lemma delegated_upd:
  "delegated (dels(cand := ds)) a + staked_in (dels cand) a = delegated dels a + staked_in ds a"
proof -
  have split: "delegated d a = staked_in (d cand) a + (\<Sum>x\<in>UNIV - {cand}. staked_in (d x) a)" for d
    unfolding delegated_def by (rule sum.remove) simp_all
  have "(\<Sum>x\<in>UNIV - {cand}. staked_in ((dels(cand := ds)) x) a) =
        (\<Sum>x\<in>UNIV - {cand}. staked_in (dels x) a)"
    by (rule sum.cong) auto
  then show ?thesis
    using split [of dels] split [of "dels(cand := ds)"] by simp
qed

lemma staked_in_grow:
  "staked_in (Some (update_first (\<lambda>d. delegator d = a)
     (\<lambda>d. d\<lparr>stake := sat_add (stake d) amount\<rparr>) l)) b
   \<le> staked_in (Some l) b + (if b = a then unat amount else 0)"
proof (induction l)
  case Nil
  then show ?case by (simp add: staked_in_def)
next
  case (Cons d l)
  then show ?case
    using unat_sat_add_le [of "stake d" amount] by (auto simp: staked_in_def)
qed

lemma add_delegation_staked:
  assumes "add_delegation bound a amount old = Some ds"
  shows "staked_in (Some ds) b \<le> staked_in old b + (if b = a then unat amount else 0)"
proof -
  define l where "l = (case old of None \<Rightarrow> [] | Some l \<Rightarrow> l)"
  have old: "staked_in old b = staked_in (Some l) b"
    by (simp add: l_def staked_in_def split: option.split)
  show ?thesis
  proof (cases "find (\<lambda>d. delegator d = a) l")
    case None
    with assms have "ds = l @ [\<lparr>delegator = a, stake = amount\<rparr>]"
      by (simp add: add_delegation_def l_def Let_def)
    then show ?thesis unfolding old by (simp add: staked_in_def)
  next
    case (Some d)
    with assms have "ds = update_first (\<lambda>d. delegator d = a)
        (\<lambda>d. d\<lparr>stake := sat_add (stake d) amount\<rparr>) l"
      by (simp add: add_delegation_def l_def Let_def)
    then show ?thesis using staked_in_grow by (simp add: old)
  qed
qed

lemma take_delegation_staked:
  assumes inv: "delegations_inv cfg dels"
    and tk: "take_delegation a (dels cand) = Inr (amount, rest)"
  shows "staked_in rest b + (if b = a then unat amount else 0) = staked_in (dels cand) b"
proof -
  from take_delegation_Inr [OF tk] obtain ds i where
    ds: "dels cand = Some ds" "position (\<lambda>d. delegator d = a) ds = Some i"
      "amount = stake (ds ! i)" "rest = (if remove_at i ds = [] then None else Some (remove_at i ds))"
    by auto
  have dist: "distinct (map delegator ds)"
    using inv ds(1) by (simp add: delegations_inv_def delegation_ok_def)
  have mem: "ds ! i \<in> set ds" "delegator (ds ! i) = a"
    using position_Some [OF ds(2)] by simp_all
  have rest: "staked_in rest b = staked_in (Some (filter (\<lambda>d. delegator d \<noteq> a) ds)) b"
    using ds(4) dist ds(2) by (simp add: keyed staked_in_def)
  let ?g = "\<lambda>d. if delegator d = b then unat (stake d) else 0"
  have "sum_list (map ?g ds) = ?g (ds ! i) + sum_list (map ?g (filter (\<lambda>d. delegator d \<noteq> a) ds))"
    using sum_list_split [OF dist mem(1), of ?g] mem(2) by simp
  moreover have "staked_in (dels cand) b = sum_list (map ?g ds)"
    by (simp add: ds(1) staked_in_def)
  moreover have "staked_in rest b = sum_list (map ?g (filter (\<lambda>d. delegator d \<noteq> a) ds))"
    unfolding rest by (simp add: staked_in_def)
  ultimately show ?thesis
    using ds(3) mem(2) by simp
qed

section \<open>Admissible steps\<close>

text \<open>All pallets reserve in one pot per account. Other pallets take and release deposits in
  it, but they release no more than lies there beyond what the staking pallet claims.\<close>

definition admissible :: "'c staking_config \<Rightarrow> 'c chain \<Rightarrow> 'c action \<Rightarrow> bool" where
  "admissible cfg s act =
     (case act of
        Extrinsic (System (Signed a)) (BondCorrection b) \<Rightarrow>
          (case find_candidate a s of None \<Rightarrow> True | Some c \<Rightarrow> b \<le> bond c)
      | MoveMoney m \<Rightarrow>
          (\<forall>a. unat (reserved_balance (currency cfg) (bank s) a) - unat (reserved_balance (currency cfg) m a)
               \<le> unat (reserved_balance (currency cfg) (bank s) a) - claims s a)
      | _ \<Rightarrow> True)"

definition admissible_step :: "'c staking_config \<Rightarrow> 'c chain \<Rightarrow> 'c chain \<Rightarrow> bool" where
  "admissible_step cfg s t \<longleftrightarrow> (\<exists>act. chain_step cfg act s t \<and> admissible cfg s act)"

text \<open>Keeping the bank and lowering no claim keeps the books backed.\<close>

lemma backed_frame:
  assumes "backed cfg s" "bank t = bank s" "\<And>a. claims t a \<le> claims s a"
  shows "backed cfg t"
  using assms(1) unfolding backed_def assms(2) by (blast intro: le_trans assms(3))

lemma same_outside_backed:
  assumes "backed cfg s" "same_outside s t"
    and "\<And>a. bonded_in (proposed_candidates t) a \<le> bonded_in (proposed_candidates s) a"
  shows "backed cfg t"
proof (rule backed_frame [OF assms(1)])
  show "bank t = bank s"
    using assms(2) by (simp add: same_outside_def)
  show "claims t a \<le> claims s a" for a
    using assms(2) assms(3) [of a] by (simp add: same_outside_def claims_def)
qed

context staking_bank
begin

lemma bond_candidate_backed:
  assumes inv: "registered_once s" and ok: "bond_candidate cfg org b s = (Inr u, t)"
    and backed: "backed cfg s"
  shows "backed cfg t"
proof -
  from bond_candidate_ok [OF ok] obtain a c m where
    c: "find_candidate a s = Some c" and m: "adjust_reserve cfg a (bond c) b (bank s) = Inr m"
    and t: "bank t = m" "delegations t = delegations s"
      "proposed_candidates t = sort_candidates (update_first (\<lambda>c. who c = a)
         (\<lambda>c. c\<lparr>bond := b, last_updated := block_number s\<rparr>) (proposed_candidates s))"
    by auto
  have "claims t x \<le> unat (reserved_balance (currency cfg) m x)" for x
  proof -
    have "claims s x \<le> unat (reserved_balance (currency cfg) (bank s) x)"
      using backed by (simp add: backed_def)
    moreover have "bonded_in (proposed_candidates t) x =
        (if x = a then unat b else bonded_in (proposed_candidates s) x)"
      using inv c by (simp add: t bonded_in_rebond find_candidate_def)
    moreover have "bonded_in (proposed_candidates s) a = unat (bond c)"
      using inv c by (simp add: bonded_in_find find_candidate_def)
    ultimately show ?thesis
      using adjust_reserve_at [OF m, of x] by (auto simp: claims_def t(2))
  qed
  then show ?thesis by (simp add: backed_def t(1))
qed

lemma stake_candidate_backed:
  assumes ok: "stake_candidate cfg org cand amount s = (Inr u, t)" and backed: "backed cfg s"
  shows "backed cfg t"
proof -
  from stake_candidate_ok [OF ok] obtain a m ds where
    m: "reserve (currency cfg) (bank s) a amount = Inr m"
    and ds: "add_delegation (max_delegations cfg) a amount (delegations s cand) = Some ds"
    and t: "bank t = m" "delegations t = (delegations s)(cand := Some ds)"
      "\<And>x. bonded_in (proposed_candidates t) x = bonded_in (proposed_candidates s) x"
    by (auto simp: bonded_in_update_frame)
  have "claims t x \<le> unat (reserved_balance (currency cfg) m x)" for x
  proof -
    have "claims s x \<le> unat (reserved_balance (currency cfg) (bank s) x)"
      using backed by (simp add: backed_def)
    moreover have "claims t x \<le> claims s x + (if x = a then unat amount else 0)"
      using delegated_upd [of "delegations s" cand "Some ds" x]
        add_delegation_staked [OF ds, of x] by (simp add: claims_def t(2,3))
    ultimately show ?thesis
      using reserve_reserved_at [OF m, of x] by simp
  qed
  then show ?thesis by (simp add: backed_def t(1))
qed

lemma unstake_candidate_backed:
  assumes inv: "delegations_inv cfg (delegations s)"
    and ok: "unstake_candidate cfg org cand s = (Inr u, t)" and backed: "backed cfg s"
  shows "backed cfg t"
proof -
  from unstake_candidate_ok [OF ok] obtain a amount rest where
    tk: "take_delegation a (delegations s cand) = Inr (amount, rest)"
    and t: "bank t = snd (unreserve (currency cfg) (bank s) a amount)"
      "delegations t = (delegations s)(cand := rest)"
      "\<And>x. bonded_in (proposed_candidates t) x = bonded_in (proposed_candidates s) x"
    by (auto simp: bonded_in_update_frame)
  have "claims t x \<le> unat (reserved_balance (currency cfg) (bank t) x)" for x
  proof -
    have "claims s x \<le> unat (reserved_balance (currency cfg) (bank s) x)"
      using backed by (simp add: backed_def)
    moreover have "claims t x + (if x = a then unat amount else 0) = claims s x"
      using delegated_upd [of "delegations s" cand rest x]
        take_delegation_staked [OF inv tk, of x] by (simp add: claims_def t(2,3))
    ultimately show ?thesis
      using unreserve_reserved_at [of "bank s" a amount x] by (simp add: t(1))
  qed
  then show ?thesis by (simp add: backed_def)
qed

lemma bond_correction_backed:
  assumes inv: "registered_once s" and ok: "bond_correction cfg org b s = (Inr u, t)"
    and adm: "admissible cfg s (Extrinsic org (BondCorrection b))" and backed: "backed cfg s"
  shows "backed cfg t"
proof -
  from bond_correction_ok [OF ok] obtain a c where
    c: "org = System (Signed a)" "find_candidate a s = Some c"
    and t: "bank t = snd (unreserve (currency cfg) (bank s) a b)" "delegations t = delegations s"
      "proposed_candidates t = update_first (\<lambda>c. who c = a)
         (\<lambda>c. c\<lparr>bond := 0, last_updated := block_number s\<rparr>) (proposed_candidates s)"
    by auto
  have b: "unat b \<le> unat (bond c)"
    using adm c by (simp add: admissible_def word_le_nat_alt)
  have "claims t x \<le> unat (reserved_balance (currency cfg) (bank t) x)" for x
  proof -
    have "claims s x \<le> unat (reserved_balance (currency cfg) (bank s) x)"
      using backed by (simp add: backed_def)
    moreover have "bonded_in (proposed_candidates t) x =
        (if x = a then 0 else bonded_in (proposed_candidates s) x)"
      using inv c by (simp add: t bonded_in_rebond [where x = 0] find_candidate_def)
    moreover have "bonded_in (proposed_candidates s) a = unat (bond c)"
      using inv c by (simp add: bonded_in_find find_candidate_def)
    ultimately show ?thesis
      using b unreserve_reserved_at [of "bank s" a b x] by (auto simp: claims_def t(1,2))
  qed
  then show ?thesis by (simp add: backed_def)
qed

lemma call_backed:
  assumes inv: "staking_inv cfg desired s" and ok: "call_body cfg org call s = (Inr u, t)"
    and adm: "admissible cfg s (Extrinsic org call)" and backed: "backed cfg s"
  shows "backed cfg t"
proof -
  note once = staking_inv_once [OF inv]
  have dels: "delegations_inv cfg (delegations s)"
    using inv by (simp add: staking_inv_def)
  show ?thesis
  proof (cases call)
    case (BondCandidate b)
    with ok show ?thesis using bond_candidate_backed [OF once _ backed] by simp
  next
    case (StakeCandidate cand amount)
    with ok show ?thesis using stake_candidate_backed [OF _ backed] by simp
  next
    case (UnstakeCandidate cand)
    with ok show ?thesis using unstake_candidate_backed [OF dels _ backed] by simp
  next
    case (BondCorrection b)
    with ok adm show ?thesis using bond_correction_backed [OF once _ _ backed] by simp
  qed (use ok backed in \<open>auto dest!: register_candidate_ok set_commission_ok
      offline_candidate_ok online_candidate_ok leave_candidate_ok
      simp: backed_def claims_def bonded_in_update_frame, simp_all add: bonded_in_def\<close>)
qed

lemma end_session_backed:
  assumes inv: "staking_inv cfg desired s" and ok: "end_session cfg s = Some t"
    and backed: "backed cfg s"
  shows "backed cfg t"
proof -
  obtain vs where t: "t = end_session_spec cfg s vs"
    using end_session_is_spec [OF staking_inv_once [OF inv] ok] by blast
  have "bonded_in (proposed_candidates t) a \<le> bonded_in (proposed_candidates s) a" for a
    using bonded_in_prepared [of "slashed (block_number s) (slash_hit cfg s vs)
        (map (promoted (waiting_candidates s)) (proposed_candidates s))" a]
    by (simp add: t end_session_spec_def Let_def surviving_def bonded_in_map_frame
        waitlisted_def promoted_def)
  then show ?thesis
    using same_outside_backed [OF backed end_session_outside [OF ok]] by blast
qed

lemma new_session_backed:
  assumes "staking_inv cfg desired s" "new_session s = (vs, t)" "backed cfg s"
  shows "backed cfg t"
  using assms(2) new_session_eq [OF staking_inv_once [OF assms(1)]]
  by (intro backed_frame [OF assms(3)]) (auto simp: claims_def bonded_in_map_frame)

lemma on_initialize_backed:
  assumes "backed cfg s"
  shows "backed cfg (on_initialize cfg author s)"
  by (rule same_outside_backed [OF assms on_initialize_outside])
    (auto simp: on_initialize_def add_actual_author_def record_authored_block_def
      bonded_in_update_frame split: option.split)

lemma admissible_step_backed:
  assumes inv: "staking_inv cfg desired s" and backed: "backed cfg s"
    and step: "chain_step cfg act s t" and adm: "admissible cfg s act"
  shows "backed cfg t"
  using step
proof (cases rule: chain_step.cases)
  case (step_extrinsic org call r)
  show ?thesis
  proof (cases r)
    case (Inl e)
    with step_extrinsic backed show ?thesis by (auto simp: dispatch_def with_storage_layer_Inl)
  next
    case (Inr u)
    with step_extrinsic inv adm backed show ?thesis
      by (auto simp: dispatch_def intro: call_backed)
  qed
next
  case (step_money m)
  have "claims s a \<le> unat (reserved_balance (currency cfg) m a)" for a
  proof -
    have "claims s a \<le> unat (reserved_balance (currency cfg) (bank s) a)"
      using backed by (simp add: backed_def)
    moreover have "unat (reserved_balance (currency cfg) (bank s) a) - unat (reserved_balance (currency cfg) m a)
        \<le> unat (reserved_balance (currency cfg) (bank s) a) - claims s a"
      using adm step_money(1) by (simp add: admissible_def)
    ultimately show ?thesis by linarith
  qed
  then show ?thesis unfolding step_money(2) by (simp add: backed_def claims_def)
next
  case (step_block n)
  then show ?thesis by (intro backed_frame [OF backed]) (auto simp: claims_def)
next
  case (step_validators vs)
  then show ?thesis by (intro backed_frame [OF backed]) (auto simp: claims_def)
qed (use inv backed in \<open>auto intro: end_session_backed new_session_backed on_initialize_backed\<close>)

lemma genesis_backed: "at_genesis cfg desired s \<Longrightarrow> backed cfg s"
  by (auto simp: at_genesis_def genesis_build_def empty_chain_def backed_def claims_def
      bonded_in_def delegated_def staked_in_def split: if_splits)

end

sublocale staking_bank \<subseteq> solvency: relative_invariant
  "at_genesis cfg desired" "admissible_step cfg" "staking_inv cfg desired" "backed cfg"
  for desired :: "account_id list"
  by unfold_locales
    (auto simp: admissible_step_def genesis_staking_inv intro: chain_step_staking_inv
      genesis_backed admissible_step_backed)

context staking_bank
begin

lemma backed_reach: "reach (at_genesis cfg desired) (admissible_step cfg) s \<Longrightarrow> backed cfg s"
  using solvency.both.inv_reach by blast

lemma inv_admissible:
  "reach (at_genesis cfg desired) (admissible_step cfg) s \<Longrightarrow> staking_inv cfg desired s"
  using solvency.both.inv_reach by blast

end

end
