(* ===== verification/Staking_Order.thy ===== *)
theory Staking_Order
  imports Staking_Invariants
begin

text \<open>
  The ranking invariant. The storage comment calls \<open>ProposedCandidates\<close> "kept sorted by
  \<open>bond + total_stake\<close> descending"; three dispatchables write it without sorting
  (\<open>register_candidate\<close>, \<open>set_commission_of_candidate\<close>, \<open>bond_correction\<close>), so the
  full rank order is not an invariant. What every step does keep is the order that the
  selection of validators reads: among the candidates that are online, nobody stands behind
  a smaller combined stake.
\<close>

definition stake_ordered :: "candidate_info list \<Rightarrow> bool" where
  "stake_ordered cs \<longleftrightarrow>
     sorted_wrt (\<lambda>c d. combined d \<le> combined c) (filter (\<lambda>c. \<not> offline c) cs)"

named_theorems order_intros \<open>rules that keep the stake order\<close>

lemma stake_ordered_Nil [simp]: "stake_ordered []"
  by (simp add: stake_ordered_def)

lemma stake_ordered_nth:
  "stake_ordered cs \<Longrightarrow> i < j \<Longrightarrow> j < length cs \<Longrightarrow> \<not> offline (cs ! i) \<Longrightarrow> \<not> offline (cs ! j) \<Longrightarrow>
   combined (cs ! j) \<le> combined (cs ! i)"
proof (induction cs arbitrary: i j)
  case Nil
  then show ?case by simp
next
  case (Cons c cs)
  obtain j' where j: "j = Suc j'" using Cons.prems(2) by (cases j) auto
  show ?case
  proof (cases i)
    case 0
    with Cons.prems j have "cs ! j' \<in> set cs" by simp
    with 0 Cons.prems j show ?thesis by (auto simp: stake_ordered_def)
  next
    case (Suc i')
    with Cons j show ?thesis by (auto simp: stake_ordered_def split: if_splits)
  qed
qed

lemma ranked_Cons:
  "ranked (c # cs) \<Longrightarrow> ranked cs \<and> (\<forall>d\<in>set cs. \<not> ranks_before d c)"
  using sorted_Cons_imp_sorted [of rank_cmp c cs] sorted_Cons_imp_not_less [of rank_cmp c cs]
  by (auto simp: ranked_def rank_ordering_Greater)

lemma ranked_stake_ordered: "ranked cs \<Longrightarrow> stake_ordered cs"
proof (induction cs)
  case Nil
  then show ?case by simp
next
  case (Cons c cs)
  from ranked_Cons [OF Cons.prems] have "stake_ordered cs" "\<forall>d\<in>set cs. \<not> ranks_before d c"
    using Cons.IH by auto
  then show ?case
    by (auto simp: stake_ordered_def ranks_before_def not_less)
qed

lemma stake_ordered_sort [simp]: "stake_ordered (sort_candidates cs)"
  by (simp add: ranked_stake_ordered)

lemma stake_ordered_map [order_intros]:
  assumes "stake_ordered cs" "\<And>c. offline (f c) = offline c" "\<And>c. combined (f c) = combined c"
  shows "stake_ordered (map f cs)"
  using assms by (simp add: stake_ordered_def filter_map comp_def sorted_wrt_map)

lemma stake_ordered_update [order_intros]:
  assumes "stake_ordered cs" "\<And>c. offline (f c) = offline c" "\<And>c. combined (f c) = combined c"
  shows "stake_ordered (update_first p f cs)"
proof -
  have "map combined (filter (\<lambda>c. \<not> offline c) (update_first p f cs)) =
        map combined (filter (\<lambda>c. \<not> offline c) cs)"
    by (induction cs) (simp_all add: assms)
  then show ?thesis
    using assms(1) sorted_wrt_map [of "\<lambda>x y. y \<le> x" combined]
    unfolding stake_ordered_def by metis
qed

lemma stake_ordered_update_offline [order_intros]:
  assumes "stake_ordered cs" "find p cs = Some c" "offline c" "offline (f c)"
  shows "stake_ordered (update_first p f cs)"
proof -
  have "filter (\<lambda>c. \<not> offline c) (update_first p f cs) = filter (\<lambda>c. \<not> offline c) cs"
    using assms(2-4) by (induction cs) (auto split: if_splits)
  with assms(1) show ?thesis by (simp add: stake_ordered_def)
qed

lemma stake_ordered_snoc [order_intros]:
  "stake_ordered cs \<Longrightarrow> combined c = 0 \<Longrightarrow> stake_ordered (cs @ [c])"
  by (simp add: stake_ordered_def sorted_wrt_append)

lemma stake_ordered_prepared [order_intros]:
  "stake_ordered cs \<Longrightarrow> stake_ordered (List.map_filter prepared cs)"
proof (induction cs)
  case Nil
  then show ?case by (simp add: map_filter_simps)
next
  case (Cons c cs)
  have keep: "offline d = offline c \<and> combined d = combined c" if "prepared c = Some d" for c d
    using that by (auto simp: prepared_def combined_def split: if_splits status.splits)
  have tail: "combined d \<le> combined c"
    if "d \<in> set (List.map_filter prepared cs)" "\<not> offline d" "\<not> offline c" for d
  proof -
    from that(1) obtain c' where "c' \<in> set cs" "prepared c' = Some d"
      by (auto simp: List.map_filter_def)
    with Cons.prems that keep show ?thesis by (force simp: stake_ordered_def)
  qed
  have "stake_ordered (List.map_filter prepared cs)"
    using Cons by (auto simp: stake_ordered_def split: if_splits)
  with tail keep show ?case
    by (auto simp: map_filter_simps stake_ordered_def split: option.split)
qed

lemma stake_ordered_slashed [order_intros]:
  "stake_ordered cs \<Longrightarrow> stake_ordered (slashed now hit cs)"
  by (simp add: slashed_def)

section \<open>Preservation\<close>

lemma call_stake_ordered:
  assumes "call_body cfg org call s = (Inr u, t)" "stake_ordered (proposed_candidates s)"
  shows "stake_ordered (proposed_candidates t)"
proof (cases call)
  case (BondCorrection b)
  with assms show ?thesis
    by (auto dest!: bond_correction_ok simp: find_candidate_def
        intro!: stake_ordered_update_offline)
qed (use assms in \<open>auto dest!: call_ok intro!: order_intros simp: combined_def\<close>)

lemma end_session_stake_ordered:
  assumes "stake_ordered (proposed_candidates s)"
  shows "stake_ordered (proposed_candidates (end_session_spec cfg s vs))"
  using assms
  by (auto simp: end_session_spec_def Let_def surviving_def combined_def waitlisted_def promoted_def
      intro!: order_intros split: if_splits)

lemma on_initialize_stake_ordered:
  "stake_ordered (proposed_candidates s) \<Longrightarrow>
   stake_ordered (proposed_candidates (on_initialize cfg author s))"
  by (auto simp: on_initialize_def add_actual_author_def record_authored_block_def combined_def
      intro!: order_intros split: option.split)

lemma chain_step_stake_ordered:
  assumes inv: "staking_inv cfg desired s" and ordered: "stake_ordered (proposed_candidates s)"
    and step: "chain_step cfg act s t"
  shows "stake_ordered (proposed_candidates t)"
  using step
proof (cases rule: chain_step.cases)
  case (step_extrinsic org call r)
  with ordered show ?thesis
    by (cases r) (auto simp: dispatch_def with_storage_layer_Inl intro: call_stake_ordered)
next
  case step_end_session
  from end_session_is_spec [OF staking_inv_once [OF inv] step_end_session(2)] ordered
  show ?thesis by (auto intro: end_session_stake_ordered)
next
  case (step_new_session vs)
  with new_session_eq [OF staking_inv_once [OF inv]] ordered show ?thesis
    by (auto intro!: order_intros simp: combined_def split: if_splits)
qed (use ordered in \<open>simp_all add: on_initialize_stake_ordered\<close>)

lemma genesis_stake_ordered:
  "at_genesis cfg desired s \<Longrightarrow> stake_ordered (proposed_candidates s)"
  by (auto simp: at_genesis_def genesis_build_def empty_chain_def split: if_splits)

interpretation ordered: relative_invariant
  "at_genesis cfg desired" "steps_to cfg" "staking_inv cfg desired"
  "\<lambda>s. stake_ordered (proposed_candidates s)"
  for cfg :: "'c staking_config" and desired :: "account_id list"
  by unfold_locales (auto simp: steps_to_def genesis_stake_ordered intro: chain_step_stake_ordered)

end
