(* ===== verification/Session_Interface.thy ===== *)
theory Session_Interface
  imports Prelude
begin

text \<open>
  The contract between a session manager and the session machinery that drives it.
  \<open>pallet_session\<close> is not part of the repository; its documentation fixes the order of
  the calls at a session boundary (\<open>end_session\<close> of the old session, the queued set
  becomes the active one, \<open>start_session\<close>, \<open>new_session\<close> for the set to queue), which
  \<open>boundary\<close> composes. The locale states what the machinery needs of a manager: hooks that
  never panic, and a bounded validator set each time.
\<close>

definition boundary ::
    "('s \<Rightarrow> 's option) \<Rightarrow> ('v list \<Rightarrow> 's \<Rightarrow> 's) \<Rightarrow> ('s \<Rightarrow> 's) \<Rightarrow> ('s \<Rightarrow> 'v list option \<times> 's) \<Rightarrow>
     'v list \<Rightarrow> 's \<Rightarrow> ('v list option \<times> 's) option" where
  "boundary fin install start new active s =
     (case fin s of None \<Rightarrow> None | Some t \<Rightarrow> Some (new (start (install active t))))"

text \<open>A run of boundaries, one active set each.\<close>

fun boundaries ::
    "('v list \<Rightarrow> 's \<Rightarrow> ('v list option \<times> 's) option) \<Rightarrow> 'v list list \<Rightarrow> 's \<Rightarrow> 's option" where
  "boundaries step [] s = Some s"
| "boundaries step (active # later) s =
     (case step active s of None \<Rightarrow> None | Some (_, t) \<Rightarrow> boundaries step later t)"

lemma boundaries_append:
  "boundaries step (xs @ ys) s =
   (case boundaries step xs s of None \<Rightarrow> None | Some t \<Rightarrow> boundaries step ys t)"
  by (induction xs arbitrary: s) (auto split: option.split)

locale session_manager =
  fixes fin :: "'s \<Rightarrow> 's option" and install :: "'v list \<Rightarrow> 's \<Rightarrow> 's"
    and start :: "'s \<Rightarrow> 's" and new :: "'s \<Rightarrow> 'v list option \<times> 's"
    and good :: "'s \<Rightarrow> bool" and limit :: nat
  assumes fin_total: "good s \<Longrightarrow> \<exists>t. fin s = Some t \<and> good t"
    and install_good: "good s \<Longrightarrow> good (install vs s)"
    and start_good: "good s \<Longrightarrow> good (start s)"
    and new_bounded: "good s \<Longrightarrow> new s = (r, t) \<Longrightarrow> good t \<and> (\<exists>vs. r = Some vs \<and> length vs \<le> limit)"
begin

lemma boundary_total:
  assumes "good s"
  shows "\<exists>vs t. boundary fin install start new active s = Some (Some vs, t) \<and>
    good t \<and> length vs \<le> limit"
proof -
  from fin_total [OF assms] obtain t where t: "fin s = Some t" "good t" by blast
  obtain r u where new: "new (start (install active t)) = (r, u)" by fastforce
  from new_bounded [OF _ new] t show ?thesis
    by (auto simp: boundary_def new start_good install_good)
qed

lemma boundaries_total:
  "good s \<Longrightarrow> \<exists>t. boundaries (boundary fin install start new) actives s = Some t \<and> good t"
proof (induction actives arbitrary: s)
  case Nil
  then show ?case by simp
next
  case (Cons active actives)
  from boundary_total [OF Cons.prems, of active] obtain vs t where
    "boundary fin install start new active s = Some (Some vs, t)" "good t" by blast
  with Cons.IH [of t] show ?case by simp
qed

end

end
