(* ===== verification/Staking_Rotation.thy ===== *)
theory Staking_Rotation
  imports Staking_Order Session_Interface
begin

text \<open>
  Session boundaries of the staking pallet as \<open>pallet_session\<close> drives them: the pallet is
  a session manager in the sense of \<open>session_manager\<close>, and the lemmas follow one
  candidate through a boundary.
\<close>

section \<open>The pallet as a session manager\<close>

definition install_validators :: "account_id list \<Rightarrow> 'c chain \<Rightarrow> 'c chain" where
  "install_validators vs s = s\<lparr>validators := vs\<rparr>"

definition rotation ::
    "'c staking_config \<Rightarrow> account_id list \<Rightarrow> 'c chain \<Rightarrow>
     (account_id list option \<times> 'c chain) option" where
  "rotation cfg = boundary (end_session cfg) install_validators start_session new_session"

lemma end_session_lawful:
  "lawful_codec cfg \<Longrightarrow> registered_once s \<Longrightarrow>
   end_session cfg s = Some (end_session_spec cfg s (validators s))"
  by (simp add: end_session_eq)

lemma install_staking_inv:
  "staking_inv cfg desired s \<Longrightarrow> staking_inv cfg desired (install_validators vs s)"
  by (simp add: install_validators_def staking_inv_def pipeline_inv_def)

lemma lawful_session_manager:
  assumes codec: "lawful_codec cfg"
  shows "session_manager (end_session cfg) install_validators start_session new_session
    (staking_inv cfg desired) (unat (max_candidates cfg))"
proof
  fix s :: "'a chain" and r t
  assume inv: "staking_inv cfg desired s"
  show "\<exists>t. end_session cfg s = Some t \<and> staking_inv cfg desired t"
    using end_session_lawful [OF codec staking_inv_once [OF inv]] end_session_staking_inv [OF inv]
    by blast
  show "staking_inv cfg desired (start_session s)"
    using inv by (simp add: start_session_def)
  show "staking_inv cfg desired (install_validators vs s)" for vs
    using inv by (rule install_staking_inv)
  assume "new_session s = (r, t)"
  with inv new_session_eq [OF staking_inv_once [OF inv]]
  show "staking_inv cfg desired t \<and> (\<exists>vs. r = Some vs \<and> length vs \<le> unat (max_candidates cfg))"
    using new_session_staking_inv [OF inv] by (auto simp: staking_inv_def pipeline_inv_def)
qed

text \<open>The runtime's configuration, over any bank, with the 32-byte account codec.\<close>

lemma runtime_codec: "lawful_codec (xode_staking_config C account_bytes account_of_bytes)"
  by (simp add: lawful_codec_def xode_staking_config_def account_codec)

interpretation runtime_session: session_manager
  "end_session (xode_staking_config C account_bytes account_of_bytes)" install_validators
  start_session new_session
  "staking_inv (xode_staking_config C account_bytes account_of_bytes) desired"
  "unat (max_candidates (xode_staking_config C account_bytes account_of_bytes))"
  for C :: "'c currency_ops" and desired :: "account_id list"
  by (rule lawful_session_manager) (rule runtime_codec)

section \<open>One candidate across a boundary\<close>

lemma set_slashed: "set (slashed now hit cs) = marked now hit ` set cs"
proof (cases "list_ex hit cs")
  case False
  then have "set (map (marked now hit) cs) = set cs"
    by (rule arg_cong [OF marked_none])
  with False show ?thesis by (simp add: slashed_def)
qed (simp add: slashed_def)

lemma once_unique:
  "distinct (map who cs) \<Longrightarrow> c \<in> set cs \<Longrightarrow> d \<in> set cs \<Longrightarrow> who c = who d \<Longrightarrow> c = d"
  by (simp add: distinct_map inj_on_def)

text \<open>A pass of the pipeline moves a dropping candidate one step down.\<close>

fun demoted :: "status \<Rightarrow> status option" where
  "demoted Queuing = Some Waiting"
| "demoted Authoring = Some Queuing"
| "demoted _ = None"

definition promoted_status :: "'c chain \<Rightarrow> candidate_info \<Rightarrow> status" where
  "promoted_status s c =
     (if status c = Waiting \<and> who c \<in> set (waiting_candidates s) then Queuing else status c)"

lemma prepared_dropping:
  "dropping c \<Longrightarrow> prepared c = map_option (\<lambda>st. c\<lparr>status := st\<rparr>) (demoted (status c))"
  by (cases "status c") (simp_all add: prepared_def)

lemma surviving_dropping:
  assumes once: "registered_once s" and c: "c \<in> set (proposed_candidates s)" "dropping c"
    and e: "e \<in> set (surviving cfg s vs)" "who e = who c"
  shows "dropping e \<and> demoted (promoted_status s c) = Some (status e)"
proof -
  from e(1) obtain c' where c': "c' \<in> set (proposed_candidates s)"
    and p: "prepared (marked (block_number s) (slash_hit cfg s vs)
      (promoted (waiting_candidates s) c')) = Some e"
    by (auto simp: surviving_def List.map_filter_def set_slashed)
  have "who c' = who c" using prepared_who [OF p] e(2) by simp
  with once_unique [OF once c' c(1)] have "c' = c" by simp
  define m where "m = marked (block_number s) (slash_hit cfg s vs) (promoted (waiting_candidates s) c)"
  have m: "dropping m" "status m = promoted_status s c"
    using c(2) by (auto simp: m_def marked_def promoted_def dropping_def promoted_status_def)
  with p \<open>c' = c\<close> obtain st where st: "demoted (promoted_status s c) = Some st" "e = m\<lparr>status := st\<rparr>"
    by (auto simp: m_def [symmetric] prepared_dropping)
  with m(1) show ?thesis by (simp add: dropping_def)
qed

lemma end_session_dropping:
  fixes cfg :: "'c staking_config" and s :: "'c chain" and vs :: "account_id list"
  assumes once: "registered_once s" and des: "a \<notin> set (desired_candidates s)"
    and all: "\<forall>c\<in>set (proposed_candidates s). who c = a \<longrightarrow> dropping c"
  defines "t \<equiv> end_session_spec cfg s vs"
  shows "a \<notin> set (waiting_candidates t) \<and>
    (\<forall>d\<in>set (proposed_candidates t). who d = a \<longrightarrow> dropping d \<and>
       (\<exists>c\<in>set (proposed_candidates s).
          who c = a \<and> demoted (promoted_status s c) = Some (status d)))"
proof -
  let ?cs = "surviving cfg s vs"
  have drop: "dropping e \<and> (\<exists>c\<in>set (proposed_candidates s).
      who c = a \<and> demoted (promoted_status s c) = Some (status e))"
    if e: "e \<in> set ?cs" "who e = a" for e
  proof -
    from e obtain c where c: "c \<in> set (proposed_candidates s)" "who c = a"
      using set_map_filter_prepared
        [of "slashed (block_number s) (slash_hit cfg s vs) (map (promoted (waiting_candidates s)) (proposed_candidates s))"]
      by (fastforce simp: surviving_def set_slashed)
    with surviving_dropping [OF once c(1) _ e(1)] all e(2) show ?thesis by auto
  qed
  have new: "a \<notin> set (newcomers des ?cs)" for des
    using drop by (auto simp: newcomers_def eligible_def dropping_def)
  then have "a \<notin> set (waiting_candidates t)"
    using des by (auto simp: t_def end_session_spec_def Let_def waiting_spec_def dest!: in_set_takeD)
  moreover have "waitlisted (take k (newcomers des ?cs)) e = e" if "who e = a" for e k des
    using new [of des] that by (auto simp: waitlisted_def dest: in_set_takeD)
  then have "dropping d \<and> (\<exists>c\<in>set (proposed_candidates s).
      who c = a \<and> demoted (promoted_status s c) = Some (status d))"
    if d: "d \<in> set (proposed_candidates t)" "who d = a" for d
    using d drop by (auto simp: t_def end_session_spec_def Let_def)
  ultimately show ?thesis by blast
qed

lemma rotation_eq:
  assumes "lawful_codec cfg" "staking_inv cfg desired s" "rotation cfg active s = Some (r, t)"
  defines "u \<equiv> end_session_spec cfg s (validators s)"
  shows "staking_inv cfg desired t \<and> r = Some (invulnerables u) \<and>
    t = u\<lparr>validators := active,
          proposed_candidates := map (\<lambda>c. if who c \<in> set (invulnerables u)
            then c\<lparr>status := Authoring\<rparr> else c) (proposed_candidates u)\<rparr>"
proof -
  have inv: "staking_inv cfg desired (install_validators active u)"
    unfolding u_def using assms(2) by (intro install_staking_inv end_session_spec_staking_inv)
  have new: "new_session (install_validators active u) = (r, t)"
    using assms(3) end_session_lawful [OF assms(1) staking_inv_once [OF assms(2)]]
    by (simp add: rotation_def boundary_def start_session_def u_def)
  from new_session_staking_inv [OF inv new] new new_session_eq [OF staking_inv_once [OF inv]]
  show ?thesis by (auto simp: install_validators_def)
qed

lemma rotation_bank:
  "lawful_codec cfg \<Longrightarrow> staking_inv cfg desired s \<Longrightarrow> rotation cfg active s = Some (r, t) \<Longrightarrow>
   bank t = bank s"
  using rotation_eq [of cfg desired s active r t] by (simp add: end_session_spec_def Let_def)

text \<open>What one boundary leaves of an account whose entry is being dropped.\<close>

lemma rotation_dropping:
  assumes codec: "lawful_codec cfg" and inv: "staking_inv cfg desired s"
    and rot: "rotation cfg active s = Some (r, t)" and a: "a \<notin> set desired"
    and all: "\<forall>c\<in>set (proposed_candidates s). who c = a \<longrightarrow> dropping c"
  shows "a \<notin> set (waiting_candidates t) \<and>
    (\<forall>d\<in>set (proposed_candidates t). who d = a \<longrightarrow> dropping d \<and>
       (\<exists>c\<in>set (proposed_candidates s). \<exists>st.
          who c = a \<and> demoted (promoted_status s c) = Some st \<and>
          status d = (if a \<in> set (invulnerables t) then Authoring else st)))"
proof -
  define u where "u = end_session_spec cfg s (validators s)"
  have "a \<notin> set (desired_candidates s)"
    using a inv by (simp add: staking_inv_def pipeline_inv_def)
  from end_session_dropping [OF staking_inv_once [OF inv] this all, of cfg "validators s"]
  have w: "a \<notin> set (waiting_candidates u)"
    and u: "d \<in> set (proposed_candidates u) \<Longrightarrow> who d = a \<Longrightarrow> dropping d \<and>
      (\<exists>c\<in>set (proposed_candidates s).
         who c = a \<and> demoted (promoted_status s c) = Some (status d))" for d
    by (auto simp: u_def)
  from rotation_eq [OF codec inv rot]
  have t: "t = u\<lparr>validators := active,
      proposed_candidates := map (\<lambda>c. if who c \<in> set (invulnerables u)
        then c\<lparr>status := Authoring\<rparr> else c) (proposed_candidates u)\<rparr>"
    by (simp add: u_def)
  have "dropping d \<and> (\<exists>c\<in>set (proposed_candidates s). \<exists>st.
      who c = a \<and> demoted (promoted_status s c) = Some st \<and>
      status d = (if a \<in> set (invulnerables t) then Authoring else st))"
    if d: "d \<in> set (proposed_candidates t)" "who d = a" for d
  proof -
    from d obtain e where e: "e \<in> set (proposed_candidates u)" "who e = a"
      "d = (if a \<in> set (invulnerables u) then e\<lparr>status := Authoring\<rparr> else e)"
      by (auto simp: t split: if_splits)
    from u [OF e(1,2)] obtain c where "c \<in> set (proposed_candidates s)" "who c = a"
      "demoted (promoted_status s c) = Some (status e)" "dropping e" by blast
    moreover have "dropping d" "status d = (if a \<in> set (invulnerables t) then Authoring else status e)"
      using e(3) \<open>dropping e\<close> by (auto simp: t dropping_def)
    ultimately show ?thesis by blast
  qed
  moreover have "a \<notin> set (waiting_candidates t)"
    using w by (simp add: t)
  ultimately show ?thesis by blast
qed

lemma rotation_invulnerables:
  assumes codec: "lawful_codec cfg" and inv: "staking_inv cfg desired s"
    and rot: "rotation cfg active s = Some (r, t)" and des: "desired \<noteq> []"
  shows "r = Some (waiting_candidates s) \<and> invulnerables t = waiting_candidates s"
proof -
  have "waiting_candidates s \<noteq> []"
    using inv des by (auto simp: staking_inv_def pipeline_inv_def)
  with rotation_eq [OF codec inv rot] show ?thesis
    by (simp add: end_session_spec_def Let_def)
qed

text \<open>An account is fading when its entry, if any, is being dropped with a status in a given
  set. Once it is off the waiting list, every boundary moves the set one step down.\<close>

definition fading :: "account_id \<Rightarrow> status set \<Rightarrow> 'c chain \<Rightarrow> bool" where
  "fading a S s \<longleftrightarrow>
     (\<forall>c\<in>set (proposed_candidates s). who c = a \<longrightarrow> dropping c \<and> status c \<in> S)"

definition step_down :: "status set \<Rightarrow> status set" where
  "step_down S = {st. \<exists>st'\<in>S. demoted st' = Some st}"

lemma step_down_thrice: "step_down (step_down (step_down UNIV)) = {}"
proof -
  have "step_down UNIV = {Waiting, Queuing}"
    by (auto simp: step_down_def elim: demoted.elims) (metis demoted.simps(1,2))+
  moreover have "step_down {Waiting, Queuing} = {Waiting}" "step_down {Waiting} = {}"
    by (auto simp: step_down_def)
  ultimately show ?thesis by simp
qed

lemma rotation_fading:
  assumes codec: "lawful_codec cfg" and inv: "staking_inv cfg desired s"
    and rot: "rotation cfg active s = Some (r, t)" and des: "desired \<noteq> []" "a \<notin> set desired"
    and fading: "fading a S s"
  shows "staking_inv cfg desired t \<and> a \<notin> set (waiting_candidates t) \<and> fading a UNIV t \<and>
    (a \<notin> set (waiting_candidates s) \<longrightarrow>
       a \<notin> set (invulnerables t) \<and> fading a (step_down S) t)"
proof -
  have drop: "\<forall>c\<in>set (proposed_candidates s). who c = a \<longrightarrow> dropping c"
    using fading by (simp add: fading_def)
  note d = rotation_dropping [OF codec inv rot des(2) drop]
  have invul: "invulnerables t = waiting_candidates s"
    using rotation_invulnerables [OF codec inv rot des(1)] by simp
  have "status x \<in> step_down S"
    if x: "x \<in> set (proposed_candidates t)" "who x = a" and out: "a \<notin> set (waiting_candidates s)" for x
  proof -
    from d x out invul obtain c where "c \<in> set (proposed_candidates s)" "who c = a"
      "demoted (promoted_status s c) = Some (status x)" by auto
    moreover from this out have "promoted_status s c = status c" by (simp add: promoted_status_def)
    ultimately show ?thesis using fading by (auto simp: step_down_def fading_def)
  qed
  with d invul rotation_eq [OF codec inv rot, THEN conjunct1] show ?thesis
    by (simp add: fading_def)
qed

section \<open>The waiting list after a boundary\<close>

lemma newcomers_waitlisted [simp]:
  "newcomers des (map (waitlisted new) cs) = newcomers des cs"
proof -
  have "eligible (waitlisted new c) = eligible c" for c
    by (simp add: waitlisted_def eligible_def)
  then show ?thesis
    by (simp add: newcomers_def filter_map comp_def)
qed

lemma end_session_waiting:
  "waiting_candidates (end_session_spec cfg s vs) =
   waiting_spec (unat (max_candidates cfg)) (desired_candidates s)
     (proposed_candidates (end_session_spec cfg s vs))"
  by (simp add: end_session_spec_def Let_def waiting_spec_def)

text \<open>A bounded prefix of a list ordered by stake leaves out nobody with more stake.\<close>

lemma newcomers_by_stake:
  assumes ordered: "stake_ordered cs"
    and c: "c \<in> set cs" "eligible c" "who c \<notin> set des" "who c \<in> set (take k (newcomers des cs))"
    and d: "d \<in> set cs" "eligible d" "who d \<notin> set des" "who d \<notin> set (take k (newcomers des cs))"
    and once: "distinct (map who cs)"
  shows "combined d \<le> combined c"
proof -
  define L where "L = filter (\<lambda>c. eligible c \<and> who c \<notin> set des) cs"
  have new: "newcomers des cs = map who L"
    by (simp add: newcomers_def L_def)
  have sorted: "sorted_wrt (\<lambda>c d. combined d \<le> combined c) L"
  proof -
    have "L = filter (\<lambda>c. eligible c \<and> who c \<notin> set des) (filter (\<lambda>c. \<not> offline c) cs)"
      by (auto simp: L_def eligible_def intro: filter_cong)
    with ordered show ?thesis
      by (simp only: stake_ordered_def sorted_wrt_filter)
  qed
  have dist: "distinct (map who L)"
    using once by (simp add: L_def distinct_map_filter)
  from c(4) obtain i where i: "i < k" "i < length L" "who (L ! i) = who c"
    by (auto simp: new in_set_conv_nth)
  have "c \<in> set L" "d \<in> set L" using c d by (auto simp: L_def)
  with i once_unique [OF dist, of "L ! i" c] have ic: "L ! i = c" by simp
  from \<open>d \<in> set L\<close> obtain j where j: "j < length L" "L ! j = d"
    by (auto simp: in_set_conv_nth)
  have "\<not> j < k"
    using d(4) j by (auto simp: new in_set_conv_nth)
  with i j ic sorted_wrt_nth_less [OF sorted, of i j] show ?thesis by simp
qed

lemma rotation_total:
  assumes "lawful_codec cfg" "staking_inv cfg desired s"
  shows "\<exists>r t. rotation cfg active s = Some (r, t) \<and> staking_inv cfg desired t"
  using session_manager.boundary_total [OF lawful_session_manager [OF assms(1)] assms(2)]
  unfolding rotation_def by blast

section \<open>An eligible candidate gets his seat\<close>

lemma length_surviving: "length (surviving cfg s vs) \<le> length (proposed_candidates s)"
proof -
  have "length (List.map_filter prepared cs) \<le> length cs" for cs
    by (simp add: List.map_filter_def)
  then have "length (surviving cfg s vs) \<le>
      length (slashed (block_number s) (slash_hit cfg s vs)
        (map (promoted (waiting_candidates s)) (proposed_candidates s)))"
    unfolding surviving_def .
  then show ?thesis by (simp add: slashed_def split: if_splits)
qed

lemma surviving_eligible:
  assumes "c \<in> set (proposed_candidates s)" "eligible c" "\<not> slash_hit cfg s vs c"
  shows "\<exists>e\<in>set (surviving cfg s vs). who e = who c \<and> eligible e"
proof -
  let ?p = "promoted (waiting_candidates s) c"
  have "\<not> slash_hit cfg s vs ?p"
    using assms(3) by (simp add: slash_hit_def is_stale_def promoted_def)
  then have "marked (block_number s) (slash_hit cfg s vs) ?p = ?p"
    by (simp add: marked_def)
  moreover have el: "eligible ?p"
    using assms(2) by (simp add: eligible_def promoted_def)
  then have "prepared ?p = Some ?p"
    by (simp add: prepared_def eligible_def dropping_def)
  ultimately have "?p \<in> set (surviving cfg s vs)"
    using assms(1) unfolding surviving_def List.map_filter_def by (force simp: set_slashed)
  with el show ?thesis by (intro bexI [of _ ?p]) simp_all
qed

lemma eligible_waitlisted:
  assumes "c \<in> set (proposed_candidates s)" "eligible c" "\<not> slash_hit cfg s vs c"
    and "length (desired_candidates s) + length (proposed_candidates s) \<le> unat (max_candidates cfg)"
  shows "who c \<in> set (waiting_candidates (end_session_spec cfg s vs))"
proof -
  let ?cs = "surviving cfg s vs" and ?des = "desired_candidates s"
  have "length (newcomers ?des ?cs) \<le> length ?cs"
    by (simp add: newcomers_def)
  then have "length (?des @ newcomers ?des ?cs) \<le> unat (max_candidates cfg)"
    using length_surviving [of cfg s vs] assms(4) by simp
  then have "waiting_spec (unat (max_candidates cfg)) ?des ?cs = ?des @ newcomers ?des ?cs"
    by (simp add: waiting_spec_def)
  moreover have "who c \<in> set (?des @ newcomers ?des ?cs)"
    using surviving_eligible [OF assms(1-3)] by (auto simp: newcomers_def image_iff)
  ultimately show ?thesis
    by (simp add: end_session_spec_def Let_def)
qed

end
