(* ===== verification/Staking_Theorems.thy ===== *)
theory Staking_Theorems
  imports Staking_Rotation Staking_Solvency
begin

text \<open>
  The properties of \<open>pallet-xode-staking\<close> as a whole: what holds in every state the
  chain can reach, what a session boundary does, and what the calls promise to the accounts
  that use them. Each is followed by an application to a concrete chain.
\<close>

section \<open>Reachable demonstration states\<close>

lemma demo_genesis_at: "at_genesis demo_config [1] (demo_genesis [1])"
  by (simp add: at_genesis_def genesis_build_def demo_simps)

lemma demo_reach_genesis: "reachable demo_config [1] (demo_genesis [1])"
  by (rule reach_init) (rule demo_genesis_at)

definition demo_registered :: "ledger chain" where
  "demo_registered = (demo_chain [1] [demo_candidate 2 0])\<lparr>events := [CandidateRegistered 2]\<rparr>"

lemma demo_registered_step:
  "chain_step demo_config (Extrinsic (System (Signed 2)) RegisterCandidate)
     (demo_genesis [1]) demo_registered"
  by (rule step_extrinsic [where r = "Inr ()"])
    (simp add: register_candidate_def demo_registered_def demo_simps deposit_event_def try_push_def)

lemma demo_reach_registered: "reachable demo_config [1] demo_registered"
  using reach_step [OF demo_reach_genesis] demo_registered_step by (auto simp: steps_to_def)

lemma demo_admissible_registered:
  "reach (at_genesis demo_config [1]) (admissible_step demo_config) demo_registered"
proof (rule reach_step)
  show "reach (at_genesis demo_config [1]) (admissible_step demo_config) (demo_genesis [1])"
    by (rule reach_init) (rule demo_genesis_at)
  show "admissible_step demo_config (demo_genesis [1]) demo_registered"
    using demo_registered_step by (auto simp: admissible_step_def admissible_def)
qed

lemma demo_registered_sel [simp]:
  "proposed_candidates demo_registered = [demo_candidate 2 0]"
  "waiting_candidates demo_registered = [1]" "invulnerables demo_registered = [1]"
  "desired_candidates demo_registered = [1]" "delegations demo_registered = (\<lambda>_. None)"
  "bank demo_registered = demo_ledger" "validators demo_registered = []"
  "block_number demo_registered = 0" "actual_authors demo_registered = []"
  by (simp_all add: demo_registered_def demo_simps)

lemma demo_candidate_sel [simp]:
  "who (demo_candidate a b) = a" "bond (demo_candidate a b) = b"
  "total_stake (demo_candidate a b) = 0" "offline (demo_candidate a b) = False"
  "leaving (demo_candidate a b) = False" "status (demo_candidate a b) = Online"
  "last_updated (demo_candidate a b) = 0" "last_authored (demo_candidate a b) = 0"
  "commission (demo_candidate a b) = 0"
  by (simp_all add: demo_candidate_def)

text \<open>Account 3 stakes 70 behind candidate 2, registers too, and goes offline.\<close>

lemma call_step: "call_body cfg org call s = (Inr (), t) \<Longrightarrow> chain_step cfg (Extrinsic org call) s t"
  by (rule step_extrinsic [where r = "Inr ()"]) simp

lemma reach_call:
  "reachable cfg desired s \<Longrightarrow> call_body cfg org call s = (Inr (), t) \<Longrightarrow> reachable cfg desired t"
  by (erule reach_step) (auto simp: steps_to_def dest!: call_step)

lemma reach_admissible_call:
  "reach (at_genesis cfg desired) (admissible_step cfg) s \<Longrightarrow>
   call_body cfg org call s = (Inr (), t) \<Longrightarrow> admissible cfg s (Extrinsic org call) \<Longrightarrow>
   reach (at_genesis cfg desired) (admissible_step cfg) t"
  by (erule reach_step) (auto simp: admissible_step_def dest!: call_step)

definition demo_backer :: ledger where
  "demo_backer = \<lparr>l_free = (\<lambda>_. 1000000000000000)(3 := 999999999999930),
                  l_reserved = (\<lambda>_. 0)(3 := 70)\<rparr>"

definition demo_staked :: "ledger chain" where
  "demo_staked = demo_registered
     \<lparr>proposed_candidates := [(demo_candidate 2 0)\<lparr>total_stake := 70\<rparr>],
      delegations := (\<lambda>_. None)(2 := Some [\<lparr>delegator = 3, stake = 70\<rparr>]),
      bank := demo_backer, events := [CandidateRegistered 2, DelegationAdded 3 2 70]\<rparr>"

lemma demo_staked_sel [simp]:
  "proposed_candidates demo_staked = [(demo_candidate 2 0)\<lparr>total_stake := 70\<rparr>]"
  "waiting_candidates demo_staked = [1]" "invulnerables demo_staked = [1]"
  "desired_candidates demo_staked = [1]"
  "delegations demo_staked = (\<lambda>_. None)(2 := Some [\<lparr>delegator = 3, stake = 70\<rparr>])"
  "bank demo_staked = demo_backer" "validators demo_staked = []"
  "block_number demo_staked = 0" "actual_authors demo_staked = []"
  by (simp_all add: demo_staked_def)

lemma demo_staked_call:
  "call_body demo_config (System (Signed 3)) (StakeCandidate 2 70) demo_registered =
   (Inr (), demo_staked)"
  by (simp add: stake_candidate_def demo_staked_def demo_registered_def demo_simps
      ledger_reserve_def demo_backer_def add_delegation_def try_push_def recompute_total_stake_def
      find_candidate_def total_of_def sort_proposed_candidates_def modify_candidate_def
      deposit_event_def Let_def)

lemma demo_reach_staked: "reachable demo_config [1] demo_staked"
  using demo_reach_registered demo_staked_call by (rule reach_call)

lemma demo_admissible_staked:
  "reach (at_genesis demo_config [1]) (admissible_step demo_config) demo_staked"
  using demo_admissible_registered demo_staked_call
  by (rule reach_admissible_call) (simp add: admissible_def)

definition demo_both :: "ledger chain" where
  "demo_both = demo_staked
     \<lparr>proposed_candidates := [(demo_candidate 2 0)\<lparr>total_stake := 70\<rparr>, demo_candidate 3 0],
      events := [CandidateRegistered 2, DelegationAdded 3 2 70, CandidateRegistered 3]\<rparr>"

lemma demo_both_call:
  "call_body demo_config (System (Signed 3)) RegisterCandidate demo_staked = (Inr (), demo_both)"
  by (simp add: register_candidate_def demo_both_def demo_staked_def demo_registered_def
      demo_simps deposit_event_def try_push_def Let_def)

lemma demo_reach_both: "reachable demo_config [1] demo_both"
  using demo_reach_staked demo_both_call by (rule reach_call)

section \<open>Every reachable state\<close>

text \<open>C1: in every state the chain can reach, in whatever order calls, hooks, blocks and
  other pallets act, the candidate registry is well formed: one entry per account, within
  the bound, bonds zero or at least the minimum, no total stake above the delegations on
  record, commissions at most 100, no entry \<open>Offline\<close>, no timestamp in the future.\<close>

theorem reachable_candidates_well_formed:
  assumes "reachable cfg desired s"
  shows "distinct (map who (proposed_candidates s)) \<and>
    length (proposed_candidates s) \<le> unat (max_candidates cfg) \<and>
    (\<forall>c\<in>set (proposed_candidates s).
       (bond c = 0 \<or> min_candidate_bond cfg \<le> bond c) \<and>
       unat (total_stake c) \<le> stake_sum (delegations s (who c)) \<and>
       commission c \<le> 100 \<and> status c \<noteq> Offline \<and>
       last_updated c \<le> block_number s \<and> last_authored c \<le> block_number s)"
  using staking.inv_reach [OF assms]
  by (auto simp: staking_inv_def candidates_inv_def candidate_ok_def)

theorem reachable_candidates_well_formed_witness:
  "length (proposed_candidates demo_staked) \<le> 50 \<and>
   unat (total_stake (hd (proposed_candidates demo_staked))) \<le> stake_sum (delegations demo_staked 2) \<and>
   status (hd (proposed_candidates demo_staked)) \<noteq> Offline"
  using reachable_candidates_well_formed [OF demo_reach_staked] by simp

text \<open>C26: in every reachable state the delegation map is well formed: no empty vector, at
  most one delegation per delegator and candidate, within the bound, nobody behind
  himself.\<close>

theorem reachable_delegations_well_formed:
  assumes "reachable cfg desired s" and "delegations s cand = Some ds"
  shows "ds \<noteq> [] \<and> distinct (map delegator ds) \<and> length ds \<le> unat (max_delegations cfg) \<and>
    (\<forall>d\<in>set ds. delegator d \<noteq> cand)"
  using staking.inv_reach [OF assms(1)] assms(2)
  by (force simp: staking_inv_def delegations_inv_def delegation_ok_def)

theorem reachable_delegations_well_formed_witness:
  "\<exists>ds. delegations demo_staked 2 = Some ds \<and> distinct (map delegator ds) \<and> length ds \<le> 100"
proof -
  have ds: "delegations demo_staked 2 = Some [\<lparr>delegator = 3, stake = 70\<rparr>]" by simp
  from reachable_delegations_well_formed [OF demo_reach_staked ds] ds show ?thesis by auto
qed

text \<open>In every reachable state the set handed to the session pallet is a bounded list that
  contains every genesis validator; with at least one genesis validator it is never empty,
  and it has no duplicates if genesis had none.\<close>

theorem validator_set_sound:
  assumes "reachable cfg desired s" and "desired \<noteq> []"
  shows "\<exists>vs. fst (new_session s) = Some vs \<and> vs \<noteq> [] \<and> set desired \<subseteq> set vs \<and>
    length vs \<le> unat (max_candidates cfg) \<and> (distinct desired \<longrightarrow> distinct vs)"
  using staking.inv_reach [OF assms(1)] assms(2)
  by (auto simp: staking_inv_def pipeline_inv_def new_session_def Let_def)

theorem validator_set_sound_witness:
  "\<exists>vs. fst (new_session demo_registered) = Some vs \<and> 1 \<in> set vs \<and> length vs \<le> 50"
proof -
  have "[1::account_id] \<noteq> []" by simp
  from validator_set_sound [OF demo_reach_registered this] show ?thesis by auto
qed

text \<open>C25: in every reachable state the online candidates are stored in non-increasing order
  of \<open>bond + total_stake\<close>, although three dispatchables write the list without sorting.\<close>

theorem reachable_stake_order:
  assumes "reachable cfg desired s" and "i < j" and "j < length (proposed_candidates s)"
    and "\<not> offline (proposed_candidates s ! i)" and "\<not> offline (proposed_candidates s ! j)"
  shows "combined (proposed_candidates s ! j) \<le> combined (proposed_candidates s ! i)"
proof -
  have "stake_ordered (proposed_candidates s)"
    using ordered.both.inv_reach [OF assms(1)] by simp
  then show ?thesis
    using assms(2-5) by (rule stake_ordered_nth)
qed

theorem reachable_stake_order_witness:
  "combined (proposed_candidates demo_both ! 1) \<le> combined (proposed_candidates demo_both ! 0)"
  by (rule reachable_stake_order [OF demo_reach_both]) (simp_all add: demo_both_def)

text \<open>C3: solvency. Over any lawful currency, in every state reached by admissible steps (other
  pallets release no more than is reserved beyond this pallet's claims, no \<open>bond_correction\<close> beyond the caller's own
  bond), the bond and all stakes of every account are covered by its reserved balance.\<close>

theorem reserves_cover_claims:
  assumes "reservable_currency (currency cfg)"
    and "reach (at_genesis cfg desired) (admissible_step cfg) s"
  shows "bonded_in (proposed_candidates s) a + delegated (delegations s) a
    \<le> unat (reserved_balance (currency cfg) (bank s) a)"
proof -
  have "staking_bank cfg" using assms(1) by (rule staking_bank.intro)
  from staking_bank.backed_reach [OF this assms(2)] show ?thesis
    by (simp add: backed_def claims_def)
qed

theorem reserves_cover_claims_witness:
  "delegated (delegations demo_staked) 3 \<le> unat (l_reserved demo_backer 3)"
  using reserves_cover_claims [OF demo.bank_law demo_admissible_staked, of 3] by simp

section \<open>The session boundary\<close>

text \<open>C9: the four stages of \<open>end_session\<close>, loops over snapshots that write the storage they
  iterate, refine the declarative specification: promote, slash, drop and demote,
  re-waitlist. In particular the hook returns in every reachable state.\<close>

theorem end_session_refines:
  assumes "lawful_codec cfg" and "reachable cfg desired s"
  shows "end_session cfg s = Some (end_session_spec cfg s (validators s))"
  using assms(1) staking_inv_once [OF staking.inv_reach [OF assms(2)]]
  by (rule end_session_lawful)

theorem end_session_refines_witness:
  "\<exists>t. end_session demo_config demo_registered = Some t \<and> proposed_candidates t = [] \<and>
     waiting_candidates t = [1] \<and> invulnerables t = [1]"
proof -
  have "end_session demo_config demo_registered =
      Some (end_session_spec demo_config demo_registered (validators demo_registered))"
    by (rule end_session_refines [OF demo_codec demo_reach_registered])
  then show ?thesis
    by (simp add: end_session_spec_def surviving_def slashed_def slash_hit_def is_stale_def
        stale_validators_def promoted_def prepared_def dropping_def map_filter_simps waiting_spec_def
        newcomers_def Let_def)
qed

text \<open>C13: after \<open>end_session\<close> the waiting list is the genesis validators followed by every
  other bonded, online, staying candidate in storage order, cut off at the bound.\<close>

theorem waiting_list_exact:
  assumes "lawful_codec cfg" and reach: "reachable cfg desired s"
    and "end_session cfg s = Some t"
  shows "waiting_candidates t = take (unat (max_candidates cfg))
    (desired @ map who (filter (\<lambda>c. bond c \<noteq> 0 \<and> \<not> leaving c \<and> \<not> offline c \<and>
       who c \<notin> set desired) (proposed_candidates t)))"
proof -
  have inv: "staking_inv cfg desired s" by (rule staking.inv_reach [OF reach])
  with assms(1,3) have t: "t = end_session_spec cfg s (validators s)"
    by (simp add: end_session_lawful staking_inv_once)
  have "desired_candidates s = desired"
    using inv by (simp add: staking_inv_def pipeline_inv_def)
  then show ?thesis
    using end_session_waiting [of cfg s "validators s"]
    by (simp add: t waiting_spec_def newcomers_def eligible_def conj_assoc)
qed

theorem waiting_list_exact_witness:
  "\<exists>t. end_session demo_config demo_registered = Some t \<and>
     waiting_candidates t = take 50 ([1] @ map who (filter (\<lambda>c. bond c \<noteq> 0 \<and> \<not> leaving c \<and>
       \<not> offline c \<and> who c \<notin> set [1]) (proposed_candidates t)))"
proof -
  obtain t where t: "end_session demo_config demo_registered = Some t"
    using end_session_lawful [OF demo_codec, of demo_registered] by auto
  from waiting_list_exact [OF demo_codec demo_reach_registered t] t show ?thesis by simp
qed

text \<open>C10: selection by stake. After \<open>end_session\<close> in a reachable state, no candidate that was
  eligible and left out of the waiting list has more \<open>bond + total_stake\<close> than a
  non-genesis candidate that was put in.\<close>

theorem highest_stake_selected:
  assumes codec: "lawful_codec cfg" and reach: "reachable cfg desired s"
    and fin: "end_session cfg s = Some t"
    and c: "c \<in> set (proposed_candidates t)" "eligible c" "who c \<notin> set desired"
      "who c \<in> set (waiting_candidates t)"
    and d: "d \<in> set (proposed_candidates t)" "eligible d" "who d \<notin> set (waiting_candidates t)"
  shows "combined d \<le> combined c"
proof -
  have inv: "staking_inv cfg desired s" by (rule staking.inv_reach [OF reach])
  have t: "t = end_session_spec cfg s (validators s)"
    using fin end_session_lawful [OF codec staking_inv_once [OF inv]] by simp
  have invt: "staking_inv cfg desired t"
    unfolding t using inv by (rule end_session_spec_staking_inv)
  have "desired_candidates s = desired" "length desired \<le> unat (max_candidates cfg)"
    using inv by (auto simp: staking_inv_def pipeline_inv_def)
  then have w: "waiting_candidates t = desired @
      take (unat (max_candidates cfg) - length desired) (newcomers desired (proposed_candidates t))"
    using end_session_waiting [of cfg s "validators s"] by (simp add: t waiting_spec_def)
  have ordered: "stake_ordered (proposed_candidates t)"
    unfolding t using ordered.both.inv_reach [OF reach]
    by (intro end_session_stake_ordered) simp
  have cs: "who c \<in> set (take (unat (max_candidates cfg) - length desired)
      (newcomers desired (proposed_candidates t)))"
    using c(3,4) by (simp add: w)
  have ds: "who d \<notin> set desired" "who d \<notin> set (take (unat (max_candidates cfg) - length desired)
      (newcomers desired (proposed_candidates t)))"
    using d(3) by (simp_all add: w)
  show ?thesis
    by (rule newcomers_by_stake [OF ordered c(1-3) cs d(1,2) ds staking_inv_once [OF invt]])
qed

text \<open>A few seats: genesis validator 1, and candidates 2 and 3 with one and two minimum bonds.\<close>

definition seats :: "u32 \<Rightarrow> ledger staking_config" where
  "seats n = demo_config\<lparr>max_candidates := n\<rparr>"

lemma seats_sel [simp]:
  "currency (seats n) = ledger_ops" "max_candidates (seats n) = n"
  "min_candidate_bond (seats n) = 100000000000000" "max_staling_period (seats n) = 604800"
  by (simp_all add: seats_def)

lemma seats_codec [simp]: "lawful_codec (seats n)"
  using demo_codec by (simp add: seats_def lawful_codec_def)

definition rivals :: "ledger chain" where
  "rivals = (demo_chain [1] [demo_candidate 3 200000000000000, demo_candidate 2 100000000000000])
     \<lparr>bank := \<lparr>l_free = (\<lambda>_. 1000000000000000)(2 := 900000000000000, 3 := 800000000000000),
                l_reserved = (\<lambda>_. 0)(2 := 100000000000000, 3 := 200000000000000)\<rparr>,
      events := [CandidateRegistered 2, CandidateRegistered 3,
        CandidateBonded 2 100000000000000, CandidateBonded 3 200000000000000]\<rparr>"

lemma reach_rivals:
  assumes "2 \<le> unat n"
  shows "reachable (seats n) [1] rivals"
proof -
  let ?s1 = "(demo_chain [1] [demo_candidate 2 0])\<lparr>events := [CandidateRegistered 2]\<rparr>"
  let ?s2 = "(demo_chain [1] [demo_candidate 2 0, demo_candidate 3 0])
    \<lparr>events := [CandidateRegistered 2, CandidateRegistered 3]\<rparr>"
  let ?s3 = "(demo_chain [1] [demo_candidate 2 100000000000000, demo_candidate 3 0])
    \<lparr>bank := \<lparr>l_free = (\<lambda>_. 1000000000000000)(2 := 900000000000000),
               l_reserved = (\<lambda>_. 0)(2 := 100000000000000)\<rparr>,
     events := [CandidateRegistered 2, CandidateRegistered 3, CandidateBonded 2 100000000000000]\<rparr>"
  have "at_genesis (seats n) [1] (demo_genesis [1])"
    using assms by (simp add: at_genesis_def genesis_build_def demo_simps)
  then have "reachable (seats n) [1] (demo_genesis [1])"
    by (rule reach_init)
  moreover have "call_body (seats n) (System (Signed 2)) RegisterCandidate (demo_genesis [1]) = (Inr (), ?s1)"
    using assms by (simp add: register_candidate_def demo_simps deposit_event_def try_push_def)
  ultimately have "reachable (seats n) [1] ?s1" by (rule reach_call)
  moreover have "call_body (seats n) (System (Signed 3)) RegisterCandidate ?s1 = (Inr (), ?s2)"
    using assms by (simp add: register_candidate_def demo_simps deposit_event_def try_push_def)
  ultimately have "reachable (seats n) [1] ?s2" by (rule reach_call)
  moreover have "call_body (seats n) (System (Signed 2)) (BondCandidate 100000000000000) ?s2 = (Inr (), ?s3)"
    by (simp add: bond_candidate_def ensure_bond_allowed_def find_candidate_def adjust_reserve_def
        demo_simps ledger_reserve_def sat_sub_def deposit_event_def sort_proposed_candidates_def
        modify_candidate_def ranks_before_def combined_def sat_add_def Let_def)
  ultimately have "reachable (seats n) [1] ?s3" by (rule reach_call)
  moreover have "call_body (seats n) (System (Signed 3)) (BondCandidate 200000000000000) ?s3 = (Inr (), rivals)"
    by (simp add: bond_candidate_def ensure_bond_allowed_def find_candidate_def adjust_reserve_def
        demo_simps ledger_reserve_def sat_sub_def deposit_event_def sort_proposed_candidates_def
        modify_candidate_def ranks_before_def combined_def sat_add_def Let_def rivals_def)
  ultimately show ?thesis by (rule reach_call)
qed

theorem highest_stake_selected_witness:
  "\<exists>t c d. end_session (seats 2) rivals = Some t \<and> who c = 3 \<and> who d = 2 \<and>
     c \<in> set (proposed_candidates t) \<and> d \<in> set (proposed_candidates t) \<and>
     combined d \<le> combined c"
proof -
  let ?t = "end_session_spec (seats 2) rivals (validators rivals)"
  let ?c = "(demo_candidate 3 200000000000000)\<lparr>status := Waiting\<rparr>"
  let ?d = "demo_candidate 2 100000000000000"
  have t: "end_session (seats 2) rivals = Some ?t"
    using end_session_lawful [of "seats 2" rivals] by (simp add: rivals_def demo_simps)
  have eval: "proposed_candidates ?t = [?c, ?d]" "waiting_candidates ?t = [1, 3]"
    by (simp_all add: end_session_spec_def surviving_def slashed_def slash_hit_def is_stale_def
        stale_validators_def promoted_def prepared_def dropping_def map_filter_simps
        waiting_spec_def newcomers_def waitlisted_def eligible_def rivals_def demo_simps Let_def)
  have "combined ?d \<le> combined ?c"
    by (rule highest_stake_selected [OF seats_codec reach_rivals t])
      (simp_all add: eval eligible_def)
  with t eval show ?thesis by (intro exI [of _ ?t] exI [of _ ?c] exI [of _ ?d]) simp
qed

text \<open>C15: slashing is exact. \<open>slash_stale_authors\<close> puts offline, stamped with the current
  block, exactly the candidates that are current validators, authored no block this session,
  are not genesis validators and last authored more than the staling period ago; every other
  entry is kept as it is, and the author list is cleared.\<close>

theorem slashing_exact:
  assumes "lawful_codec cfg" and "registered_once s" and "slash_stale_authors cfg s = Some t"
  shows "mset (proposed_candidates t) = image_mset (\<lambda>c.
      if who c \<in> set (validators s) \<and> who c \<notin> set (actual_authors s) \<and>
         who c \<notin> set (desired_candidates s) \<and>
         unat (max_staling_period cfg) < unat (block_number s) - unat (last_authored c)
      then c\<lparr>offline := True, last_updated := block_number s\<rparr> else c)
      (mset (proposed_candidates s)) \<and>
    actual_authors t = [] \<and> validators t = validators s \<and> bank t = bank s \<and>
    waiting_candidates t = waiting_candidates s \<and> invulnerables t = invulnerables s"
proof -
  define hit where "hit = slash_hit cfg s (validators s)"
  have t: "t = s\<lparr>proposed_candidates := slashed (block_number s) hit (proposed_candidates s),
      actual_authors := []\<rparr>"
    using slash_stale_authors_eq [of cfg s "validators s"] assms(1,3) by (simp add: hit_def)
  have "mset (slashed (block_number s) hit (proposed_candidates s)) =
      image_mset (marked (block_number s) hit) (mset (proposed_candidates s))"
    using marked_none [of hit "proposed_candidates s" "block_number s"]
    by (simp add: slashed_def flip: mset_map)
  moreover have "marked (block_number s) hit = (\<lambda>c.
      if who c \<in> set (validators s) \<and> who c \<notin> set (actual_authors s) \<and>
         who c \<notin> set (desired_candidates s) \<and>
         unat (max_staling_period cfg) < unat (block_number s) - unat (last_authored c)
      then c\<lparr>offline := True, last_updated := block_number s\<rparr> else c)"
    by (auto simp: fun_eq_iff marked_def hit_def slash_hit_def is_stale_def stale_validators_def
        word_less_nat_alt unat_sat_sub)
  ultimately show ?thesis by (simp add: t)
qed

theorem slashing_exact_witness:
  "\<exists>t. slash_stale_authors demo_config
        ((demo_chain [1] [demo_candidate 2 5, demo_candidate 3 5])
          \<lparr>validators := [1, 2, 3], actual_authors := [3], block_number := 604801\<rparr>) = Some t \<and>
      mset (proposed_candidates t) =
        {#(demo_candidate 2 5)\<lparr>offline := True, last_updated := 604801\<rparr>, demo_candidate 3 5#}"
proof -
  let ?s = "(demo_chain [1] [demo_candidate 2 5, demo_candidate 3 5])
    \<lparr>validators := [1, 2, 3], actual_authors := [3], block_number := 604801\<rparr>"
  obtain t where t: "slash_stale_authors demo_config ?s = Some t"
    using slash_stale_authors_eq [of demo_config ?s] by auto
  have "registered_once ?s" by (simp add: demo_simps)
  from slashing_exact [OF demo_codec this t] t show ?thesis
    by (simp add: demo_simps)
qed

text \<open>Hand-over. At a boundary in a reachable state of a chain with genesis validators, the
  set handed to the session pallet is exactly the waiting list as it stood before the
  boundary, and becomes \<open>Invulnerables\<close>: who is selected by one boundary is queued by the
  next one.\<close>

theorem boundary_hands_over_waiting_list:
  assumes "lawful_codec cfg" and "reachable cfg desired s" and "desired \<noteq> []"
    and "rotation cfg active s = Some (r, t)"
  shows "r = Some (waiting_candidates s) \<and> invulnerables t = waiting_candidates s \<and>
    waiting_candidates s \<noteq> [] \<and> validators t = active"
proof -
  have inv: "staking_inv cfg desired s" by (rule staking.inv_reach [OF assms(2)])
  from rotation_invulnerables [OF assms(1) inv assms(4,3)] rotation_eq [OF assms(1) inv assms(4)]
  show ?thesis using inv assms(3) by (auto simp: staking_inv_def pipeline_inv_def)
qed

theorem boundary_hands_over_waiting_list_witness:
  "\<exists>t. rotation demo_config [1] demo_registered = Some (Some [1], t) \<and> invulnerables t = [1]"
proof -
  obtain r t where rt: "rotation demo_config [1] demo_registered = Some (r, t)"
    using end_session_lawful [OF demo_codec, of demo_registered]
    by (cases "new_session (start_session (install_validators [1]
          (end_session_spec demo_config demo_registered [])))")
      (simp add: rotation_def boundary_def)
  have "[1::account_id] \<noteq> []" by simp
  from boundary_hands_over_waiting_list [OF demo_codec demo_reach_registered this rt] rt
  show ?thesis by simp
qed

text \<open>No panic at any boundary. From every reachable state, any number of boundaries with
  any validator sets runs to the end.\<close>

theorem boundaries_never_fail:
  assumes "lawful_codec cfg" and "reachable cfg desired s"
  shows "\<exists>t. boundaries (rotation cfg) actives s = Some t \<and> registered_once t"
  using session_manager.boundaries_total
    [OF lawful_session_manager [OF assms(1)] staking.inv_reach [OF assms(2)]]
  unfolding rotation_def by (blast dest: staking_inv_once)

theorem boundaries_never_fail_witness:
  "\<exists>t. boundaries (rotation demo_config) [[1], [1, 2], [1]] demo_registered = Some t \<and> registered_once t"
  by (rule boundaries_never_fail [OF demo_codec demo_reach_registered])

text \<open>Eviction at the pallet's own level. A candidate that is offline, leaving or unbonded, and is no genesis
  validator, is out of the registry, of the waiting list and of the queued set after four
  session boundaries in which nobody calls the pallet, whatever step of the pipeline he
  was in. The bank is as it was: his bond, if any, is still reserved, and a zero bond no longer
  releases it.\<close>

theorem boundaries_evict_dropped:
  assumes codec: "lawful_codec cfg" and reach: "reachable cfg desired s"
    and des: "desired \<noteq> []" "a \<notin> set desired"
    and entry: "\<And>c. c \<in> set (proposed_candidates s) \<Longrightarrow> who c = a \<Longrightarrow> dropping c"
    and run: "boundaries (rotation cfg) [v1, v2, v3, v4] s = Some t"
  shows "find_candidate a t = None \<and> a \<notin> set (waiting_candidates t) \<and> a \<notin> set (invulnerables t) \<and>
    bank t = bank s \<and>
    (\<exists>e. dispatch cfg (System (Signed a)) (BondCandidate 0) t = (Inl (PalletError e), t))"
proof -
  from run obtain r1 s1 r2 s2 r3 s3 r4 where
    rot: "rotation cfg v1 s = Some (r1, s1)" "rotation cfg v2 s1 = Some (r2, s2)"
      "rotation cfg v3 s2 = Some (r3, s3)" "rotation cfg v4 s3 = Some (r4, t)"
    by (auto split: option.splits)
  note step = rotation_fading [OF codec _ _ des]
  have "fading a UNIV s" using entry by (simp add: fading_def)
  with step [OF staking.inv_reach [OF reach] rot(1)]
  have s1: "staking_inv cfg desired s1" "a \<notin> set (waiting_candidates s1)" "fading a UNIV s1" by auto
  from step [OF s1(1) rot(2) s1(3)] s1(2)
  have s2: "staking_inv cfg desired s2" "a \<notin> set (waiting_candidates s2)"
    "fading a (step_down UNIV) s2" by auto
  from step [OF s2(1) rot(3) s2(3)] s2(2)
  have s3: "staking_inv cfg desired s3" "a \<notin> set (waiting_candidates s3)"
    "fading a (step_down (step_down UNIV)) s3" by auto
  from step [OF s3(1) rot(4) s3(3)] s3(2)
  have "a \<notin> set (waiting_candidates t)" "a \<notin> set (invulnerables t)" "fading a {} t"
    by (auto simp: step_down_thrice)
  then have gone: "find_candidate a t = None" "a \<notin> set (waiting_candidates t)" "a \<notin> set (invulnerables t)"
    by (auto simp: find_candidate_None fading_def)
  have "bank t = bank s"
    using rotation_bank [OF codec staking.inv_reach [OF reach] rot(1)] rotation_bank [OF codec s1(1) rot(2)]
      rotation_bank [OF codec s2(1) rot(3)] rotation_bank [OF codec s3(1) rot(4)] by simp
  moreover have "\<exists>e. dispatch cfg (System (Signed a)) (BondCandidate 0) t = (Inl (PalletError e), t)"
    using gone codec
    by (cases "a \<in> set (validators t)")
      (auto simp: dispatch_def with_storage_layer_Inl bond_candidate_def ensure_bond_allowed_def
        ensure_out_of_pipeline_def)
  ultimately show ?thesis using gone by simp
qed

lemma demo_boundaries:
  "\<exists>t. boundaries (rotation demo_config) actives demo_registered = Some t"
  using session_manager.boundaries_total
    [OF lawful_session_manager [OF demo_codec] staking.inv_reach [OF demo_reach_registered]]
  unfolding rotation_def by blast

theorem boundaries_evict_dropped_witness:
  "\<exists>t. boundaries (rotation demo_config) [[1], [1], [1], [1]] demo_registered = Some t \<and>
     find_candidate 2 demo_registered = Some (demo_candidate 2 0) \<and> find_candidate 2 t = None"
proof -
  obtain t where t: "boundaries (rotation demo_config) [[1], [1], [1], [1]] demo_registered = Some t"
    using demo_boundaries by blast
  have "find_candidate 2 t = None \<and> 2 \<notin> set (waiting_candidates t) \<and> 2 \<notin> set (invulnerables t) \<and>
      bank t = bank demo_registered \<and>
      (\<exists>e. dispatch demo_config (System (Signed 2)) (BondCandidate 0) t = (Inl (PalletError e), t))"
    by (rule boundaries_evict_dropped [OF demo_codec demo_reach_registered _ _ _ t])
      (auto simp: dropping_def)
  with t show ?thesis by (auto simp: find_candidate_def)
qed

text \<open>Selection. In a reachable state in which the registry and the genesis validators fit
  the bound together, every bonded, online, staying candidate who is not due to be slashed
  is in the validator set that the second boundary from now hands to the session pallet.\<close>

theorem eligible_candidate_seated:
  assumes codec: "lawful_codec cfg" and reach: "reachable cfg desired s" and des: "desired \<noteq> []"
    and room: "length desired + length (proposed_candidates s) \<le> unat (max_candidates cfg)"
    and c: "c \<in> set (proposed_candidates s)" "eligible c"
    and fresh: "who c \<notin> set (validators s) \<or> who c \<in> set (actual_authors s) \<or>
      who c \<in> set desired \<or> unat (block_number s) \<le> unat (last_authored c) + unat (max_staling_period cfg)"
    and rot: "rotation cfg v1 s = Some (r1, t)" "rotation cfg v2 t = Some (r2, u)"
  shows "\<exists>vs. r2 = Some vs \<and> who c \<in> set vs \<and> length vs \<le> unat (max_candidates cfg)"
proof -
  have inv: "staking_inv cfg desired s" by (rule staking.inv_reach [OF reach])
  have invt: "staking_inv cfg desired t" by (rule rotation_eq [OF codec inv rot(1), THEN conjunct1])
  have ds: "desired_candidates s = desired"
    using inv by (simp add: staking_inv_def pipeline_inv_def)
  have "\<not> slash_hit cfg s (validators s) c"
    using fresh by (auto simp: slash_hit_def is_stale_def stale_validators_def ds
        word_less_nat_alt unat_sat_sub)
  from eligible_waitlisted [OF c this] room have "who c \<in> set (waiting_candidates t)"
    using rotation_eq [OF codec inv rot(1)] by (simp add: ds)
  moreover have "r2 = Some (waiting_candidates t)"
    using rotation_invulnerables [OF codec invt rot(2) des] by simp
  moreover have "length (waiting_candidates t) \<le> unat (max_candidates cfg)"
    using invt by (simp add: staking_inv_def pipeline_inv_def)
  ultimately show ?thesis by simp
qed

theorem eligible_candidate_seated_witness:
  "\<exists>r1 t r2 u vs. rotation (seats 3) [1] rivals = Some (r1, t) \<and>
     rotation (seats 3) [1] t = Some (r2, u) \<and> r2 = Some vs \<and> 2 \<in> set vs"
proof -
  let ?c = "demo_candidate 2 100000000000000"
  have reach: "reachable (seats 3) [1] rivals" by (rule reach_rivals) simp
  obtain r1 t where r1: "rotation (seats 3) [1] rivals = Some (r1, t)" "staking_inv (seats 3) [1] t"
    using rotation_total [OF seats_codec staking.inv_reach [OF reach]] by blast
  obtain r2 u where r2: "rotation (seats 3) [1] t = Some (r2, u)"
    using rotation_total [OF seats_codec r1(2)] by blast
  have "\<exists>vs. r2 = Some vs \<and> who ?c \<in> set vs \<and> length vs \<le> unat (max_candidates (seats 3))"
    by (rule eligible_candidate_seated [OF seats_codec reach _ _ _ _ _ r1(1) r2])
      (simp_all add: rivals_def demo_chain_def demo_genesis_def empty_chain_def eligible_def)
  with r1 r2 show ?thesis by auto
qed

end
