(* ===== verification/Staking_Entries.thy ===== *)
theory Staking_Entries
  imports Staking_Theorems
begin

text \<open>
  What happens to one candidate's entry when others act. A facet is what a projection shows
  of an account's entries; the calls of other accounts leave the facet of bond, flags and
  status alone, and calls that are not stakes leave the recorded total alone. The lemmas carry
  the properties of accounts that stay idle for whole sessions, and of a candidate who
  registers again with old delegations on record.
\<close>

section \<open>Facets of an account's entries\<close>

definition facet :: "(candidate_info \<Rightarrow> 'k) \<Rightarrow> account_id \<Rightarrow> candidate_info list \<Rightarrow> 'k set" where
  "facet g a cs = g ` {c \<in> set cs. who c = a}"

lemma facet_simps [simp]:
  "facet g a [] = {}"
  "facet g a (c # cs) = (if who c = a then insert (g c) (facet g a cs) else facet g a cs)"
  "facet g a (cs @ ds) = facet g a cs \<union> facet g a ds"
  "facet g a (sort_candidates cs) = facet g a cs"
  by (auto simp: facet_def)

lemma facet_update:
  "(\<And>c. who (f c) = who c \<and> g (f c) = g c) \<Longrightarrow> facet g a (update_first p f cs) = facet g a cs"
  by (induction cs) auto

lemma facet_update_other:
  "b \<noteq> a \<Longrightarrow> (\<And>c. who (f c) = who c) \<Longrightarrow>
   facet g a (update_first (\<lambda>c. who c = b) f cs) = facet g a cs"
  by (induction cs) auto

lemma facet_map:
  "(\<And>c. who (f c) = who c \<and> g (f c) = g c) \<Longrightarrow> facet g a (map f cs) = facet g a cs"
  by (induction cs) auto

definition standing :: "candidate_info \<Rightarrow> balance \<times> bool \<times> bool \<times> status" where
  "standing c = (bond c, leaving c, offline c, status c)"

lemma standing_simps [simp]:
  "standing (c\<lparr>total_stake := v, last_updated := n\<rparr>) = standing c"
  "standing (c\<lparr>last_authored := n\<rparr>) = standing c"
  by (simp_all add: standing_def)

text \<open>Which accounts have a dropping or an eligible entry is a matter of their standing.\<close>

lemma standing_dropping: "standing c = standing d \<Longrightarrow> dropping c = dropping d \<and> status c = status d"
  by (simp add: standing_def dropping_def)

lemma standing_eligible: "standing c = standing d \<Longrightarrow> eligible c = eligible d"
  by (simp add: standing_def eligible_def)

lemma facet_mem: "k \<in> facet g a cs \<longleftrightarrow> (\<exists>c\<in>set cs. who c = a \<and> g c = k)"
  by (auto simp: facet_def)

lemma facet_transfer:
  assumes "facet g a cs = facet g a ds" "c \<in> set cs" "who c = a"
  shows "\<exists>d\<in>set ds. who d = a \<and> g d = g c"
  using assms facet_mem [of "g c" g a ds] facet_mem [of "g c" g a cs] by blast

lemma facet_fading:
  assumes "facet standing a (proposed_candidates s) = facet standing a (proposed_candidates t)"
    and "fading a S s"
  shows "fading a S t"
  unfolding fading_def
proof (intro ballI impI)
  fix c assume "c \<in> set (proposed_candidates t)" "who c = a"
  from facet_transfer [OF assms(1) [symmetric] this] obtain d where
    "d \<in> set (proposed_candidates s)" "who d = a" "standing d = standing c" by blast
  with assms(2) standing_dropping [of d c] show "dropping c \<and> status c \<in> S"
    by (auto simp: fading_def)
qed

section \<open>Calls of others\<close>

lemma call_standing:
  assumes "call_body cfg org call s = (Inr u, t)" "org \<noteq> System (Signed a)"
  shows "facet standing a (proposed_candidates t) = facet standing a (proposed_candidates s)"
  using assms
  by (cases call) (auto dest!: call_ok simp: facet_update facet_update_other)

lemma dispatch_standing:
  assumes "dispatch cfg org call s = (r, t)" "org \<noteq> System (Signed a)"
  shows "facet standing a (proposed_candidates t) = facet standing a (proposed_candidates s)"
  using assms call_standing [of cfg org call s "()" t a]
  by (cases r) (auto simp: dispatch_def with_storage_layer_Inl)


context staking_bank
begin

text \<open>Nor does a call touch another account's reserve.\<close>

lemma dispatch_reserved_other:
  assumes "dispatch cfg org call s = (r, t)" "org \<noteq> System (Signed a)"
  shows "reserved_balance (currency cfg) (bank t) a = reserved_balance (currency cfg) (bank s) a"
proof (cases r)
  case (Inr u)
  with assms(1) have "call_body cfg org call s = (Inr u, t)" by simp
  from call_bank [OF this] assms(2) show ?thesis by (metis reserve_frame unreserve_frame)
qed (use assms in \<open>auto simp: dispatch_def with_storage_layer_Inl\<close>)

end

section \<open>Recorded totals\<close>

text \<open>Everything but a stake behind \<open>a\<close> and its revocation.\<close>

definition spares_stake :: "account_id \<Rightarrow> 'c action \<Rightarrow> bool" where
  "spares_stake a act =
     (case act of
        Extrinsic org (StakeCandidate cand v) \<Rightarrow> cand \<noteq> a
      | Extrinsic org (UnstakeCandidate cand) \<Rightarrow> cand \<noteq> a
      | _ \<Rightarrow> True)"

definition sparing_step :: "'c staking_config \<Rightarrow> account_id \<Rightarrow> 'c chain \<Rightarrow> 'c chain \<Rightarrow> bool" where
  "sparing_step cfg a s t \<longleftrightarrow> (\<exists>act. chain_step cfg act s t \<and> spares_stake a act)"

lemma call_total:
  assumes "call_body cfg org call s = (Inr u, t)" "spares_stake a (Extrinsic org call)"
  shows "facet total_stake a (proposed_candidates t)
      \<subseteq> insert 0 (facet total_stake a (proposed_candidates s)) \<and>
    delegations t a = delegations s a"
  using assms
  by (cases call) (auto dest!: call_ok simp: spares_stake_def facet_update facet_update_other split: if_splits)

lemma end_session_total:
  assumes "registered_once s" "end_session cfg s = Some t"
  shows "facet total_stake a (proposed_candidates t) \<subseteq> facet total_stake a (proposed_candidates s)"
proof
  fix k assume "k \<in> facet total_stake a (proposed_candidates t)"
  moreover obtain vs where t: "t = end_session_spec cfg s vs"
    using end_session_is_spec [OF assms] by blast
  ultimately obtain e where e: "e \<in> set (surviving cfg s vs)" "who e = a" "total_stake e = k"
    by (auto simp: facet_mem end_session_spec_def Let_def waitlisted_def split: if_splits)
  from e(1) obtain c where c: "c \<in> set (proposed_candidates s)"
    and p: "prepared (marked (block_number s) (slash_hit cfg s vs)
      (promoted (waiting_candidates s) c)) = Some e"
    by (auto simp: surviving_def List.map_filter_def set_slashed)
  from p have "who c = who e \<and> total_stake c = total_stake e"
    by (auto simp: prepared_def marked_def promoted_def split: if_splits status.splits)
  with c e show "k \<in> facet total_stake a (proposed_candidates s)"
    by (auto simp: facet_mem)
qed

lemma sparing_step_total:
  assumes inv: "staking_inv cfg desired s" and step: "sparing_step cfg a s t"
  shows "facet total_stake a (proposed_candidates t)
      \<subseteq> insert 0 (facet total_stake a (proposed_candidates s)) \<and>
    delegations t a = delegations s a"
proof -
  from step obtain act where act: "chain_step cfg act s t" "spares_stake a act"
    by (auto simp: sparing_step_def)
  from act(1) show ?thesis
  proof cases
    case (step_extrinsic org call r)
    with act(2) call_total [of cfg org call s "()" t a] show ?thesis
      by (cases r) (auto simp: dispatch_def with_storage_layer_Inl)
  next
    case (step_initialize author)
    then have "facet total_stake a (proposed_candidates t) = facet total_stake a (proposed_candidates s)"
      by (auto simp: on_initialize_def add_actual_author_def record_authored_block_def
          facet_update split: option.split)
    with step_initialize on_initialize_outside [of s cfg author] show ?thesis
      by (auto simp: same_outside_def)
  next
    case step_end_session
    from end_session_total [OF staking_inv_once [OF inv] step_end_session(2), of a]
      end_session_outside [OF step_end_session(2)] show ?thesis
      by (auto simp: same_outside_def)
  next
    case (step_new_session vs)
    with new_session_eq [OF staking_inv_once [OF inv]] show ?thesis
      by (auto simp: facet_map)
  qed auto
qed

lemma sparing_steps_total:
  assumes "(sparing_step cfg a)\<^sup>*\<^sup>* s t" "reachable cfg desired s"
  shows "reachable cfg desired t \<and>
    facet total_stake a (proposed_candidates t)
      \<subseteq> insert 0 (facet total_stake a (proposed_candidates s)) \<and>
    delegations t a = delegations s a"
  using assms
proof (induction rule: rtranclp_induct)
  case (step t u)
  from sparing_step_total [OF staking.inv_reach step(2), of desired] step
  have "facet total_stake a (proposed_candidates u)
      \<subseteq> insert 0 (facet total_stake a (proposed_candidates t)) \<and> delegations u a = delegations t a"
    by blast
  moreover have "steps_to cfg t u" using step(2) by (auto simp: sparing_step_def steps_to_def)
  ultimately show ?case using step.IH [OF step.prems] by (auto intro: reach_step)
qed auto

end
