(* ===== verification/Staking_Accounts.thy ===== *)
theory Staking_Accounts
  imports Staking_Entries
begin

text \<open>
  What the calls promise to bonders and delegators, and where the code keeps less than
  that: stakes stranded behind a removed candidate, a re-registration that forgets stake,
  a \<open>bond_correction\<close> that releases money the pallet still counts, a registration that
  leaves the list out of rank.
\<close>

section \<open>Delegations\<close>

lemma position_snoc:
  "\<forall>x\<in>set xs. \<not> p x \<Longrightarrow> p y \<Longrightarrow> position p (xs @ [y]) = Some (length xs)"
  by (induction xs) auto

lemma find_candidate_sorted_update:
  assumes "find_candidate a s = Some c" "\<And>c. who (f c) = who c"
    and "proposed_candidates t = sort_candidates (update_first (\<lambda>c. who c = a) f (proposed_candidates s))"
  shows "f c \<in> set (proposed_candidates t) \<and> (\<exists>d. find_candidate a t = Some d)"
proof -
  have mem: "f c \<in> set (proposed_candidates t)"
    using assms(1,3) update_first_mem [of "\<lambda>c. who c = a" "proposed_candidates s" c f]
    by (simp add: find_candidate_def)
  moreover have "who (f c) = a"
    using find_candidate_Some [OF assms(1)] assms(2) by simp
  ultimately have "find_candidate a t \<noteq> None"
    by (auto simp: find_candidate_None)
  with mem show ?thesis by blast
qed

lemma unstake_candidate_run:
  assumes "take_delegation a (delegations s cand) = Inr (amount, rest)"
    and "find_candidate cand s = Some c"
  shows "\<exists>t. unstake_candidate cfg (System (Signed a)) cand s = (Inr (), t) \<and>
    delegations t = (delegations s)(cand := rest) \<and>
    bank t = snd (unreserve (currency cfg) (bank s) a amount)"
  using assms
  by (auto simp: unstake_candidate_def recompute_total_stake_def find_candidate_def Let_def)

text \<open>C22: staking and unstaking are inverse. A new delegator who stakes behind a candidate can
  take the stake back at once, and then has exactly the free and reserved balance he started
  with; the delegation map is the old one and nobody else's balance moves.\<close>

theorem stake_unstake_roundtrip:
  assumes law: "reservable_currency (currency cfg)" and reach: "reachable cfg desired s"
    and fresh: "\<And>ds d. delegations s cand = Some ds \<Longrightarrow> d \<in> set ds \<Longrightarrow> delegator d \<noteq> a"
    and stake: "dispatch cfg (System (Signed a)) (StakeCandidate cand v) s = (Inr (), t)"
  shows "\<exists>u. dispatch cfg (System (Signed a)) (UnstakeCandidate cand) t = (Inr (), u) \<and>
    delegations u = delegations s \<and>
    (\<forall>b. free_balance (currency cfg) (bank u) b = free_balance (currency cfg) (bank s) b \<and>
         reserved_balance (currency cfg) (bank u) b = reserved_balance (currency cfg) (bank s) b)"
proof -
  define old where "old = (case delegations s cand of None \<Rightarrow> [] | Some l \<Rightarrow> l)"
  from stake obtain m ds c where c: "find_candidate cand s = Some c"
    and m: "reserve (currency cfg) (bank s) a v = Inr m"
    and ds: "add_delegation (max_delegations cfg) a v (delegations s cand) = Some ds"
    and t: "delegations t = (delegations s)(cand := Some ds)" "bank t = m"
      "proposed_candidates t = sort_candidates (update_first (\<lambda>c. who c = cand)
        (\<lambda>c. c\<lparr>total_stake := total_of (Some ds), last_updated := block_number s\<rparr>) (proposed_candidates s))"
    by (auto dest!: stake_candidate_ok)
  have none: "\<forall>d\<in>set old. delegator d \<noteq> a"
    using fresh by (cases "delegations s cand") (auto simp: old_def)
  then have "find (\<lambda>d. delegator d = a) old = None"
    by (simp add: find_None_all)
  with ds have ds': "ds = old @ [\<lparr>delegator = a, stake = v\<rparr>]"
    by (simp add: add_delegation_def flip: old_def)
  have "delegations s cand \<noteq> Some []"
    using staking.inv_reach [OF reach] by (auto simp: staking_inv_def delegations_inv_def delegation_ok_def)
  then have rest: "(if old = [] then None else Some old) = delegations s cand"
    by (auto simp: old_def split: option.splits)
  have "take_delegation a (delegations t cand) = Inr (v, delegations s cand)"
    using none by (simp add: t ds' take_delegation_def position_snoc remove_at_def rest)
  moreover obtain d where "find_candidate cand t = Some d"
    using find_candidate_sorted_update [OF c _ t(3)] by auto
  ultimately obtain u where u: "unstake_candidate cfg (System (Signed a)) cand t = (Inr (), u)"
    "delegations u = (delegations t)(cand := delegations s cand)"
    "bank u = snd (unreserve (currency cfg) m a v)"
    using unstake_candidate_run [of a t cand v] t(2) by metis
  with reservable_currency.unreserve_reserve [OF law m] show ?thesis
    by (auto simp: t)
qed

theorem stake_unstake_roundtrip_witness:
  "\<exists>u. dispatch demo_config (System (Signed 3)) (UnstakeCandidate 2) demo_staked = (Inr (), u) \<and>
     l_free (bank u) 3 = 1000000000000000 \<and> l_reserved (bank u) 3 = 0"
proof -
  have "dispatch demo_config (System (Signed 3)) (StakeCandidate 2 70) demo_registered = (Inr (), demo_staked)"
    using demo_staked_call by simp
  from stake_unstake_roundtrip [OF demo.bank_law demo_reach_registered _ this] show ?thesis
    by (auto simp: demo_ledger_def)
qed

lemma recomputed_total:
  assumes "dispatch cfg org call s = (Inr (), t)"
    and "call = UnstakeCandidate cand \<or> (\<exists>v. call = StakeCandidate cand v)"
  shows "\<exists>c\<in>set (proposed_candidates t). who c = cand \<and>
    unat (total_stake c) = min (2 ^ 128 - 1) (stake_sum (delegations t cand)) \<and>
    last_updated c = block_number t"
proof -
  from assms obtain c where c: "find_candidate cand s = Some c"
    and t: "proposed_candidates t = sort_candidates (update_first (\<lambda>c. who c = cand)
        (\<lambda>c. c\<lparr>total_stake := total_of (delegations t cand), last_updated := block_number s\<rparr>)
        (proposed_candidates s))" "block_number t = block_number s"
    by (auto dest!: stake_candidate_ok unstake_candidate_ok)
  have "c\<lparr>total_stake := total_of (delegations t cand), last_updated := block_number s\<rparr>
      \<in> set (proposed_candidates t)"
    using find_candidate_sorted_update [OF c _ t(1)] by simp
  with find_candidate_Some [OF c] t(2) show ?thesis
    by (intro bexI) (simp_all add: unat_total_of)
qed

text \<open>C31: after every successful stake or unstake the candidate's recorded total is the
  saturated sum of the delegations on record behind him, at the current block.\<close>

theorem total_stake_recomputed:
  assumes "dispatch cfg org call s = (Inr (), t)"
    and "call = UnstakeCandidate cand \<or> (\<exists>v. call = StakeCandidate cand v)"
  shows "\<exists>c\<in>set (proposed_candidates t). who c = cand \<and>
    unat (total_stake c) = min (2 ^ 128 - 1) (stake_sum (delegations t cand)) \<and>
    last_updated c = block_number t"
  using assms by (rule recomputed_total)

theorem total_stake_recomputed_witness:
  "\<exists>c\<in>set (proposed_candidates demo_staked). unat (total_stake c) = 70"
  using total_stake_recomputed [of demo_config "System (Signed 3)" "StakeCandidate 2 70"
      demo_registered demo_staked 2] demo_staked_call
  by (simp add: stake_sum_def)

section \<open>Stakes behind a removed candidate\<close>

text \<open>C29: the session hook removes a candidate and leaves the delegations behind him on record
  and reserved; from then on no call of the pallet gives a delegator his stake back:
  \<open>unstake_candidate\<close> fails with \<open>CandidateNotFound\<close> as long as the candidate does not
  register again.\<close>

theorem stranded_delegation:
  assumes "find_candidate cand s = None" and "delegations s cand = Some ds"
    and "d \<in> set ds" and "delegator d = a"
  shows "dispatch cfg (System (Signed a)) (UnstakeCandidate cand) s =
    (Inl (PalletError CandidateNotFound), s)"
proof -
  have "position (\<lambda>d. delegator d = a) ds \<noteq> None"
    using assms(3,4) by (auto simp: position_None find_None_all)
  then obtain amount rest where "take_delegation a (delegations s cand) = Inr (amount, rest)"
    using assms(2) by (auto simp: take_delegation_def Let_def)
  then show ?thesis
    using assms(1)
    by (simp add: dispatch_def with_storage_layer_Inl unstake_candidate_def Let_def
        recompute_total_stake_def find_candidate_def)
qed

definition demo_pruned :: "ledger chain" where
  "demo_pruned = demo_staked\<lparr>proposed_candidates := []\<rparr>"

lemma demo_pruned_sel [simp]:
  "proposed_candidates demo_pruned = []" "block_number demo_pruned = 0"
  "delegations demo_pruned = (\<lambda>_. None)(2 := Some [\<lparr>delegator = 3, stake = 70\<rparr>])"
  "bank demo_pruned = demo_backer"
  by (simp_all add: demo_pruned_def)

lemma demo_pruned_end: "end_session demo_config demo_staked = Some demo_pruned"
proof -
  have "end_session_spec demo_config demo_staked [] = demo_pruned"
    by (simp add: end_session_spec_def surviving_def slashed_def slash_hit_def is_stale_def
        stale_validators_def promoted_def prepared_def dropping_def map_filter_simps waiting_spec_def
        newcomers_def Let_def demo_pruned_def demo_staked_def demo_registered_def demo_simps)
  with end_session_lawful [OF demo_codec, of demo_staked] show ?thesis by simp
qed

lemma demo_reach_pruned: "reachable demo_config [1] demo_pruned"
  using reach_step [OF demo_reach_staked] step_end_session [OF demo_pruned_end]
  by (auto simp: steps_to_def)

theorem stranded_delegation_witness:
  "reachable demo_config [1] demo_pruned \<and> l_reserved (bank demo_pruned) 3 = 70 \<and>
   dispatch demo_config (System (Signed 3)) (UnstakeCandidate 2) demo_pruned =
     (Inl (PalletError CandidateNotFound), demo_pruned)"
proof -
  have "find_candidate 2 demo_pruned = None" by (simp add: find_candidate_def)
  from stranded_delegation [OF this, of "[\<lparr>delegator = 3, stake = 70\<rparr>]" "\<lparr>delegator = 3, stake = 70\<rparr>" 3]
  show ?thesis by (simp add: demo_reach_pruned demo_backer_def)
qed

text \<open>C30: a candidate who registers again starts with a recorded total of zero while the old
  delegations stay on record behind him. Whatever calls, hooks and blocks follow, his total stays
  zero and the delegations stay as they were, until somebody stakes behind him or revokes: only
  then is the total the sum on record again.\<close>

theorem reregistration_forgets_stake:
  assumes "reachable cfg desired s"
    and "dispatch cfg (System (Signed a)) RegisterCandidate s = (Inr (), t)"
    and "(sparing_step cfg a)\<^sup>*\<^sup>* t u"
  shows "find_candidate a t \<noteq> None \<and>
    (\<forall>c\<in>set (proposed_candidates u). who c = a \<longrightarrow> total_stake c = 0) \<and>
    delegations u a = delegations s a \<and>
    (\<forall>org call w. dispatch cfg org call u = (Inr (), w) \<longrightarrow>
       call = UnstakeCandidate a \<or> (\<exists>v. call = StakeCandidate a v) \<longrightarrow>
       (\<exists>c\<in>set (proposed_candidates w). who c = a \<and>
          unat (total_stake c) = min (2 ^ 128 - 1) (stake_sum (delegations w a))))"
proof -
  from assms(2) have call: "call_body cfg (System (Signed a)) RegisterCandidate s = (Inr (), t)" by simp
  then have reg: "find_candidate a s = None" "find_candidate a t \<noteq> None"
    by (auto dest!: register_candidate_ok simp: find_candidate_None)
  from call_total [OF call, of a] have t: "facet total_stake a (proposed_candidates t) \<subseteq> {0}"
    "delegations t a = delegations s a"
    using reg(1) by (auto simp: spares_stake_def facet_mem find_candidate_None)
  from sparing_steps_total [OF assms(3) reach_call [OF assms(1) call]]
  have u: "facet total_stake a (proposed_candidates u) \<subseteq> {0}" "delegations u a = delegations s a"
    using t by auto
  then have "\<forall>c\<in>set (proposed_candidates u). who c = a \<longrightarrow> total_stake c = 0"
    using facet_mem [of _ total_stake a "proposed_candidates u"] by auto
  with reg(2) u(2) show ?thesis using recomputed_total by blast
qed

theorem reregistration_forgets_stake_witness:
  "\<exists>t. dispatch demo_config (System (Signed 2)) RegisterCandidate demo_pruned = (Inr (), t) \<and>
     find_candidate 2 t \<noteq> None \<and> list_all (\<lambda>c. total_stake c = 0) (proposed_candidates t) \<and>
     stake_sum (delegations t 2) = 70"
proof -
  let ?t = "demo_pruned\<lparr>proposed_candidates := [demo_candidate 2 0],
    events := events demo_pruned @ [CandidateRegistered 2]\<rparr>"
  have call: "dispatch demo_config (System (Signed 2)) RegisterCandidate demo_pruned = (Inr (), ?t)"
    by (simp add: register_candidate_def deposit_event_def try_push_def demo_candidate_def Let_def)
  have "(sparing_step demo_config 2)\<^sup>*\<^sup>* ?t ?t" by simp
  from reregistration_forgets_stake [OF demo_reach_pruned call this] call show ?thesis
    by (intro exI [of _ ?t]) (auto simp: stake_sum_def)
qed

section \<open>Releasing reserves\<close>

text \<open>\<open>bond_correction\<close> releases what the caller asks for, up to everything reserved on
  his account, zeroes his bond and touches no delegation: the amount is not compared with
  the recorded bond.\<close>

theorem bond_correction_exact:
  assumes law: "reservable_currency (currency cfg)"
    and ok: "dispatch cfg (System (Signed a)) (BondCorrection v) s = (Inr (), t)"
  shows "(\<forall>b. unat (reserved_balance (currency cfg) (bank t) b) =
      unat (reserved_balance (currency cfg) (bank s) b) - (if b = a then unat v else 0)) \<and>
    delegations t = delegations s \<and> (\<exists>c\<in>set (proposed_candidates t). who c = a \<and> bond c = 0)"
proof -
  from ok obtain c where c: "find_candidate a s = Some c"
    and t: "bank t = snd (unreserve (currency cfg) (bank s) a v)" "delegations t = delegations s"
      "proposed_candidates t = update_first (\<lambda>c. who c = a)
        (\<lambda>c. c\<lparr>bond := 0, last_updated := block_number s\<rparr>) (proposed_candidates s)"
    by (auto dest!: bond_correction_ok)
  have "c\<lparr>bond := 0, last_updated := block_number s\<rparr> \<in> set (proposed_candidates t)"
    using c by (simp add: t(3) find_candidate_def update_first_mem
        [where f = "\<lambda>c. c\<lparr>bond := 0, last_updated := block_number s\<rparr>"])
  with find_candidate_Some [OF c] have "\<exists>c\<in>set (proposed_candidates t). who c = a \<and> bond c = 0"
    by (intro bexI) auto
  with t reservable_currency.unreserve_reserved_at [OF law] show ?thesis by simp
qed

text \<open>Account 3, with 70 staked behind candidate 2 and no bond, is an offline candidate.\<close>

definition demo_idle :: "ledger chain" where
  "demo_idle = demo_both
     \<lparr>proposed_candidates := [(demo_candidate 2 0)\<lparr>total_stake := 70\<rparr>,
                              (demo_candidate 3 0)\<lparr>offline := True\<rparr>],
      events := events demo_both @ [CandidateWentOffline 3]\<rparr>"

lemma demo_idle_sel [simp]:
  "proposed_candidates demo_idle = [(demo_candidate 2 0)\<lparr>total_stake := 70\<rparr>,
                                    (demo_candidate 3 0)\<lparr>offline := True\<rparr>]"
  "waiting_candidates demo_idle = [1]" "invulnerables demo_idle = [1]"
  "desired_candidates demo_idle = [1]"
  "delegations demo_idle = (\<lambda>_. None)(2 := Some [\<lparr>delegator = 3, stake = 70\<rparr>])"
  "bank demo_idle = demo_backer" "validators demo_idle = []" "block_number demo_idle = 0"
  by (simp_all add: demo_idle_def demo_both_def)

lemma demo_idle_call:
  "call_body demo_config (System (Signed 3)) OfflineCandidate demo_both = (Inr (), demo_idle)"
  by (simp add: offline_candidate_def set_offline_def find_candidate_def demo_idle_def
      modify_candidate_def sort_proposed_candidates_def deposit_event_def demo_both_def
      ranks_before_def demo_candidate_def)

lemma demo_correction_call:
  "call_body demo_config (System (Signed 3)) (BondCorrection 70) demo_idle =
   (Inr (), demo_idle\<lparr>bank := snd (ledger_unreserve demo_backer 3 70),
      proposed_candidates := [(demo_candidate 2 0)\<lparr>total_stake := 70\<rparr>,
                              (demo_candidate 3 0)\<lparr>offline := True\<rparr>],
      events := events demo_idle @ [CandidateBondCorrected 3]\<rparr>)"
  by (simp add: bond_correction_def find_candidate_def ensure_out_of_pipeline_def
      modify_candidate_def deposit_event_def demo_candidate_def)

theorem bond_correction_exact_witness:
  "\<exists>t. dispatch demo_config (System (Signed 3)) (BondCorrection 70) demo_idle = (Inr (), t) \<and>
     unat (l_reserved (bank t) 3) = 0"
proof -
  obtain t where t: "dispatch demo_config (System (Signed 3)) (BondCorrection 70) demo_idle = (Inr (), t)"
    using demo_correction_call by simp
  from bond_correction_exact [OF demo.bank_law t] t show ?thesis by (auto simp: demo_backer_def)
qed

text \<open>C27: the condition on \<open>bond_correction\<close> in the solvency theorem is necessary. From a
  reachable state in which every claim is covered, a delegator who registers without a bond
  and goes offline gets his stake released by \<open>bond_correction\<close>, while the delegation stays
  on record and keeps counting for the candidate.\<close>

theorem bond_correction_breaks_backing:
  "\<exists>s t. reachable demo_config [1] s \<and>
     dispatch demo_config (System (Signed 3)) (BondCorrection 70) s = (Inr (), t) \<and>
     backed demo_config s \<and> \<not> backed demo_config t \<and>
     delegations t 2 = Some [\<lparr>delegator = 3, stake = 70\<rparr>] \<and> l_reserved (bank t) 3 = 0"
proof -
  let ?t = "demo_idle\<lparr>bank := snd (ledger_unreserve demo_backer 3 70),
      proposed_candidates := [(demo_candidate 2 0)\<lparr>total_stake := 70\<rparr>,
                              (demo_candidate 3 0)\<lparr>offline := True\<rparr>],
      events := events demo_idle @ [CandidateBondCorrected 3]\<rparr>"
  have reach: "reachable demo_config [1] demo_idle"
    using demo_reach_both demo_idle_call by (rule reach_call)
  have none: "delegated (\<lambda>_. None) a = 0" for a
    by (simp add: delegated_def staked_in_def)
  have claims: "delegated ((\<lambda>_. None)(2 := Some [\<lparr>delegator = 3, stake = 70\<rparr>])) a = (if a = 3 then 70 else 0)" for a
    using delegated_upd [of "\<lambda>_. None" 2 "Some [\<lparr>delegator = 3, stake = 70\<rparr>]" a]
    by (simp add: none staked_in_def)
  have backed: "backed demo_config demo_idle"
    by (simp add: backed_def claims_def claims bonded_in_def demo_backer_def)
  have zero: "l_reserved (snd (ledger_unreserve demo_backer 3 70)) 3 = 0"
    by (simp add: ledger_unreserve_def demo_backer_def Let_def)
  then have "\<not> backed demo_config ?t"
    by (auto simp: backed_def claims_def claims bonded_in_def intro!: exI [of _ 3])
  with reach backed zero demo_correction_call show ?thesis
    by (intro exI [of _ demo_idle] exI [of _ ?t]) simp
qed

section \<open>Order and money at the edges\<close>

text \<open>The registry is not always in the rank order its storage comment promises: a
  registration is appended behind offline candidates it ranks before.\<close>

theorem registration_breaks_ranking:
  "\<exists>s t. reachable demo_config [1] s \<and> ranked (proposed_candidates s) \<and>
     dispatch demo_config (System (Signed 4)) RegisterCandidate s = (Inr (), t) \<and>
     \<not> ranked (proposed_candidates t)"
proof -
  let ?t = "demo_idle\<lparr>proposed_candidates := proposed_candidates demo_idle @ [demo_candidate 4 0],
    events := events demo_idle @ [CandidateRegistered 4]\<rparr>"
  have reach: "reachable demo_config [1] demo_idle"
    using demo_reach_both demo_idle_call by (rule reach_call)
  have "ranked (sort_candidates (proposed_candidates demo_idle))"
    by (rule ranked_sort_candidates)
  then have "ranked (proposed_candidates demo_idle)"
    by (simp add: ranks_before_def)
  moreover have "call_body demo_config (System (Signed 4)) RegisterCandidate demo_idle = (Inr (), ?t)"
    by (simp add: register_candidate_def deposit_event_def try_push_def demo_candidate_def Let_def)
  moreover have "\<not> ranked (proposed_candidates ?t)"
    using ranked_nth [of "proposed_candidates ?t" 1 2] by (auto simp: ranks_before_def)
  ultimately show ?thesis
    using reach by (intro exI [of _ demo_idle] exI [of _ ?t]) simp
qed

text \<open>No hook moves money. A session boundary and the block hook leave the bank, the
  delegations and the genesis validators as they are, so the bond of a candidate whom the
  hook removes stays reserved.\<close>

theorem hooks_move_no_money:
  assumes "t = on_initialize cfg author s \<or> end_session cfg s = Some t \<or> new_session s = (vs, t)"
  shows "bank t = bank s \<and> delegations t = delegations s \<and>
    desired_candidates t = desired_candidates s \<and> events t = events s"
proof -
  have "same_outside s t"
    using assms on_initialize_outside [of s cfg author] end_session_outside [of cfg s t]
      new_session_outside [of s] by auto
  then show ?thesis by (simp add: same_outside_def)
qed

theorem hooks_move_no_money_witness:
  "find_candidate 2 demo_staked \<noteq> None \<and> find_candidate 2 demo_pruned = None \<and>
   bank demo_pruned = bank demo_staked"
  using hooks_move_no_money [of demo_pruned demo_config None demo_staked None] demo_pruned_end
  by (simp add: find_candidate_def)

end
