(* ===== verification/Staking_Book.thy ===== *)
theory Staking_Book
  imports Staking_Theorems
begin

text \<open>
  An abstract specification of the nine dispatchables. The pallet keeps its candidates in one
  ranked vector and the delegations behind a candidate in another; the specification knows
  only two finite maps, from an account to its entry and from a candidate and a delegator to
  a stake, without any order. The abstraction function \<open>staking_book_of\<close> reads the maps off
  the storage, \<open>staking_book_call\<close> says what each call does to them, which money it moves
  and which error it answers, and the lemmas show that the vectors implement the maps.
\<close>

section \<open>Keyed vectors as maps\<close>

definition lookup :: "('a \<Rightarrow> 'k) \<Rightarrow> 'a list \<Rightarrow> 'k \<Rightarrow> 'a option" where
  "lookup k xs = (\<lambda>a. find (\<lambda>x. k x = a) xs)"

named_theorems book_simps \<open>the vector operations read as map operations\<close>

lemma lookup_Nil [simp]: "lookup k [] = (\<lambda>_. None)"
  by (simp add: lookup_def)

lemma lookup_key: "lookup k xs a = Some x \<Longrightarrow> x \<in> set xs \<and> k x = a"
  unfolding lookup_def by (rule find_Some_in)

lemma dom_lookup: "dom (lookup k xs) = k ` set xs"
proof (intro equalityI subsetI)
  fix a assume "a \<in> k ` set xs"
  then have "find (\<lambda>x. k x = a) xs \<noteq> None" by (auto simp: find_None_all)
  then show "a \<in> dom (lookup k xs)" by (auto simp: lookup_def)
qed (auto dest: lookup_key)

lemma lookup_eq_None: "lookup k xs a = None \<longleftrightarrow> a \<notin> k ` set xs"
  using dom_lookup [of k xs] by auto

lemma lookup_mem: "distinct (map k xs) \<Longrightarrow> x \<in> set xs \<Longrightarrow> lookup k xs (k x) = Some x"
  unfolding lookup_def by (rule find_keyed_unique) simp_all

lemma card_dom_lookup [book_simps]: "distinct (map k xs) \<Longrightarrow> card (dom (lookup k xs)) = length xs"
  by (metis dom_lookup distinct_card length_map list.set_map)

lemma lookup_update [book_simps]:
  "(\<And>x. k (f x) = k x) \<Longrightarrow>
   lookup k (update_first (\<lambda>x. k x = a) f xs) =
     (lookup k xs)(a := map_option f (lookup k xs a))"
  by (induction xs) (auto simp: lookup_def fun_eq_iff)

lemma lookup_snoc [book_simps]:
  "k x \<notin> k ` set xs \<Longrightarrow> lookup k (xs @ [x]) = (lookup k xs)(k x \<mapsto> x)"
  by (induction xs) (auto simp: lookup_def fun_eq_iff)

lemma lookup_filter [book_simps]:
  "lookup k (filter (\<lambda>x. k x \<noteq> a) xs) = (lookup k xs)(a := None)"
  by (induction xs) (auto simp: lookup_def fun_eq_iff)

lemma lookup_same_set:
  assumes "distinct (map k xs)" "distinct (map k ys)" "set xs = set ys"
  shows "lookup k xs = lookup k ys"
proof
  fix a
  show "lookup k xs a = lookup k ys a"
  proof (cases "lookup k xs a")
    case None
    with assms(3) show ?thesis by (metis lookup_eq_None)
  next
    case (Some x)
    with assms lookup_mem [of k ys x] lookup_key [OF Some] show ?thesis by simp
  qed
qed

lemma lookup_sort [book_simps]:
  "distinct (map who cs) \<Longrightarrow> lookup who (sort_candidates cs) = lookup who cs"
  by (rule lookup_same_set) simp_all

lemma sum_lookup:
  "distinct (map k xs) \<Longrightarrow>
   sum_list (map g xs) = (\<Sum>a\<in>dom (lookup k xs). g (the (lookup k xs a)) :: nat)"
proof -
  assume d: "distinct (map k xs)"
  then have "sum_list (map g xs) = (\<Sum>x\<in>set xs. g x)"
    by (simp add: sum_list_distinct_conv_sum_set distinct_map)
  also have "\<dots> = (\<Sum>a\<in>k ` set xs. g (the (lookup k xs a)))"
    using d by (simp add: sum.reindex distinct_map lookup_mem)
  finally show ?thesis by (simp add: dom_lookup)
qed

section \<open>The specification\<close>

record staking_book =
  entries :: "account_id \<Rightarrow> candidate_info option"
  stakes :: "account_id \<Rightarrow> account_id \<Rightarrow> balance option"

text \<open>What a call asks of the bank, always on the caller's own account.\<close>

datatype movement = Keep | Hold balance | Release balance

definition movement_to :: "balance \<Rightarrow> balance \<Rightarrow> movement" where
  "movement_to old new =
     (if old < new then Hold (new - old) else if new < old then Release (old - new) else Keep)"

text \<open>All stakes behind a candidate, cut off at the largest balance.\<close>

definition book_total :: "(account_id \<Rightarrow> balance option) \<Rightarrow> balance" where
  "book_total m = word_of_nat (min (2 ^ 128 - 1) (\<Sum>d\<in>dom m. unat (the (m d))))"

definition put_entry :: "account_id \<Rightarrow> candidate_info \<Rightarrow> staking_book \<Rightarrow> staking_book" where
  "put_entry a c b = b\<lparr>entries := (entries b)(a \<mapsto> c)\<rparr>"

text \<open>A candidate's stakes become \<open>m\<close> and his entry \<open>c\<close> is brought up to date.\<close>

definition put_stakes ::
    "block_number \<Rightarrow> account_id \<Rightarrow> candidate_info \<Rightarrow> (account_id \<Rightarrow> balance option) \<Rightarrow>
     staking_book \<Rightarrow> staking_book" where
  "put_stakes now cand c m b =
     put_entry cand (c\<lparr>total_stake := book_total m, last_updated := now\<rparr>)
       (b\<lparr>stakes := (stakes b)(cand := m)\<rparr>)"

text \<open>
  The call of account \<open>a\<close> at block \<open>now\<close>, who has \<open>free\<close> money and whose place in the
  validator pipeline \<open>busy\<close> names, if he has one.
\<close>

fun staking_book_call ::
    "'c staking_config \<Rightarrow> block_number \<Rightarrow> balance \<Rightarrow> staking_error option \<Rightarrow> account_id \<Rightarrow>
     staking_call \<Rightarrow> staking_book \<Rightarrow> staking_error + (movement \<times> staking_book)" where
  "staking_book_call cfg now free busy a RegisterCandidate b =
     (if a \<in> dom (entries b) then Inl CandidateAlreadyExists
      else if unat (max_candidates cfg) \<le> card (dom (entries b)) then Inl CandidateMaxExceeded
      else Inr (Keep, put_entry a
        \<lparr>who = a, bond = 0, total_stake = 0, last_updated = now, last_authored = now,
          leaving = False, offline = False, commission = 0, status = Online\<rparr> b))"
| "staking_book_call cfg now free busy a (BondCandidate v) b =
     (case (if v = 0 then busy
            else if v < min_candidate_bond cfg then Some InsufficientBond else None) of
        Some e \<Rightarrow> Inl e
      | None \<Rightarrow>
         (case entries b a of
            None \<Rightarrow> Inl CandidateNotFound
          | Some c \<Rightarrow>
             if bond c < v \<and> free < v - bond c then Inl InsufficientBalance
             else Inr (movement_to (bond c) v,
                       put_entry a (c\<lparr>bond := v, last_updated := now\<rparr>) b)))"
| "staking_book_call cfg now free busy a (SetCommissionOfCandidate com) b =
     (if com < 1 \<or> 100 < com then Inl InvalidCommission
      else case entries b a of
             None \<Rightarrow> Inl CandidateNotFound
           | Some c \<Rightarrow> Inr (Keep, put_entry a (c\<lparr>commission := com, last_updated := now\<rparr>) b))"
| "staking_book_call cfg now free busy a (StakeCandidate cand v) b =
     (if a = cand then Inl DelegationToSelfNotAllowed
      else case entries b cand of
             None \<Rightarrow> Inl CandidateDoesNotExist
           | Some c \<Rightarrow>
              if free < v then Inl DelegationInsufficientBalance
              else (case stakes b cand a of
                      Some old \<Rightarrow>
                        Inr (Hold v, put_stakes now cand c ((stakes b cand)(a \<mapsto> sat_add old v)) b)
                    | None \<Rightarrow>
                        if unat (max_delegations cfg) \<le> card (dom (stakes b cand))
                        then Inl DelegationsMaxExceeded
                        else Inr (Hold v, put_stakes now cand c ((stakes b cand)(a \<mapsto> v)) b)))"
| "staking_book_call cfg now free busy a (UnstakeCandidate cand) b =
     (if stakes b cand = (\<lambda>_. None) then Inl NoDelegationsForCandidate
      else case stakes b cand a of
             None \<Rightarrow> Inl DelegationNotFound
           | Some v \<Rightarrow>
              (case entries b cand of
                 None \<Rightarrow> Inl CandidateNotFound
               | Some c \<Rightarrow> Inr (Release v, put_stakes now cand c ((stakes b cand)(a := None)) b)))"
| "staking_book_call cfg now free busy a OfflineCandidate b =
     (case entries b a of
        None \<Rightarrow> Inl CandidateNotFound
      | Some c \<Rightarrow> Inr (Keep, put_entry a (c\<lparr>offline := True, last_updated := now\<rparr>) b))"
| "staking_book_call cfg now free busy a OnlineCandidate b =
     (case entries b a of
        None \<Rightarrow> Inl CandidateNotFound
      | Some c \<Rightarrow> Inr (Keep, put_entry a (c\<lparr>offline := False, last_updated := now\<rparr>) b))"
| "staking_book_call cfg now free busy a LeaveCandidate b =
     (case entries b a of
        None \<Rightarrow> Inl CandidateNotFound
      | Some c \<Rightarrow>
         if \<not> offline c then Inl StillOnline
         else (case busy of
                 Some e \<Rightarrow> Inl e
               | None \<Rightarrow> Inr (Keep, put_entry a (c\<lparr>leaving := True, last_updated := now\<rparr>) b)))"
| "staking_book_call cfg now free busy a (BondCorrection v) b =
     (case entries b a of
        None \<Rightarrow> Inl CandidateNotFound
      | Some c \<Rightarrow>
         if \<not> offline c then Inl StillOnline
         else (case busy of
                 Some e \<Rightarrow> Inl e
               | None \<Rightarrow> Inr (Release v, put_entry a (c\<lparr>bond := 0, last_updated := now\<rparr>) b)))"

section \<open>The abstraction\<close>

definition stakes_of :: "delegation list option \<Rightarrow> account_id \<Rightarrow> balance option" where
  "stakes_of ds = (\<lambda>a. map_option stake (lookup delegator (case ds of None \<Rightarrow> [] | Some l \<Rightarrow> l) a))"

definition staking_book_of :: "'c chain \<Rightarrow> staking_book" where
  "staking_book_of s =
     \<lparr>entries = lookup who (proposed_candidates s), stakes = (\<lambda>cand. stakes_of (delegations s cand))\<rparr>"

definition place_of :: "account_id \<Rightarrow> 'c chain \<Rightarrow> staking_error option" where
  "place_of a s =
     (if a \<in> set (waiting_candidates s) then Some StillWaiting
      else if a \<in> set (invulnerables s) then Some StillQueuing
      else if a \<in> set (validators s) then Some StillAuthoring
      else None)"

text \<open>The bank has done what the movement asks.\<close>

fun moved :: "'c currency_ops \<Rightarrow> account_id \<Rightarrow> movement \<Rightarrow> 'c \<Rightarrow> 'c \<Rightarrow> bool" where
  "moved C a Keep m m' \<longleftrightarrow> m' = m"
| "moved C a (Hold v) m m' \<longleftrightarrow> reserve C m a v = Inr m'"
| "moved C a (Release v) m m' \<longleftrightarrow> m' = snd (unreserve C m a v)"

abbreviation book_answer ::
    "'c staking_config \<Rightarrow> account_id \<Rightarrow> staking_call \<Rightarrow> 'c chain \<Rightarrow>
     staking_error + (movement \<times> staking_book)" where
  "book_answer cfg a call s \<equiv>
     staking_book_call cfg (block_number s) (free_balance (currency cfg) (bank s) a) (place_of a s)
       a call (staking_book_of s)"

lemma staking_book_of_sel [simp]:
  "entries (staking_book_of s) = lookup who (proposed_candidates s)"
  "stakes (staking_book_of s) cand = stakes_of (delegations s cand)"
  by (simp_all add: staking_book_of_def)

lemma find_candidate_lookup: "find_candidate a s = lookup who (proposed_candidates s) a"
  by (simp add: find_candidate_def lookup_def)

lemma ensure_out_of_pipeline_place:
  "lawful_codec cfg \<Longrightarrow> ensure_out_of_pipeline cfg a s =
     (case place_of a s of None \<Rightarrow> Inr () | Some e \<Rightarrow> Inl (PalletError e))"
  by (simp add: ensure_out_of_pipeline_def place_of_def)


lemma stakes_of_simps [simp]:
  "stakes_of None = (\<lambda>_. None)" "stakes_of (Some []) = (\<lambda>_. None)"
  by (simp_all add: stakes_of_def)

lemma stakes_of_Some: "stakes_of (Some l) = (\<lambda>a. map_option stake (lookup delegator l a))"
  by (simp add: stakes_of_def)

lemma dom_stakes_of: "dom (stakes_of (Some l)) = delegator ` set l"
  by (auto simp: stakes_of_Some simp flip: dom_lookup)

text \<open>The recomputed total is the sum over the map.\<close>

lemma total_of_book:
  assumes "\<And>l. ds = Some l \<Longrightarrow> distinct (map delegator l)"
  shows "total_of ds = book_total (stakes_of ds)"
proof (cases ds)
  case (Some l)
  have "stake_sum ds = (\<Sum>d\<in>dom (lookup delegator l). unat (stake (the (lookup delegator l d))))"
    using sum_lookup [of delegator l "\<lambda>d. unat (stake d)"] assms Some by (simp add: stake_sum_def)
  also have "\<dots> = (\<Sum>d\<in>dom (stakes_of ds). unat (the (stakes_of ds d)))"
    by (rule sum.cong) (auto simp: Some stakes_of_Some)
  finally have "unat (total_of ds) =
      min (2 ^ 128 - 1) (\<Sum>d\<in>dom (stakes_of ds). unat (the (stakes_of ds d)))"
    by (simp only: unat_total_of)
  moreover have "total_of ds = word_of_nat (unat (total_of ds))" by simp
  ultimately show ?thesis by (simp only: book_total_def)
qed (simp add: total_of_def book_total_def)

text \<open>\<open>add_delegation\<close> and \<open>take_delegation\<close> as updates of the map.\<close>

lemma add_delegation_book:
  assumes "\<And>l. maybe = Some l \<Longrightarrow> distinct (map delegator l)"
  shows "(case add_delegation bound a v maybe of
      None \<Rightarrow> stakes_of maybe a = None \<and> unat bound \<le> card (dom (stakes_of maybe))
    | Some ds \<Rightarrow> (stakes_of maybe a = None \<longrightarrow> card (dom (stakes_of maybe)) < unat bound) \<and>
        distinct (map delegator ds) \<and>
        stakes_of (Some ds) = (stakes_of maybe)(a \<mapsto>
          (case stakes_of maybe a of None \<Rightarrow> v | Some old \<Rightarrow> sat_add old v)))"
proof -
  define l where "l = (case maybe of None \<Rightarrow> [] | Some l \<Rightarrow> l)"
  have d: "distinct (map delegator l)" and m: "stakes_of maybe = stakes_of (Some l)"
    using assms by (auto simp: l_def stakes_of_def split: option.split)
  have add: "add_delegation bound a v maybe = (case lookup delegator l a of
      Some _ \<Rightarrow> Some (update_first (\<lambda>d. delegator d = a) (\<lambda>d. d\<lparr>stake := sat_add (stake d) v\<rparr>) l)
    | None \<Rightarrow> try_push bound \<lparr>delegator = a, stake = v\<rparr> l)"
    by (simp add: add_delegation_def Let_def lookup_def flip: l_def)
  have card: "card (dom (stakes_of maybe)) = length l"
    using d by (simp add: m dom_stakes_of card_dom_lookup flip: dom_lookup)
  show ?thesis
  proof (cases "lookup delegator l a")
    case None
    then have "a \<notin> delegator ` set l" by (simp add: lookup_eq_None)
    with None d card show ?thesis
      by (auto simp: add m stakes_of_Some lookup_snoc fun_eq_iff try_push_def)
  next
    case (Some d)
    with \<open>distinct (map delegator l)\<close> show ?thesis
      by (auto simp: add m stakes_of_Some lookup_update map_update_first fun_eq_iff)
  qed
qed

lemma take_delegation_book:
  assumes "\<And>l. maybe = Some l \<Longrightarrow> l \<noteq> [] \<and> distinct (map delegator l)"
  shows "(case take_delegation a maybe of
      Inl e \<Rightarrow> e = PalletError (if stakes_of maybe = (\<lambda>_. None) then NoDelegationsForCandidate
                else DelegationNotFound) \<and> stakes_of maybe a = None
    | Inr (v, rest) \<Rightarrow> stakes_of maybe a = Some v \<and>
        (\<forall>l. rest = Some l \<longrightarrow> distinct (map delegator l)) \<and>
        stakes_of rest = (stakes_of maybe)(a := None))"
proof (cases maybe)
  case None
  then show ?thesis by (simp add: take_delegation_def)
next
  case (Some l)
  with assms have d: "l \<noteq> []" "distinct (map delegator l)" by auto
  then have ne: "stakes_of maybe \<noteq> (\<lambda>_. None)"
    using dom_stakes_of [of l] Some by (metis dom_empty image_is_empty set_empty)
  show ?thesis
  proof (cases "position (\<lambda>d. delegator d = a) l")
    case None
    then have "lookup delegator l a = None" by (simp add: lookup_def position_None)
    with None Some ne show ?thesis by (simp add: take_delegation_def stakes_of_Some)
  next
    case (Some i)
    note rm = remove_at_position_keyed [OF d(2) Some]
    have at: "stakes_of maybe a = Some (stake (l ! i))"
      using position_Some [OF Some] by (simp add: \<open>maybe = Some l\<close> stakes_of_Some lookup_def)
    have "stakes_of (Some (remove_at i l)) = (stakes_of maybe)(a := None)"
      by (auto simp: \<open>maybe = Some l\<close> rm stakes_of_Some lookup_filter fun_eq_iff)
    then have rest: "stakes_of (if remove_at i l = [] then None else Some (remove_at i l)) =
        (stakes_of maybe)(a := None)"
      by (cases "remove_at i l = []") simp_all
    have "distinct (map delegator (remove_at i l))"
      using d(2) by (simp add: rm distinct_map_filter)
    with at rest show ?thesis
      using Some by (simp add: take_delegation_def Let_def \<open>maybe = Some l\<close>)
  qed
qed


section \<open>The vectors implement the maps\<close>

text \<open>A keyed change of one entry, with or without the sort that follows it, is an update of
  the map.\<close>

lemma staking_book_modify:
  assumes "registered_once s" "find_candidate a s = Some c" "\<And>c. who (f c) = who c"
  shows "staking_book_of (modify_candidate a f s) = put_entry a (f c) (staking_book_of s)"
    and "staking_book_of (sort_proposed_candidates (modify_candidate a f s)) =
         put_entry a (f c) (staking_book_of s)"
  using assms
  by (simp_all add: staking_book_of_def put_entry_def book_simps find_candidate_lookup
      map_update_first fun_eq_iff)

lemma staking_book_other [simp]:
  "staking_book_of (deposit_event e s) = staking_book_of s"
  "staking_book_of (s\<lparr>bank := m\<rparr>) = staking_book_of s"
  "staking_book_of (remove_from_waiting a s) = staking_book_of s"
  by (simp_all add: staking_book_of_def)

lemma adjust_reserve_moved:
  "adjust_reserve cfg a old new m = Inr m' \<longleftrightarrow>
     moved (currency cfg) a (movement_to old new) m m' \<and>
     \<not> (old < new \<and> free_balance (currency cfg) m a < new - old)"
  by (auto simp: adjust_reserve_def movement_to_def Let_def sat_sub_exact not_le
      split: sum.splits)

text \<open>What is known of a state in which the calls are compared with the specification.\<close>

definition book_keeping :: "'c staking_config \<Rightarrow> 'c chain \<Rightarrow> bool" where
  "book_keeping cfg s \<longleftrightarrow> lawful_codec cfg \<and> registered_once s \<and>
     (\<forall>cand l. delegations s cand = Some l \<longrightarrow> l \<noteq> [] \<and> distinct (map delegator l))"

lemma book_keeping_inv:
  "lawful_codec cfg \<Longrightarrow> staking_inv cfg desired s \<Longrightarrow> book_keeping cfg s"
  by (auto simp: book_keeping_def staking_inv_once)
    (auto simp: staking_inv_def delegations_inv_def delegation_ok_def)

text \<open>The answer of the specification and the outcome of the body agree. The bank refuses only
  amounts the caller has, and only where the specification allows the call, or has nothing
  against it but a full delegation vector, which the code looks at after the bank.\<close>

definition agrees ::
    "'c staking_config \<Rightarrow> account_id \<Rightarrow> 'c chain \<Rightarrow> 'c call_result \<Rightarrow>
     staking_error + (movement \<times> staking_book) \<Rightarrow> bool" where
  "agrees cfg a s r ans \<longleftrightarrow>
     (case fst r of
        Inr _ \<Rightarrow> (\<exists>mv. ans = Inr (mv, staking_book_of (snd r)) \<and>
                      moved (currency cfg) a mv (bank s) (bank (snd r)))
      | Inl (PalletError e) \<Rightarrow> ans = Inl e
      | Inl (ForeignError n) \<Rightarrow>
          (\<exists>v. v \<le> free_balance (currency cfg) (bank s) a \<and>
             reserve (currency cfg) (bank s) a v = Inl n) \<and>
          (\<forall>e. ans = Inl e \<longrightarrow> e = DelegationsMaxExceeded)
      | Inl _ \<Rightarrow> False)"


named_theorems agreement \<open>each body agrees with the specification\<close>

lemma register_agrees [agreement]:
  assumes "book_keeping cfg s"
  shows "agrees cfg a s (register_candidate cfg (System (Signed a)) s)
           (book_answer cfg a RegisterCandidate s)"
proof (cases "a \<in> who ` set (proposed_candidates s)")
  case True
  then show ?thesis
    by (auto simp: agrees_def register_candidate_def list_ex_iff dom_lookup)
next
  case False
  moreover from assms have "card (who ` set (proposed_candidates s)) = length (proposed_candidates s)"
    using card_dom_lookup [of who "proposed_candidates s"] by (simp add: book_keeping_def dom_lookup)
  moreover have "list_ex (\<lambda>c. who c = a) (proposed_candidates s) \<longleftrightarrow>
      a \<in> who ` set (proposed_candidates s)"
    by (auto simp: list_ex_iff)
  ultimately show ?thesis
    by (simp add: agrees_def register_candidate_def dom_lookup Let_def try_push_def
        staking_book_of_def put_entry_def lookup_snoc)
qed

lemma ensure_bond_allowed_place:
  "lawful_codec cfg \<Longrightarrow> ensure_bond_allowed cfg a v s =
     (case (if v = 0 then place_of a s
            else if v < min_candidate_bond cfg then Some InsufficientBond else None) of
        None \<Rightarrow> Inr () | Some e \<Rightarrow> Inl (PalletError e))"
  by (auto simp: ensure_bond_allowed_def ensure_out_of_pipeline_place dest: leD)

lemma adjust_reserve_error:
  "adjust_reserve cfg a old new m = Inl e \<Longrightarrow>
     e = PalletError InsufficientBalance \<and> old < new \<and> free_balance (currency cfg) m a < new - old \<or>
     (\<exists>n. e = ForeignError n \<and> new - old \<le> free_balance (currency cfg) m a \<and>
        reserve (currency cfg) m a (new - old) = Inl n)"
  by (auto simp: adjust_reserve_def Let_def sat_sub_exact not_le split: sum.splits if_splits)

abbreviation bond_guard ::
    "'c staking_config \<Rightarrow> account_id \<Rightarrow> balance \<Rightarrow> 'c chain \<Rightarrow> staking_error option" where
  "bond_guard cfg a v s \<equiv> (if v = 0 then place_of a s
     else if v < min_candidate_bond cfg then Some InsufficientBond else None)"

lemma bond_entry_agrees:
  assumes "book_keeping cfg s" and guard: "bond_guard cfg a v s = None"
    and c: "find_candidate a s = Some c"
  shows "agrees cfg a s (bond_candidate cfg (System (Signed a)) v s)
           (book_answer cfg a (BondCandidate v) s)"
proof -
  have known: "lawful_codec cfg" "registered_once s"
    using assms(1) by (simp_all add: book_keeping_def)
  have allowed: "ensure_bond_allowed cfg a v s = Inr ()"
    using known(1) guard by (simp only: ensure_bond_allowed_place option.case)
  have at: "lookup who (proposed_candidates s) a = Some c"
    using c by (simp add: find_candidate_lookup)
  show ?thesis
  proof (cases "adjust_reserve cfg a (bond c) v (bank s)")
    case (Inl e)
    then have "bond_candidate cfg (System (Signed a)) v s = (Inl e, s)"
      using c by (simp add: bond_candidate_def allowed)
    with adjust_reserve_error [OF Inl] guard at show ?thesis
      by (auto simp: agrees_def)
  next
    case (Inr m)
    let ?t = "deposit_event (CandidateBonded a v) (sort_proposed_candidates
      (modify_candidate a (\<lambda>c. c\<lparr>bond := v, last_updated := block_number s\<rparr>) (s\<lparr>bank := m\<rparr>)))"
    have "bond_candidate cfg (System (Signed a)) v s = (Inr (), ?t)"
      using Inr c by (simp add: bond_candidate_def allowed)
    moreover have "staking_book_of ?t =
        put_entry a (c\<lparr>bond := v, last_updated := block_number s\<rparr>) (staking_book_of s)"
      using known(2) c by (simp add: staking_book_modify find_candidate_lookup)
    ultimately show ?thesis
      using guard at Inr by (auto simp: agrees_def adjust_reserve_moved)
  qed
qed

lemma bond_agrees [agreement]:
  assumes "book_keeping cfg s"
  shows "agrees cfg a s (bond_candidate cfg (System (Signed a)) v s)
           (book_answer cfg a (BondCandidate v) s)"
proof (cases "bond_guard cfg a v s")
  case (Some e)
  have "ensure_bond_allowed cfg a v s = Inl (PalletError e)"
    using assms Some by (simp only: book_keeping_def ensure_bond_allowed_place option.case)
  with Some show ?thesis
    by (simp add: agrees_def bond_candidate_def)
next
  case None
  have allowed: "ensure_bond_allowed cfg a v s = Inr ()"
    using assms None by (simp only: book_keeping_def ensure_bond_allowed_place option.case)
  show ?thesis
  proof (cases "find_candidate a s")
    case None
    with allowed \<open>bond_guard cfg a v s = None\<close> show ?thesis
      by (simp add: agrees_def bond_candidate_def find_candidate_lookup)
  next
    case (Some c)
    with assms \<open>bond_guard cfg a v s = None\<close> show ?thesis by (rule bond_entry_agrees)
  qed
qed

lemma commission_agrees [agreement]:
  assumes "book_keeping cfg s"
  shows "agrees cfg a s (set_commission_of_candidate cfg (System (Signed a)) com s)
           (book_answer cfg a (SetCommissionOfCandidate com) s)"
  using assms
  by (auto simp: agrees_def set_commission_of_candidate_def find_candidate_lookup not_le
      book_keeping_def staking_book_modify split: option.split)

lemma switch_agrees:
  assumes "book_keeping cfg s"
  shows offline_agrees [agreement]: "agrees cfg a s (offline_candidate cfg (System (Signed a)) s)
      (book_answer cfg a OfflineCandidate s)"
    and online_agrees [agreement]: "agrees cfg a s (online_candidate cfg (System (Signed a)) s)
      (book_answer cfg a OnlineCandidate s)"
  using assms
  by (auto simp: agrees_def offline_candidate_def online_candidate_def set_offline_def
      find_candidate_lookup book_keeping_def staking_book_modify split: option.split)

lemma leave_agrees [agreement]:
  assumes "book_keeping cfg s"
  shows "agrees cfg a s (leave_candidate cfg (System (Signed a)) s)
           (book_answer cfg a LeaveCandidate s)"
  using assms
  by (auto simp: agrees_def leave_candidate_def ensure_out_of_pipeline_place
      find_candidate_lookup book_keeping_def staking_book_modify split: option.split)

lemma correction_agrees [agreement]:
  assumes "book_keeping cfg s"
  shows "agrees cfg a s (bond_correction cfg (System (Signed a)) v s)
           (book_answer cfg a (BondCorrection v) s)"
  using assms
  by (auto simp: agrees_def bond_correction_def ensure_out_of_pipeline_place
      find_candidate_lookup book_keeping_def staking_book_modify split: option.split)


text \<open>The shared end of \<open>stake_candidate\<close> and \<open>unstake_candidate\<close>.\<close>

abbreviation restaked ::
    "account_id \<Rightarrow> delegation list option \<Rightarrow> 'c \<Rightarrow> 'c chain \<Rightarrow> 'c chain" where
  "restaked cand ds m s \<equiv> sort_proposed_candidates (modify_candidate cand
     (\<lambda>c. c\<lparr>total_stake := total_of ds, last_updated := block_number s\<rparr>)
     (s\<lparr>bank := m, delegations := (delegations s)(cand := ds)\<rparr>))"

lemma recompute_restaked:
  "find_candidate cand s = Some c \<Longrightarrow>
   recompute_total_stake cand (s\<lparr>bank := m, delegations := (delegations s)(cand := ds)\<rparr>) =
     Inr (restaked cand ds m s)"
  by (simp add: recompute_total_stake_def find_candidate_def)

lemma recompute_restaked_after:
  assumes "find_candidate cand s = Some c"
  shows "recompute_total_stake cand (s\<lparr>delegations := (delegations s)(cand := ds), bank := m\<rparr>) =
     Inr (restaked cand ds m s)"
proof -
  have "s\<lparr>delegations := (delegations s)(cand := ds), bank := m\<rparr> =
      s\<lparr>bank := m, delegations := (delegations s)(cand := ds)\<rparr>"
    by simp
  then show ?thesis by (simp only: recompute_restaked [OF assms])
qed

lemma staking_book_restaked:
  assumes "registered_once s" "find_candidate cand s = Some c"
    and "\<And>l. ds = Some l \<Longrightarrow> distinct (map delegator l)"
  shows "staking_book_of (restaked cand ds m s) =
           put_stakes (block_number s) cand c (stakes_of ds) (staking_book_of s)"
proof -
  let ?s = "s\<lparr>bank := m, delegations := (delegations s)(cand := ds)\<rparr>"
  have "staking_book_of ?s = (staking_book_of s)
      \<lparr>stakes := (stakes (staking_book_of s))(cand := stakes_of ds)\<rparr>"
    by (auto simp: staking_book_of_def)
  moreover have "find_candidate cand ?s = Some c"
    using assms(2) by (simp add: find_candidate_def)
  ultimately show ?thesis
    using assms(1) total_of_book [OF assms(3)]
    by (simp add: staking_book_modify(2) put_stakes_def)
qed

lemma stake_agrees [agreement]:
  assumes "book_keeping cfg s"
  shows "agrees cfg a s (stake_candidate cfg (System (Signed a)) cand v s)
           (book_answer cfg a (StakeCandidate cand v) s)"
proof -
  have once: "registered_once s"
    and vec: "\<And>l. delegations s cand = Some l \<Longrightarrow> distinct (map delegator l)"
    using assms by (auto simp: book_keeping_def)
  let ?free = "free_balance (currency cfg) (bank s) a"
  show ?thesis
  proof (cases "a = cand \<or> find_candidate cand s = None \<or> \<not> v \<le> ?free")
    case True
    then show ?thesis
      by (auto simp: agrees_def stake_candidate_def list_ex_who find_candidate_lookup not_le
          split: option.split)
  next
    case False
    then obtain c where c: "find_candidate cand s = Some c" and ok: "a \<noteq> cand" "v \<le> ?free"
      by auto
    then have at: "lookup who (proposed_candidates s) cand = Some c"
      by (simp add: find_candidate_lookup)
    show ?thesis
    proof (cases "reserve (currency cfg) (bank s) a v")
      case (Inl n)
      with c ok at show ?thesis
        by (auto simp: agrees_def stake_candidate_def list_ex_who leD split: option.splits if_splits)
    next
      case (Inr m)
      note add = add_delegation_book [where maybe = "delegations s cand" and bound = "max_delegations cfg" and a = a and v = v, OF vec]
      show ?thesis
      proof (cases "add_delegation (max_delegations cfg) a v (delegations s cand)")
        case None
        with Inr c ok at add show ?thesis
          by (simp add: agrees_def stake_candidate_def list_ex_who Let_def leD)
      next
        case (Some ds)
        with add have ds: "\<And>l. Some ds = Some l \<Longrightarrow> distinct (map delegator l)" by simp
        note t = staking_book_restaked [where ds = "Some ds" and m = m, OF once c ds]
        from Some Inr c ok have "stake_candidate cfg (System (Signed a)) cand v s =
            (Inr (), deposit_event (DelegationAdded a cand v) (restaked cand (Some ds) m s))"
          by (simp add: stake_candidate_def list_ex_who Let_def recompute_restaked)
        with t add Some Inr ok at show ?thesis
          by (auto simp: agrees_def leD split: option.splits)
      qed
    qed
  qed
qed

lemma unstake_agrees [agreement]:
  assumes "book_keeping cfg s"
  shows "agrees cfg a s (unstake_candidate cfg (System (Signed a)) cand s)
           (book_answer cfg a (UnstakeCandidate cand) s)"
proof -
  have once: "registered_once s"
    and vec: "\<And>l. delegations s cand = Some l \<Longrightarrow> l \<noteq> [] \<and> distinct (map delegator l)"
    using assms by (auto simp: book_keeping_def)
  note take = take_delegation_book [where maybe = "delegations s cand" and a = a, OF vec]
  show ?thesis
  proof (cases "take_delegation a (delegations s cand)")
    case (Inl e)
    with take show ?thesis
      by (auto simp: agrees_def unstake_candidate_def split: option.split)
  next
    case (Inr p)
    obtain v rest where p: "p = (v, rest)" by (cases p)
    with Inr take have held: "stakes_of (delegations s cand) a = Some v"
      and left: "\<And>l. rest = Some l \<Longrightarrow> distinct (map delegator l)"
      and rest: "stakes_of rest = (stakes_of (delegations s cand))(a := None)"
      by auto
    have some: "stakes_of (delegations s cand) \<noteq> (\<lambda>_. None)"
      using held by (metis option.distinct(1))
    show ?thesis
    proof (cases "find_candidate cand s")
      case None
      with Inr p held some show ?thesis
        by (simp add: agrees_def unstake_candidate_def Let_def recompute_total_stake_def
            find_candidate_def lookup_def)
    next
      case (Some c)
      let ?m = "snd (unreserve (currency cfg) (bank s) a v)"
      note t = staking_book_restaked [where ds = rest and m = ?m, OF once Some left]
      have "unstake_candidate cfg (System (Signed a)) cand s =
          (Inr (), deposit_event (DelegationRevoked a cand) (restaked cand rest ?m s))"
        using Inr p recompute_restaked_after [where m = ?m and ds = rest, OF Some]
        by (simp add: unstake_candidate_def Let_def)
      with t held some rest Some show ?thesis
        by (simp add: agrees_def find_candidate_lookup)
    qed
  qed
qed

lemma call_agrees:
  assumes "book_keeping cfg s"
  shows "agrees cfg a s (call_body cfg (System (Signed a)) call s) (book_answer cfg a call s)"
  using assms by (cases call) (simp_all only: call_body.simps agreement)


lemma dispatch_agrees:
  assumes "lawful_codec cfg" "staking_inv cfg desired s"
  shows "agrees cfg a s (dispatch cfg (System (Signed a)) call s) (book_answer cfg a call s)"
proof -
  have "agrees cfg a s (call_body cfg (System (Signed a)) call s) (book_answer cfg a call s)"
    using assms by (intro call_agrees book_keeping_inv)
  moreover obtain r t where "call_body cfg (System (Signed a)) call s = (r, t)"
    by (cases "call_body cfg (System (Signed a)) call s")
  ultimately show ?thesis
    by (cases r) (simp_all add: agrees_def dispatch_def with_storage_layer_def)
qed

section \<open>Refinement\<close>

text \<open>C2: in every reachable state a successful staking call does to the two maps exactly
  what the specification says, and moves exactly the money it names: nothing depends on how
  the entries or the delegations are ordered in storage.\<close>

theorem staking_refines_book:
  assumes "reachable cfg desired s" and "lawful_codec cfg"
    and "dispatch cfg (System (Signed a)) call s = (Inr (), t)"
  shows "\<exists>mv. staking_book_call cfg (block_number s) (free_balance (currency cfg) (bank s) a)
             (place_of a s) a call (staking_book_of s) = Inr (mv, staking_book_of t) \<and>
           moved (currency cfg) a mv (bank s) (bank t)"
  using dispatch_agrees [OF assms(2) staking.inv_reach [OF assms(1)], of a call] assms(3)
  by (simp add: agrees_def)

theorem staking_refines_book_witness:
  "stakes (staking_book_of demo_staked) 2 3 = Some 70 \<and>
   moved ledger_ops 3 (Hold 70) (bank demo_registered) (bank demo_staked)"
proof -
  have "dispatch demo_config (System (Signed 3)) (StakeCandidate 2 70) demo_registered =
      (Inr (), demo_staked)"
    using demo_staked_call by simp
  from staking_refines_book [OF demo_reach_registered demo_codec this] show ?thesis
    by (auto simp: lookup_def stakes_of_def demo_ledger_def)
qed

text \<open>C19: which calls are refused, and how. In every reachable state, over any currency, a pallet
  error is the one the specification gives and leaves the storage as it was; and whatever the
  specification refuses the pallet refuses with the same error. The one call in which the
  bank may speak first is a stake into a full delegation vector: then its error is handed
  through, and again nothing is written.\<close>

theorem staking_errors_exact:
  assumes "reachable cfg desired s" and "lawful_codec cfg"
  shows "(\<forall>e t. dispatch cfg (System (Signed a)) call s = (Inl (PalletError e), t) \<longrightarrow>
      t = s \<and> staking_book_call cfg (block_number s) (free_balance (currency cfg) (bank s) a)
        (place_of a s) a call (staking_book_of s) = Inl e) \<and>
    (\<forall>e. staking_book_call cfg (block_number s) (free_balance (currency cfg) (bank s) a)
        (place_of a s) a call (staking_book_of s) = Inl e \<longrightarrow>
      dispatch cfg (System (Signed a)) call s = (Inl (PalletError e), s) \<or>
      e = DelegationsMaxExceeded \<and>
        (\<exists>n v. v \<le> free_balance (currency cfg) (bank s) a \<and>
           reserve (currency cfg) (bank s) a v = Inl n \<and>
           dispatch cfg (System (Signed a)) call s = (Inl (ForeignError n), s)))"
proof -
  obtain r u where r: "dispatch cfg (System (Signed a)) call s = (r, u)"
    by (cases "dispatch cfg (System (Signed a)) call s")
  have "u = s" if "r = Inl f" for f
    using r that by (simp add: dispatch_def with_storage_layer_Inl)
  moreover have "agrees cfg a s (r, u) (book_answer cfg a call s)"
    using dispatch_agrees [OF assms(2) staking.inv_reach [OF assms(1)], of a call] r by simp
  ultimately show ?thesis
    using r by (auto simp: agrees_def split: sum.splits dispatch_error.splits)
qed

theorem staking_errors_exact_witness:
  "dispatch demo_config (System (Signed 4)) (UnstakeCandidate 2) demo_staked =
     (Inl (PalletError DelegationNotFound), demo_staked)"
proof -
  have "staking_book_call demo_config (block_number demo_staked)
      (free_balance (currency demo_config) (bank demo_staked) 4) (place_of 4 demo_staked) 4
      (UnstakeCandidate 2) (staking_book_of demo_staked) = Inl DelegationNotFound"
    by (auto simp: lookup_def stakes_of_def fun_eq_iff)
  with staking_errors_exact [OF demo_reach_staked demo_codec, of 4 "UnstakeCandidate 2"]
  show ?thesis by blast
qed

end
