(* ===== verification/Staking_Ledger.thy ===== *)
theory Staking_Ledger
  imports Staking_Theorems
begin

text \<open>
  Conservation of money. No staking call creates or destroys any, and every call but
  \<open>bond_correction\<close> moves an account's reserve by exactly as much as his bond and stakes on
  record move: what other pallets hold in reserve is never touched. The two facts together are
  the accountant's view of the pallet; \<open>Staking_Solvency\<close> has the inequality they refine.
\<close>

section \<open>Totals\<close>

definition money_of :: "'c staking_config \<Rightarrow> 'c \<Rightarrow> account_id \<Rightarrow> nat" where
  "money_of cfg m a =
     unat (free_balance (currency cfg) m a) + unat (reserved_balance (currency cfg) m a)"

text \<open>The pots of every account together fit the balance type, as a total issuance within
  \<open>u128\<close> guarantees.\<close>

definition issuance_fits :: "'c staking_config \<Rightarrow> 'c \<Rightarrow> bool" where
  "issuance_fits cfg m \<longleftrightarrow> (\<forall>a. money_of cfg m a < 2 ^ 128)"

context staking_bank
begin

lemma call_money:
  assumes "call_body cfg org call s = (Inr u, t)" "issuance_fits cfg (bank s)"
  shows "money_of cfg (bank t) b = money_of cfg (bank s) b"
proof -
  from call_bank [OF assms(1)] obtain a where
    "bank t = bank s \<or> (\<exists>v. reserve (currency cfg) (bank s) a v = Inr (bank t)) \<or>
     (\<exists>v. bank t = snd (unreserve (currency cfg) (bank s) a v))"
    by blast
  moreover have "unat (free_balance (currency cfg) (bank s) a) +
      unat (reserved_balance (currency cfg) (bank s) a) < 2 ^ 128"
    using assms(2) by (simp add: issuance_fits_def money_of_def)
  ultimately show ?thesis
    unfolding money_of_def by (metis reserve_total unreserve_total)
qed

end

section \<open>Exact movements of the claims\<close>

lemma staked_in_absent: "\<forall>d\<in>set l. delegator d \<noteq> a \<Longrightarrow> staked_in (Some l) a = 0"
  by (auto simp: staked_in_def)

lemma staked_in_grow_exact:
  assumes "distinct (map delegator l)" "find (\<lambda>d. delegator d = a) l = Some d"
    and "unat (stake d) + unat amount < 2 ^ 128"
  shows "staked_in (Some (update_first (\<lambda>d. delegator d = a)
       (\<lambda>d. d\<lparr>stake := sat_add (stake d) amount\<rparr>) l)) b
     = staked_in (Some l) b + (if b = a then unat amount else 0)"
  using assms(1,2)
proof (induction l)
  case Nil
  then show ?case by simp
next
  case (Cons e l)
  show ?case
  proof (cases "delegator e = a")
    case True
    then have "unat (sat_add (stake e) amount) = unat (stake e) + unat amount"
      using Cons.prems(2) assms(3) by (simp add: unat_sat_add)
    with True show ?thesis by (simp add: staked_in_def)
  next
    case False
    with Cons show ?thesis by (auto simp: staked_in_def)
  qed
qed

lemma add_delegation_staked_exact:
  assumes vec: "\<And>l. old = Some l \<Longrightarrow> distinct (map delegator l)"
    and add: "add_delegation bound a amount old = Some ds"
    and room: "staked_in old a + unat amount < 2 ^ 128"
  shows "staked_in (Some ds) b = staked_in old b + (if b = a then unat amount else 0)"
proof -
  define l where "l = (case old of None \<Rightarrow> [] | Some l \<Rightarrow> l)"
  have old: "staked_in old = staked_in (Some l)"
    by (simp add: l_def staked_in_def fun_eq_iff split: option.split)
  have dist: "distinct (map delegator l)"
    using vec by (simp add: l_def split: option.split)
  show ?thesis
  proof (cases "find (\<lambda>d. delegator d = a) l")
    case None
    with add have "ds = l @ [\<lparr>delegator = a, stake = amount\<rparr>]"
      by (simp add: add_delegation_def l_def Let_def)
    then show ?thesis unfolding old by (simp add: staked_in_def)
  next
    case (Some d)
    with add have ds: "ds = update_first (\<lambda>d. delegator d = a)
        (\<lambda>d. d\<lparr>stake := sat_add (stake d) amount\<rparr>) l"
      by (simp add: add_delegation_def l_def Let_def)
    have "unat (stake d) \<le> staked_in (Some l) a"
    proof -
      from Some have "d \<in> set l" "delegator d = a" by (auto dest: find_Some_in)
      then have "unat (stake d) \<in> set (map (\<lambda>d. if delegator d = a then unat (stake d) else 0) l)"
        by force
      then show ?thesis by (simp add: staked_in_def member_le_sum_list)
    qed
    with room old have "unat (stake d) + unat amount < 2 ^ 128" by simp
    from staked_in_grow_exact [OF dist Some this] show ?thesis by (simp add: ds old)
  qed
qed

lemma staked_in_le_delegated: "staked_in (dels cand) a \<le> delegated dels a"
  unfolding delegated_def by (rule member_le_sum) simp_all

text \<open>What a call adds to the reserve it adds to the claims.\<close>

definition balanced_step :: "'c staking_config \<Rightarrow> 'c chain \<Rightarrow> 'c chain \<Rightarrow> bool" where
  "balanced_step cfg s t \<longleftrightarrow> (\<forall>a.
     unat (reserved_balance (currency cfg) (bank t) a) + claims s a =
     unat (reserved_balance (currency cfg) (bank s) a) + claims t a)"

context staking_bank
begin

lemma bond_balanced:
  assumes "registered_once s" "backed cfg s" "bond_candidate cfg org b s = (Inr u, t)"
  shows "balanced_step cfg s t"
proof -
  from bond_candidate_ok [OF assms(3)] obtain a c m where
    c: "find_candidate a s = Some c" and m: "adjust_reserve cfg a (bond c) b (bank s) = Inr m"
    and t: "bank t = m" "delegations t = delegations s"
      "proposed_candidates t = sort_candidates (update_first (\<lambda>c. who c = a)
         (\<lambda>c. c\<lparr>bond := b, last_updated := block_number s\<rparr>) (proposed_candidates s))"
    by auto
  have old: "bonded_in (proposed_candidates s) a = unat (bond c)"
    using assms(1) c by (simp add: bonded_in_find find_candidate_def)
  have new: "bonded_in (proposed_candidates t) x =
      (if x = a then unat b else bonded_in (proposed_candidates s) x)" for x
    using assms(1) c by (simp add: t bonded_in_rebond find_candidate_def)
  have "unat (bond c) \<le> unat (reserved_balance (currency cfg) (bank s) a)"
    using assms(2) old by (auto simp: backed_def claims_def elim: add_leD1 dest!: spec [of _ a])
  then show ?thesis
    using adjust_reserve_at [OF m] old new by (auto simp: balanced_step_def claims_def t(1,2))
qed

lemma stake_balanced:
  assumes inv: "delegations_inv cfg (delegations s)" and backed: "backed cfg s"
    and fits: "issuance_fits cfg (bank s)" and ok: "stake_candidate cfg org cand amount s = (Inr u, t)"
  shows "balanced_step cfg s t"
proof -
  from stake_candidate_ok [OF ok] obtain a m ds where
    m: "reserve (currency cfg) (bank s) a amount = Inr m"
    and ds: "add_delegation (max_delegations cfg) a amount (delegations s cand) = Some ds"
    and t: "bank t = m" "delegations t = (delegations s)(cand := Some ds)"
      "\<And>x. bonded_in (proposed_candidates t) x = bonded_in (proposed_candidates s) x"
    by (auto simp: bonded_in_update_frame)
  have vec: "\<And>l. delegations s cand = Some l \<Longrightarrow> distinct (map delegator l)"
    using inv by (simp add: delegations_inv_def delegation_ok_def)
  have "staked_in (delegations s cand) a \<le> unat (reserved_balance (currency cfg) (bank s) a)"
    using backed staked_in_le_delegated [of "delegations s" cand a]
    by (auto simp: backed_def claims_def dest!: spec [of _ a])
  moreover have "unat amount \<le> unat (free_balance (currency cfg) (bank s) a)"
    using reserve_covered [OF m] by (simp add: word_le_nat_alt)
  ultimately have "staked_in (delegations s cand) a + unat amount < 2 ^ 128"
    using fits by (auto simp: issuance_fits_def money_of_def dest!: spec [of _ a])
  note grown = add_delegation_staked_exact [OF vec ds this]
  have "claims t x = claims s x + (if x = a then unat amount else 0)" for x
    using delegated_upd [of "delegations s" cand "Some ds" x] grown [of x]
    by (simp add: claims_def t(2,3))
  then show ?thesis
    using reserve_reserved_at [OF m] by (simp add: balanced_step_def t(1))
qed

lemma unstake_balanced:
  assumes inv: "delegations_inv cfg (delegations s)" and backed: "backed cfg s"
    and ok: "unstake_candidate cfg org cand s = (Inr u, t)"
  shows "balanced_step cfg s t"
proof -
  from unstake_candidate_ok [OF ok] obtain a amount rest where
    tk: "take_delegation a (delegations s cand) = Inr (amount, rest)"
    and t: "bank t = snd (unreserve (currency cfg) (bank s) a amount)"
      "delegations t = (delegations s)(cand := rest)"
      "\<And>x. bonded_in (proposed_candidates t) x = bonded_in (proposed_candidates s) x"
    by (auto simp: bonded_in_update_frame)
  have "unat (reserved_balance (currency cfg) (bank t) x) + claims s x =
      unat (reserved_balance (currency cfg) (bank s) x) + claims t x" for x
  proof -
    have "claims t x + (if x = a then unat amount else 0) = claims s x"
      using delegated_upd [of "delegations s" cand rest x]
        take_delegation_staked [OF inv tk, of x] by (simp add: claims_def t(2,3))
    moreover have "claims s x \<le> unat (reserved_balance (currency cfg) (bank s) x)"
      using backed by (simp add: backed_def)
    ultimately show ?thesis
      using unreserve_reserved_at [of "bank s" a amount x]
      by (simp add: t(1) split: if_splits)
  qed
  then show ?thesis by (simp add: balanced_step_def)
qed

lemma call_balanced:
  assumes inv: "staking_inv cfg desired s" and backed: "backed cfg s"
    and fits: "issuance_fits cfg (bank s)"
    and ok: "call_body cfg org call s = (Inr u, t)" and other: "call \<notin> range BondCorrection"
  shows "balanced_step cfg s t"
proof -
  note once = staking_inv_once [OF inv]
  have dels: "delegations_inv cfg (delegations s)"
    using inv by (simp add: staking_inv_def)
  show ?thesis
  proof (cases call)
    case (BondCandidate b)
    with ok show ?thesis using bond_balanced [OF once backed] by simp
  next
    case (StakeCandidate cand amount)
    with ok show ?thesis using stake_balanced [OF dels backed fits] by simp
  next
    case (UnstakeCandidate cand)
    with ok show ?thesis using unstake_balanced [OF dels backed] by simp
  next
    case (BondCorrection b)
    with other show ?thesis by blast
  qed (use ok in \<open>auto dest!: register_candidate_ok set_commission_ok
      offline_candidate_ok online_candidate_ok leave_candidate_ok
      simp: balanced_step_def claims_def bonded_in_update_frame, simp_all add: bonded_in_def\<close>)
qed

end

section \<open>The property\<close>

lemma demo_issuance: "issuance_fits demo_config (bank demo_registered)"
  by (simp add: issuance_fits_def money_of_def demo_ledger_def)

text \<open>C4: exact books. Over any lawful currency, in every reachable state in which each account's
  money fits the balance type and its reserve covers its claims (as it does in all states
  admissible steps reach), no staking call of anybody changes any account's free plus reserved
  money; and all but \<open>bond_correction\<close> move everybody's reserve by exactly as much as his bond
  and stakes on record. Without the cover the second part fails: after the overdraft of
  \<open>bond_correction_breaks_backing\<close> a revocation has nothing left to release.\<close>

theorem staking_ledger_exact:
  assumes "reservable_currency (currency cfg)" and "reachable cfg desired s"
    and "issuance_fits cfg (bank s)"
    and "\<forall>b. claims s b \<le> unat (reserved_balance (currency cfg) (bank s) b)"
    and "dispatch cfg org call s = (r, t)"
  shows "money_of cfg (bank t) a = money_of cfg (bank s) a \<and>
    (call \<notin> range BondCorrection \<longrightarrow>
       unat (reserved_balance (currency cfg) (bank t) a) + claims s a =
       unat (reserved_balance (currency cfg) (bank s) a) + claims t a)"
proof (cases r)
  case (Inl e)
  with assms(5) show ?thesis by (simp add: dispatch_def with_storage_layer_Inl)
next
  case (Inr u)
  then have ok: "call_body cfg org call s = (Inr u, t)" using assms(5) by simp
  have bank: "staking_bank cfg" using assms(1) by (rule staking_bank.intro)
  have "balanced_step cfg s t" if "call \<notin> range BondCorrection"
    using bank staking.inv_reach [OF assms(2)] assms(4) [folded backed_def]
      assms(3) ok that by (rule staking_bank.call_balanced)
  with staking_bank.call_money [OF bank ok assms(3)] show ?thesis
    by (simp add: balanced_step_def)
qed

theorem staking_ledger_exact_witness:
  "money_of demo_config (bank demo_staked) 3 = 1000000000000000 \<and>
   unat (l_reserved (bank demo_staked) 3) + claims demo_registered 3 = claims demo_staked 3"
proof -
  have "dispatch demo_config (System (Signed 3)) (StakeCandidate 2 70) demo_registered =
      (Inr (), demo_staked)"
    using demo_staked_call by simp
  from staking_ledger_exact [OF demo.bank_law demo_reach_registered demo_issuance
      demo.backed_reach [OF demo_admissible_registered, unfolded backed_def] this, of 3]
  show ?thesis by (simp add: money_of_def demo_ledger_def image_iff)
qed

end
