(* ===== verification/Freezer.thy ===== *)
theory Freezer
  imports Frame Transition
begin

text \<open>
  \<open>pallet-xode-account-freezer\<close> (\<open>pallets/account-freezer/src/lib.rs\<close>): its storage,
  its four dispatchables over any currency that satisfies the documented
  \<open>fungible::freeze\<close> contract, the abstract account book it implements (which accounts are
  frozen, and how much), and the invariant that an account without an entry has nothing
  frozen under this pallet's reason.
\<close>

section \<open>The freezable currency\<close>

text \<open>\<open>InspectFreeze\<close> and \<open>MutateFreeze\<close> over a bank state \<open>'c\<close>; \<open>'i\<close> is the type of
  the runtime's freeze reasons. As in the code accounts and balances are type parameters;
  the operations take balances to be machine words of any width.\<close>

record ('a, 'b, 'c, 'i) freeze_ops =
  balance_frozen :: "'c \<Rightarrow> 'i \<Rightarrow> 'a \<Rightarrow> 'b"
  set_freeze :: "'c \<Rightarrow> 'i \<Rightarrow> 'a \<Rightarrow> 'b \<Rightarrow> nat + 'c"
  thaw :: "'c \<Rightarrow> 'i \<Rightarrow> 'a \<Rightarrow> nat + 'c"

locale freezable_currency =
  fixes F :: "('a, 'w::len word, 'c, 'i) freeze_ops"
  assumes set_freeze_frozen: "set_freeze F m i a v = Inr m' \<Longrightarrow> balance_frozen F m' i a = v"
    and set_freeze_frame: "set_freeze F m i a v = Inr m' \<Longrightarrow> (j, b) \<noteq> (i, a) \<Longrightarrow>
      balance_frozen F m' j b = balance_frozen F m j b"
    and thaw_frozen: "thaw F m i a = Inr m' \<Longrightarrow> balance_frozen F m' i a = 0"
    and thaw_frame: "thaw F m i a = Inr m' \<Longrightarrow> (j, b) \<noteq> (i, a) \<Longrightarrow>
      balance_frozen F m' j b = balance_frozen F m j b"
begin

lemma set_freeze_at:
  "set_freeze F m i a v = Inr m' \<Longrightarrow>
   balance_frozen F m' j b = (if j = i \<and> b = a then v else balance_frozen F m j b)"
  using set_freeze_frozen [of m i a v m'] set_freeze_frame [of m i a v m' j b] by auto

lemma thaw_at:
  "thaw F m i a = Inr m' \<Longrightarrow>
   balance_frozen F m' j b = (if j = i \<and> b = a then 0 else balance_frozen F m j b)"
  using thaw_frozen [of m i a m'] thaw_frame [of m i a m' j b] by auto

end

section \<open>Storage and calls\<close>

datatype freeze_reason = AccountFrozen

datatype freezer_error = AlreadyFrozen | NotFrozen | AmountExceedsFrozen

datatype ('a, 'b) freezer_event =
    AccountFrozenEvent 'a
  | AmountFrozen 'a 'b
  | AccountThawed 'a
  | AmountThawed 'a 'b

record ('o, 'a, 'b, 'c, 'i) freezer_config =
  freeze_currency :: "('a, 'b, 'c, 'i) freeze_ops"
  runtime_reason :: "freeze_reason \<Rightarrow> 'i"
  freeze_origin :: "'o \<Rightarrow> bool"

record ('a, 'b, 'c) freezer =
  frozen_map :: "'a \<Rightarrow> unit option"
  freezer_bank :: 'c
  freezer_events :: "('a, 'b) freezer_event list"

type_synonym freezer_failure = "freezer_error dispatch_error"
type_synonym ('a, 'b, 'c) freezer_result = "(freezer_failure, unit, ('a, 'b, 'c) freezer) outcome"

definition contains_key :: "'a \<Rightarrow> ('a, 'b, 'c) freezer \<Rightarrow> bool" where
  "contains_key a s \<longleftrightarrow> frozen_map s a \<noteq> None"

definition freezer_deposit ::
    "('a, 'b) freezer_event \<Rightarrow> ('a, 'b, 'c) freezer \<Rightarrow> ('a, 'b, 'c) freezer" where
  "freezer_deposit e s = s\<lparr>freezer_events := freezer_events s @ [e]\<rparr>"

definition freeze_account ::
    "('o, 'a, 'w::len word, 'c, 'i) freezer_config \<Rightarrow> 'o \<Rightarrow> 'a \<Rightarrow> ('a, 'w word, 'c) freezer \<Rightarrow>
     ('a, 'w word, 'c) freezer_result" where
  "freeze_account cfg org a s =
     (if \<not> freeze_origin cfg org then (Inl BadOrigin, s)
      else if contains_key a s then (Inl (PalletError AlreadyFrozen), s)
      else
        (case set_freeze (freeze_currency cfg) (freezer_bank s)
                (runtime_reason cfg AccountFrozen) a (- 1) of
           Inl n \<Rightarrow> (Inl (ForeignError n), s)
         | Inr m \<Rightarrow>
             (Inr (), freezer_deposit (AccountFrozenEvent a)
               (s\<lparr>freezer_bank := m, frozen_map := (frozen_map s)(a := Some ())\<rparr>))))"

definition freeze_amount ::
    "('o, 'a, 'w::len word, 'c, 'i) freezer_config \<Rightarrow> 'o \<Rightarrow> 'a \<Rightarrow> 'w word \<Rightarrow> ('a, 'w word, 'c) freezer \<Rightarrow>
     ('a, 'w word, 'c) freezer_result" where
  "freeze_amount cfg org a amount s =
     (if \<not> freeze_origin cfg org then (Inl BadOrigin, s)
      else if contains_key a s then (Inl (PalletError AlreadyFrozen), s)
      else
        (case set_freeze (freeze_currency cfg) (freezer_bank s)
                (runtime_reason cfg AccountFrozen) a amount of
           Inl n \<Rightarrow> (Inl (ForeignError n), s)
         | Inr m \<Rightarrow>
             (Inr (), freezer_deposit (AmountFrozen a amount)
               (s\<lparr>freezer_bank := m, frozen_map := (frozen_map s)(a := Some ())\<rparr>))))"

definition thaw_account ::
    "('o, 'a, 'w::len word, 'c, 'i) freezer_config \<Rightarrow> 'o \<Rightarrow> 'a \<Rightarrow> ('a, 'w word, 'c) freezer \<Rightarrow>
     ('a, 'w word, 'c) freezer_result" where
  "thaw_account cfg org a s =
     (if \<not> freeze_origin cfg org then (Inl BadOrigin, s)
      else if \<not> contains_key a s then (Inl (PalletError NotFrozen), s)
      else
        (case thaw (freeze_currency cfg) (freezer_bank s) (runtime_reason cfg AccountFrozen) a of
           Inl n \<Rightarrow> (Inl (ForeignError n), s)
         | Inr m \<Rightarrow>
             (Inr (), freezer_deposit (AccountThawed a)
               (s\<lparr>freezer_bank := m, frozen_map := (frozen_map s)(a := None)\<rparr>))))"

definition thaw_amount ::
    "('o, 'a, 'w::len word, 'c, 'i) freezer_config \<Rightarrow> 'o \<Rightarrow> 'a \<Rightarrow> 'w word \<Rightarrow> ('a, 'w word, 'c) freezer \<Rightarrow>
     ('a, 'w word, 'c) freezer_result" where
  "thaw_amount cfg org a amount s =
     (if \<not> freeze_origin cfg org then (Inl BadOrigin, s)
      else if \<not> contains_key a s then (Inl (PalletError NotFrozen), s)
      else
        let F = freeze_currency cfg;
            i = runtime_reason cfg AccountFrozen;
            frozen = balance_frozen F (freezer_bank s) i a
        in if \<not> amount \<le> frozen then (Inl (PalletError AmountExceedsFrozen), s)
           else
             let remaining = frozen - amount in
             if remaining = 0 then
               (case thaw F (freezer_bank s) i a of
                  Inl n \<Rightarrow> (Inl (ForeignError n), s)
                | Inr m \<Rightarrow>
                    (Inr (), freezer_deposit (AmountThawed a amount)
                      (s\<lparr>freezer_bank := m, frozen_map := (frozen_map s)(a := None)\<rparr>)))
             else
               (case set_freeze F (freezer_bank s) i a remaining of
                  Inl n \<Rightarrow> (Inl (ForeignError n), s)
                | Inr m \<Rightarrow>
                    (Inr (), freezer_deposit (AmountThawed a amount) (s\<lparr>freezer_bank := m\<rparr>))))"

datatype ('a, 'b) freezer_call =
    FreezeAccount 'a
  | FreezeAmount 'a 'b
  | ThawAccount 'a
  | ThawAmount 'a 'b

fun freezer_call_index :: "('a, 'b) freezer_call \<Rightarrow> nat" where
  "freezer_call_index (FreezeAccount _) = 0"
| "freezer_call_index (FreezeAmount _ _) = 1"
| "freezer_call_index (ThawAccount _) = 2"
| "freezer_call_index (ThawAmount _ _) = 3"

fun freezer_body ::
    "('o, 'a, 'w::len word, 'c, 'i) freezer_config \<Rightarrow> 'o \<Rightarrow> ('a, 'w word) freezer_call \<Rightarrow> ('a, 'w word, 'c) freezer \<Rightarrow>
     ('a, 'w word, 'c) freezer_result" where
  "freezer_body cfg org (FreezeAccount a) = freeze_account cfg org a"
| "freezer_body cfg org (FreezeAmount a v) = freeze_amount cfg org a v"
| "freezer_body cfg org (ThawAccount a) = thaw_account cfg org a"
| "freezer_body cfg org (ThawAmount a v) = thaw_amount cfg org a v"

definition freezer_dispatch ::
    "('o, 'a, 'w::len word, 'c, 'i) freezer_config \<Rightarrow> 'o \<Rightarrow> ('a, 'w word) freezer_call \<Rightarrow> ('a, 'w word, 'c) freezer \<Rightarrow>
     ('a, 'w word, 'c) freezer_result" where
  "freezer_dispatch cfg org call = with_storage_layer (freezer_body cfg org call)"

lemmas freezer_defs = freeze_account_def freeze_amount_def thaw_account_def thaw_amount_def

lemma freezer_deposit_sel [simp]:
  "frozen_map (freezer_deposit e s) = frozen_map s"
  "freezer_bank (freezer_deposit e s) = freezer_bank s"
  "freezer_events (freezer_deposit e s) = freezer_events s @ [e]"
  by (simp_all add: freezer_deposit_def)

section \<open>The abstract account book\<close>

text \<open>What the pallet promises: a partial map from accounts to frozen amounts. A call that
  is not defined on the book is an error.\<close>

type_synonym ('a, 'b) freeze_book = "'a \<Rightarrow> 'b option"

fun book_call ::
    "('a, 'w::len word) freezer_call \<Rightarrow> ('a, 'w word) freeze_book \<Rightarrow> freezer_error + ('a, 'w word) freeze_book" where
  "book_call (FreezeAccount a) b =
     (case b a of Some _ \<Rightarrow> Inl AlreadyFrozen | None \<Rightarrow> Inr (b(a := Some (- 1))))"
| "book_call (FreezeAmount a v) b =
     (case b a of Some _ \<Rightarrow> Inl AlreadyFrozen | None \<Rightarrow> Inr (b(a := Some v)))"
| "book_call (ThawAccount a) b =
     (case b a of None \<Rightarrow> Inl NotFrozen | Some _ \<Rightarrow> Inr (b(a := None)))"
| "book_call (ThawAmount a v) b =
     (case b a of None \<Rightarrow> Inl NotFrozen
      | Some f \<Rightarrow>
          if f < v then Inl AmountExceedsFrozen
          else Inr (b(a := (if f = v then None else Some (f - v)))))"

definition book_of ::
    "('o, 'a, 'w::len word, 'c, 'i) freezer_config \<Rightarrow> ('a, 'w word, 'c) freezer \<Rightarrow> ('a, 'w word) freeze_book" where
  "book_of cfg s = (\<lambda>a.
     if contains_key a s
     then Some (balance_frozen (freeze_currency cfg) (freezer_bank s)
                 (runtime_reason cfg AccountFrozen) a)
     else None)"

text \<open>Nothing is frozen under the pallet's reason without an entry in \<open>Frozen\<close>.\<close>

definition freezer_inv ::
    "('o, 'a, 'w::len word, 'c, 'i) freezer_config \<Rightarrow> ('a, 'w word, 'c) freezer \<Rightarrow> bool" where
  "freezer_inv cfg s \<longleftrightarrow>
     (\<forall>a. \<not> contains_key a s \<longrightarrow>
        balance_frozen (freeze_currency cfg) (freezer_bank s)
          (runtime_reason cfg AccountFrozen) a = 0)"

section \<open>Steps\<close>

inductive freezer_step ::
    "('o, 'a, 'w::len word, 'c, 'i) freezer_config \<Rightarrow> ('a, 'w word, 'c) freezer \<Rightarrow> ('a, 'w word, 'c) freezer \<Rightarrow> bool"
  for cfg :: "('o, 'a, 'w::len word, 'c, 'i) freezer_config" where
  freezer_extrinsic: "freezer_dispatch cfg org call s = (r, t) \<Longrightarrow> freezer_step cfg s t"
| freezer_outside: "(\<And>a. balance_frozen (freeze_currency cfg) m (runtime_reason cfg AccountFrozen) a =
       balance_frozen (freeze_currency cfg) (freezer_bank s) (runtime_reason cfg AccountFrozen) a) \<Longrightarrow>
     freezer_step cfg s (s\<lparr>freezer_bank := m\<rparr>)"

definition freezer_genesis ::
    "('o, 'a, 'w::len word, 'c, 'i) freezer_config \<Rightarrow> ('a, 'w word, 'c) freezer \<Rightarrow> bool" where
  "freezer_genesis cfg s \<longleftrightarrow>
     frozen_map s = (\<lambda>_. None) \<and>
     (\<forall>a. balance_frozen (freeze_currency cfg) (freezer_bank s)
            (runtime_reason cfg AccountFrozen) a = 0)"

locale freezer_backend =
  fixes cfg :: "('o, 'a, 'w::len word, 'c, 'i) freezer_config"
  assumes freeze_law: "freezable_currency (freeze_currency cfg)"

sublocale freezer_backend \<subseteq> freezable_currency "freeze_currency cfg"
  by (rule freeze_law)

context freezer_backend
begin

lemma body_book:
  assumes "freezer_body cfg org call s = (Inr u, t)"
  shows "book_call call (book_of cfg s) = Inr (book_of cfg t)"
proof (cases call)
  case (ThawAmount a v)
  with assms show ?thesis
    by (auto simp: thaw_amount_def book_of_def contains_key_def Let_def fun_eq_iff set_freeze_at thaw_at
        not_le split: if_splits sum.splits)
qed (use assms in \<open>auto simp: freezer_defs book_of_def contains_key_def fun_eq_iff
      set_freeze_at thaw_at split: if_splits sum.splits\<close>)

lemma dispatch_book:
  "freezer_dispatch cfg org call s = (Inr u, t) \<Longrightarrow>
   book_call call (book_of cfg s) = Inr (book_of cfg t)"
  by (simp add: freezer_dispatch_def body_book)

lemma body_inv:
  assumes "freezer_body cfg org call s = (Inr u, t)" "freezer_inv cfg s"
  shows "freezer_inv cfg t"
proof (cases call)
  case (ThawAmount a v)
  with assms show ?thesis
    by (auto simp: thaw_amount_def freezer_inv_def contains_key_def Let_def set_freeze_at thaw_at
        split: if_splits sum.splits)
qed (use assms in \<open>auto simp: freezer_defs freezer_inv_def contains_key_def
      set_freeze_at thaw_at split: if_splits sum.splits\<close>)

lemma step_inv: "freezer_step cfg s t \<Longrightarrow> freezer_inv cfg s \<Longrightarrow> freezer_inv cfg t"
proof (induction rule: freezer_step.induct)
  case (freezer_extrinsic org call s r t)
  then show ?case
    by (cases r) (auto simp: freezer_dispatch_def with_storage_layer_Inl intro: body_inv)
next
  case (freezer_outside m s)
  then show ?case by (simp add: freezer_inv_def contains_key_def)
qed

end

sublocale freezer_backend \<subseteq> frozen: inductive_invariant
  "freezer_genesis cfg" "freezer_step cfg" "freezer_inv cfg"
proof unfold_locales
  show "freezer_genesis cfg s \<Longrightarrow> freezer_inv cfg s" for s
    by (simp add: freezer_genesis_def freezer_inv_def)
qed (rule step_inv)

context freezer_backend
begin

lemma reach_inv: "reach (freezer_genesis cfg) (freezer_step cfg) s \<Longrightarrow> freezer_inv cfg s"
  by (rule frozen.inv_reach)

end

section \<open>A concrete freeze book\<close>

text \<open>One frozen amount per reason and account, as the witnesses use it.\<close>

definition book_ops :: "('a, 'w::len word, 'i \<Rightarrow> 'a \<Rightarrow> 'w word, 'i) freeze_ops" where
  "book_ops =
     \<lparr>balance_frozen = (\<lambda>m. m),
      set_freeze = (\<lambda>m i a v. Inr (m(i := (m i)(a := v)))),
      thaw = (\<lambda>m i a. Inr (m(i := (m i)(a := 0))))\<rparr>"

lemma book_ops_sel [simp]:
  "balance_frozen book_ops m = m"
  "set_freeze book_ops m i a v = Inr (m(i := (m i)(a := v)))"
  "thaw book_ops m i a = Inr (m(i := (m i)(a := 0)))"
  by (simp_all add: book_ops_def)

interpretation book: freezable_currency book_ops
  by unfold_locales auto

text \<open>A frozen book under one reason, driven by Root alone.\<close>

definition demo_freezer_config ::
    "(origin, account_id, balance, unit \<Rightarrow> account_id \<Rightarrow> balance, unit) freezer_config" where
  "demo_freezer_config = \<lparr>freeze_currency = book_ops, runtime_reason = (\<lambda>_. ()),
     freeze_origin = (\<lambda>org. org = System Root)\<rparr>"

definition demo_freezer ::
    "account_id list \<Rightarrow> (account_id \<Rightarrow> balance) \<Rightarrow> (account_id, balance, unit \<Rightarrow> account_id \<Rightarrow> balance) freezer" where
  "demo_freezer as m = \<lparr>frozen_map = (\<lambda>a. if a \<in> set as then Some () else None),
     freezer_bank = (\<lambda>_. m), freezer_events = []\<rparr>"

lemma demo_freezer_sel [simp]:
  "freeze_currency demo_freezer_config = book_ops" "runtime_reason demo_freezer_config = (\<lambda>_. ())"
  "freeze_origin demo_freezer_config org \<longleftrightarrow> org = System Root"
  "freezer_bank (demo_freezer as m) = (\<lambda>_. m)" "contains_key a (demo_freezer as m) \<longleftrightarrow> a \<in> set as"
  by (simp_all add: demo_freezer_config_def demo_freezer_def contains_key_def)

interpretation demo_freezing: freezer_backend demo_freezer_config
  by (rule freezer_backend.intro) (simp add: book.freezable_currency_axioms)

section \<open>Properties\<close>

lemma freezer_dispatch_denied:
  "\<not> freeze_origin cfg org \<Longrightarrow> freezer_dispatch cfg org call s = (Inl BadOrigin, s)"
  by (cases call) (simp_all add: freezer_dispatch_def with_storage_layer_Inl freezer_defs)

lemma freezer_dispatch_authorised:
  "freeze_origin cfg org \<Longrightarrow> fst (freezer_dispatch cfg org call s) \<noteq> Inl BadOrigin"
  by (cases call)
    (simp_all add: freezer_dispatch_def with_storage_layer_def freezer_defs Let_def split: sum.split)

text \<open>C32: refinement. Seen as a partial map from accounts to frozen amounts, a successful call
  does exactly what the abstract account book prescribes, on the account it names and on
  every other account.\<close>

theorem freezer_refines_book:
  assumes "freezable_currency (freeze_currency cfg)"
    and "freezer_dispatch cfg org call s = (Inr (), t)"
  shows "book_call call (book_of cfg s) = Inr (book_of cfg t)"
proof -
  have "freezer_backend cfg" using assms(1) by (rule freezer_backend.intro)
  from freezer_backend.dispatch_book [OF this assms(2)] show ?thesis .
qed

theorem freezer_refines_book_witness:
  "\<exists>t. freezer_dispatch demo_freezer_config (System Root) (ThawAmount 2 4) (demo_freezer [2] (\<lambda>_. 9)) =
      (Inr (), t) \<and> book_of demo_freezer_config t 2 = Some 5"
proof -
  obtain t where t: "freezer_dispatch demo_freezer_config (System Root) (ThawAmount 2 4)
      (demo_freezer [2] (\<lambda>_. 9)) = (Inr (), t)"
    by (simp add: freezer_dispatch_def thaw_amount_def Let_def)
  from freezer_refines_book [OF demo_freezing.freeze_law t]
  have "book_of demo_freezer_config t = (book_of demo_freezer_config (demo_freezer [2] (\<lambda>_. 9)))(2 := Some 5)"
    by (simp add: book_of_def)
  with t show ?thesis by simp
qed

text \<open>C33: the errors are exact. For an authorised origin a call ends in one of the pallet's own
  errors if and only if the account book has that error for it, and then nothing is
  written.\<close>

theorem freezer_errors_exact:
  assumes "freeze_origin cfg org"
  shows "freezer_dispatch cfg org call s = (Inl (PalletError e), t) \<longleftrightarrow>
    t = s \<and> book_call call (book_of cfg s) = Inl e"
  using assms
  by (cases call)
    (auto simp: freezer_dispatch_def with_storage_layer_Inl freezer_defs book_of_def Let_def not_le
      split: sum.splits if_splits)

theorem freezer_errors_exact_witness:
  "freezer_dispatch demo_freezer_config (System Root) (ThawAmount 2 10) (demo_freezer [2] (\<lambda>_. 9)) =
   (Inl (PalletError AmountExceedsFrozen), demo_freezer [2] (\<lambda>_. 9))"
proof -
  have "freeze_origin demo_freezer_config (System Root)" by simp
  from freezer_errors_exact [OF this, of "ThawAmount 2 10" "demo_freezer [2] (\<lambda>_. 9)"]
  show ?thesis by (simp add: book_of_def)
qed

text \<open>In every reachable state an account without an entry in \<open>Frozen\<close> has nothing frozen
  under the pallet's reason, so a freeze never stacks on another and a thaw never leaves a
  remainder behind.\<close>

theorem unlisted_accounts_unfrozen:
  assumes "freezable_currency (freeze_currency cfg)"
    and "reach (freezer_genesis cfg) (freezer_step cfg) s" and "\<not> contains_key a s"
  shows "balance_frozen (freeze_currency cfg) (freezer_bank s) (runtime_reason cfg AccountFrozen) a = 0"
proof -
  have "freezer_backend cfg" using assms(1) by (rule freezer_backend.intro)
  from freezer_backend.reach_inv [OF this assms(2)] assms(3) show ?thesis
    by (simp add: freezer_inv_def)
qed

theorem unlisted_accounts_unfrozen_witness:
  "balance_frozen book_ops (freezer_bank (demo_freezer [] (\<lambda>_. 0))) () 2 = 0"
proof -
  have "freezer_genesis demo_freezer_config (demo_freezer [] (\<lambda>_. 0))"
    by (simp add: freezer_genesis_def) (simp add: demo_freezer_def)
  then have "reach (freezer_genesis demo_freezer_config) (freezer_step demo_freezer_config)
      (demo_freezer [] (\<lambda>_. 0))"
    by (rule reach_init)
  from unlisted_accounts_unfrozen [OF demo_freezing.freeze_law this, of 2] show ?thesis by simp
qed

text \<open>Freezing and thawing are inverse: after a successful freeze of either kind and a
  successful \<open>thaw_account\<close> the account book is the one before.\<close>

theorem freeze_thaw_roundtrip:
  assumes law: "freezable_currency (freeze_currency cfg)"
    and freeze: "freezer_dispatch cfg org call s = (Inr (), t)"
    and call: "call = FreezeAccount a \<or> call = FreezeAmount a v"
    and thaw: "freezer_dispatch cfg org' (ThawAccount a) t = (Inr (), u)"
  shows "book_of cfg u = book_of cfg s"
proof -
  have be: "freezer_backend cfg" using law by (rule freezer_backend.intro)
  obtain f where "book_of cfg s a = None" "(book_of cfg s)(a := Some f) = book_of cfg t"
    using freezer_backend.dispatch_book [OF be freeze] call by (auto split: option.splits)
  moreover have "book_of cfg u = (book_of cfg t)(a := None)"
    using freezer_backend.dispatch_book [OF be thaw] by (auto split: option.splits)
  ultimately show ?thesis by (metis fun_upd_triv fun_upd_upd)
qed

theorem freeze_thaw_roundtrip_witness:
  "\<exists>t u. freezer_dispatch demo_freezer_config (System Root) (FreezeAmount 2 7) (demo_freezer [] (\<lambda>_. 0)) =
        (Inr (), t) \<and>
      freezer_dispatch demo_freezer_config (System Root) (ThawAccount 2) t = (Inr (), u) \<and>
      book_of demo_freezer_config u 2 = None"
proof -
  obtain t where t: "freezer_dispatch demo_freezer_config (System Root) (FreezeAmount 2 7)
      (demo_freezer [] (\<lambda>_. 0)) = (Inr (), t)" "contains_key 2 t"
    by (auto simp: freezer_dispatch_def freeze_amount_def contains_key_def freezer_deposit_def
        demo_freezer_def)
  then obtain u where u: "freezer_dispatch demo_freezer_config (System Root) (ThawAccount 2) t = (Inr (), u)"
    by (auto simp: freezer_dispatch_def thaw_account_def)
  from freeze_thaw_roundtrip [OF demo_freezing.freeze_law t(1) _ u, where v = 7]
  have "book_of demo_freezer_config u = book_of demo_freezer_config (demo_freezer [] (\<lambda>_. 0))" by simp
  moreover have "book_of demo_freezer_config (demo_freezer [] (\<lambda>_. 0)) 2 = None"
    by (simp add: book_of_def)
  ultimately show ?thesis using t u by auto
qed

text \<open>C34: partial thaws add up: two successful \<open>thaw_amount\<close> calls leave the book that one call
  for the sum leaves, and the sum neither wraps nor exceeds what was frozen.\<close>

theorem thaw_amounts_add:
  assumes law: "freezable_currency (freeze_currency cfg)"
    and first: "freezer_dispatch cfg org (ThawAmount a v) s = (Inr (), t)"
    and second: "freezer_dispatch cfg org' (ThawAmount a w) t = (Inr (), u)"
  shows "book_call (ThawAmount a (v + w)) (book_of cfg s) = Inr (book_of cfg u) \<and>
    (\<exists>f. book_of cfg s a = Some f \<and> unat v + unat w \<le> unat f \<and> unat (v + w) = unat v + unat w)"
proof -
  have be: "freezer_backend cfg" using law by (rule freezer_backend.intro)
  note b = freezer_backend.dispatch_book [OF be first] freezer_backend.dispatch_book [OF be second]
  then obtain f where f: "book_of cfg s a = Some f" "\<not> f < v"
    "book_of cfg t = (book_of cfg s)(a := (if f = v then None else Some (f - v)))"
    by (auto split: option.splits if_splits)
  with b(2) have w: "f \<noteq> v" "\<not> f - v < w"
    "book_of cfg u = (book_of cfg s)(a := (if f - v = w then None else Some (f - v - w)))"
    by (auto split: if_splits)
  have sum: "unat v + unat w \<le> unat f"
    using f(2) w(2) by (simp add: word_less_nat_alt not_less unat_sub word_le_nat_alt)
  then have plus: "unat (v + w) = unat v + unat w"
    using le_less_trans [OF sum unsigned_less [of f]] by (simp add: unat_add_lem)
  have "\<not> f < v + w"
    using sum plus by (simp add: word_less_nat_alt)
  moreover have "f = v + w \<longleftrightarrow> f - v = w" by (auto simp: algebra_simps)
  ultimately show ?thesis
    using f(1) sum plus w(3) by (simp add: diff_diff_eq)
qed

theorem thaw_amounts_add_witness:
  "\<exists>u. book_call (ThawAmount 2 7) (book_of demo_freezer_config (demo_freezer [2] (\<lambda>_. 9))) = Inr u \<and>
     u 2 = Some 2"
proof -
  obtain t where t: "freezer_dispatch demo_freezer_config (System Root) (ThawAmount 2 4)
      (demo_freezer [2] (\<lambda>_. 9)) = (Inr (), t)" "contains_key 2 t"
      "balance_frozen book_ops (freezer_bank t) () 2 = 5"
    by (auto simp: freezer_dispatch_def thaw_amount_def Let_def contains_key_def freezer_deposit_def
        demo_freezer_def)
  obtain u where u: "freezer_dispatch demo_freezer_config (System Root) (ThawAmount 2 3) t = (Inr (), u)"
    using t by (auto simp: freezer_dispatch_def thaw_amount_def Let_def)
  have "book_call (ThawAmount 2 7) (book_of demo_freezer_config (demo_freezer [2] (\<lambda>_. 9))) =
      Inr ((book_of demo_freezer_config (demo_freezer [2] (\<lambda>_. 9)))(2 := Some 2))"
    by (simp add: book_of_def)
  with thaw_amounts_add [OF demo_freezing.freeze_law t(1) u] show ?thesis by simp
qed

text \<open>Freezing an amount of zero succeeds on an unlisted account, freezes nothing, and yet
  takes the account's entry: until it is thawed, a real freeze of the account is refused as
  \<open>AlreadyFrozen\<close>.\<close>

theorem zero_freeze_blocks_freezing:
  assumes law: "freezable_currency (freeze_currency cfg)"
    and zero: "freezer_dispatch cfg org (FreezeAmount a 0) s = (Inr (), t)"
  shows "balance_frozen (freeze_currency cfg) (freezer_bank t) (runtime_reason cfg AccountFrozen) a = 0 \<and>
    freezer_dispatch cfg org (FreezeAccount a) t = (Inl (PalletError AlreadyFrozen), t)"
proof -
  have be: "freezer_backend cfg" using law by (rule freezer_backend.intro)
  have "freeze_origin cfg org"
    using zero by (auto simp: freezer_dispatch_def freeze_amount_def split: if_splits)
  moreover have "book_of cfg t = (book_of cfg s)(a := Some 0)"
    using freezer_backend.dispatch_book [OF be zero] by (auto split: option.splits)
  then have "book_of cfg t a = Some 0" by simp
  then have "contains_key a t"
    "balance_frozen (freeze_currency cfg) (freezer_bank t) (runtime_reason cfg AccountFrozen) a = 0"
    by (simp_all add: book_of_def split: if_splits)
  ultimately show ?thesis
    by (simp add: freezer_dispatch_def with_storage_layer_Inl freeze_account_def)
qed

theorem zero_freeze_blocks_freezing_witness:
  "\<exists>t. freezer_dispatch demo_freezer_config (System Root) (FreezeAmount 2 0) (demo_freezer [] (\<lambda>_. 0)) =
        (Inr (), t) \<and>
      freezer_dispatch demo_freezer_config (System Root) (FreezeAccount 2) t =
        (Inl (PalletError AlreadyFrozen), t)"
proof -
  obtain t where t: "freezer_dispatch demo_freezer_config (System Root) (FreezeAmount 2 0)
      (demo_freezer [] (\<lambda>_. 0)) = (Inr (), t)"
    by (auto simp: freezer_dispatch_def freeze_amount_def)
  from zero_freeze_blocks_freezing [OF demo_freezing.freeze_law t] t show ?thesis by auto
qed

end
