(* ===== verification/Governance.thy ===== *)
theory Governance
  imports Freezer Constants
begin

text \<open>
  Who may do what (\<open>runtime/src/configs/mod.rs\<close>): the origin aliases of the Technical
  Committee and the Treasury Council, and the privileged origins the runtime gives to the
  collective, membership, whitelist, treasury, assets, preimage and freezer pallets. The
  \<open>EnsureOrigin\<close> building blocks (\<open>EnsureRoot\<close>, \<open>EnsureProportionMoreThan\<close>,
  \<open>EnsureProportionAtLeast\<close>, \<open>EitherOfDiverse\<close>, \<open>EnsureWithSuccess\<close>) are library code: they are a
  parameter of the definitions, with their documented behaviour in the locale
  \<open>origin_gates\<close>.
\<close>

section \<open>The library's origin checks\<close>

datatype collective_instance = TechnicalCommitteeInstance | TreasuryCouncilInstance

text \<open>A motion of a collective that \<open>yes\<close> of its \<open>total\<close> members approved.\<close>

fun motion :: "collective_instance \<Rightarrow> u32 \<Rightarrow> u32 \<Rightarrow> origin" where
  "motion TechnicalCommitteeInstance y t = TechnicalCommittee (Members y t)"
| "motion TreasuryCouncilInstance y t = TreasuryCouncil (Members y t)"

type_synonym gate = "origin \<Rightarrow> bool"

record gate_ops =
  ensure_root :: gate
  proportion_more_than :: "collective_instance \<Rightarrow> u32 \<Rightarrow> u32 \<Rightarrow> gate"
  proportion_at_least :: "collective_instance \<Rightarrow> u32 \<Rightarrow> u32 \<Rightarrow> gate"
  either_of_diverse :: "gate \<Rightarrow> gate \<Rightarrow> gate"
  with_success :: "gate \<Rightarrow> balance \<Rightarrow> origin \<Rightarrow> balance option"

text \<open>The proportions are documented for the sizes a collective can have here (\<open>MaxMembers\<close>
  is 100 for both), where the library's \<open>u32\<close> products are exact.\<close>

locale origin_gates =
  fixes G :: gate_ops
  assumes root_law: "ensure_root G org \<longleftrightarrow> org = System Root"
    and more_motion: "proportion_more_than G i n d org \<Longrightarrow> \<exists>y t. org = motion i y t"
    and more_law: "unat t \<le> 100 \<Longrightarrow> unat y \<le> unat t \<Longrightarrow> unat n \<le> 100 \<Longrightarrow> unat d \<le> 100 \<Longrightarrow>
      proportion_more_than G i n d (motion i y t) \<longleftrightarrow> unat n * unat t < unat y * unat d"
    and least_motion: "proportion_at_least G i n d org \<Longrightarrow> \<exists>y t. org = motion i y t"
    and least_law: "unat t \<le> 100 \<Longrightarrow> unat y \<le> unat t \<Longrightarrow> unat n \<le> 100 \<Longrightarrow> unat d \<le> 100 \<Longrightarrow>
      proportion_at_least G i n d (motion i y t) \<longleftrightarrow> unat n * unat t \<le> unat y * unat d"
    and either_law: "either_of_diverse G f g org \<longleftrightarrow> f org \<or> g org"
    and success_law: "with_success G f v org = (if f org then Some v else None)"

section \<open>The aliases of the runtime\<close>

definition EnsureTwoThirdsTechnicalCommittee :: "gate_ops \<Rightarrow> gate" where
  "EnsureTwoThirdsTechnicalCommittee G = proportion_more_than G TechnicalCommitteeInstance 2 3"

definition EnsureAllTechnicalCommittee :: "gate_ops \<Rightarrow> gate" where
  "EnsureAllTechnicalCommittee G = proportion_at_least G TechnicalCommitteeInstance 1 1"

definition RootOrTwoThirdsTechnicalCommittee :: "gate_ops \<Rightarrow> gate" where
  "RootOrTwoThirdsTechnicalCommittee G =
     either_of_diverse G (ensure_root G) (EnsureTwoThirdsTechnicalCommittee G)"

definition RootOrAllTechnicalCommittee :: "gate_ops \<Rightarrow> gate" where
  "RootOrAllTechnicalCommittee G =
     either_of_diverse G (ensure_root G) (EnsureAllTechnicalCommittee G)"

definition EnsureTwoThirdsTreasuryCouncil :: "gate_ops \<Rightarrow> gate" where
  "EnsureTwoThirdsTreasuryCouncil G = proportion_more_than G TreasuryCouncilInstance 2 3"

definition EnsureAllTreasuryCouncil :: "gate_ops \<Rightarrow> gate" where
  "EnsureAllTreasuryCouncil G = proportion_at_least G TreasuryCouncilInstance 1 1"

definition RootOrTwoThirdsTreasuryCouncil :: "gate_ops \<Rightarrow> gate" where
  "RootOrTwoThirdsTreasuryCouncil G =
     either_of_diverse G (ensure_root G) (EnsureTwoThirdsTreasuryCouncil G)"

definition RootOrAllTreasuryCouncil :: "gate_ops \<Rightarrow> gate" where
  "RootOrAllTreasuryCouncil G =
     either_of_diverse G (ensure_root G) (EnsureAllTreasuryCouncil G)"

lemmas alias_defs =
  EnsureTwoThirdsTechnicalCommittee_def EnsureAllTechnicalCommittee_def
  RootOrTwoThirdsTechnicalCommittee_def RootOrAllTechnicalCommittee_def
  EnsureTwoThirdsTreasuryCouncil_def EnsureAllTreasuryCouncil_def
  RootOrTwoThirdsTreasuryCouncil_def RootOrAllTreasuryCouncil_def

section \<open>The pallets' configurations\<close>

record collective_config =
  motion_duration :: block_number
  max_proposals :: u32
  max_members :: u32
  set_members_origin :: gate
  disapprove_origin :: gate
  kill_origin :: gate

record membership_config =
  add_origin :: gate
  remove_origin :: gate
  swap_origin :: gate
  reset_origin :: gate
  prime_origin :: gate
  membership_max_members :: u32

record whitelist_config =
  whitelist_origin :: gate
  dispatch_whitelisted_origin :: gate

record treasury_config =
  reject_origin :: gate
  spend_origin :: "origin \<Rightarrow> balance option"
  spend_period :: block_number
  max_approvals :: u32
  payout_period :: block_number

definition technical_collective :: "gate_ops \<Rightarrow> collective_config" where
  "technical_collective G =
     \<lparr>motion_duration = 5 * DAYS, max_proposals = 100, max_members = 100,
      set_members_origin = RootOrAllTechnicalCommittee G,
      disapprove_origin = RootOrAllTechnicalCommittee G,
      kill_origin = RootOrAllTechnicalCommittee G\<rparr>"

definition technical_membership :: "gate_ops \<Rightarrow> membership_config" where
  "technical_membership G =
     \<lparr>add_origin = RootOrTwoThirdsTechnicalCommittee G,
      remove_origin = RootOrAllTechnicalCommittee G,
      swap_origin = RootOrAllTechnicalCommittee G,
      reset_origin = RootOrAllTechnicalCommittee G,
      prime_origin = RootOrAllTechnicalCommittee G,
      membership_max_members = 100\<rparr>"

definition treasury_collective :: "gate_ops \<Rightarrow> collective_config" where
  "treasury_collective G =
     \<lparr>motion_duration = 5 * DAYS, max_proposals = 100, max_members = 100,
      set_members_origin = RootOrAllTreasuryCouncil G,
      disapprove_origin = RootOrAllTechnicalCommittee G,
      kill_origin = RootOrAllTechnicalCommittee G\<rparr>"

definition treasury_membership :: "gate_ops \<Rightarrow> membership_config" where
  "treasury_membership G =
     \<lparr>add_origin = RootOrTwoThirdsTreasuryCouncil G,
      remove_origin = RootOrAllTreasuryCouncil G,
      swap_origin = RootOrAllTreasuryCouncil G,
      reset_origin = RootOrAllTreasuryCouncil G,
      prime_origin = RootOrAllTreasuryCouncil G,
      membership_max_members = 100\<rparr>"

definition runtime_whitelist :: "gate_ops \<Rightarrow> whitelist_config" where
  "runtime_whitelist G =
     \<lparr>whitelist_origin = EnsureTwoThirdsTechnicalCommittee G,
      dispatch_whitelisted_origin = EnsureTwoThirdsTechnicalCommittee G\<rparr>"

definition TreasurySpendPeriod :: block_number where "TreasurySpendPeriod = 7 * DAYS"
definition TreasuryMaxApprovals :: u32 where "TreasuryMaxApprovals = 100"
definition TreasuryPayoutPeriod :: block_number where "TreasuryPayoutPeriod = 30 * DAYS"
definition TreasuryMaxSpend :: balance where "TreasuryMaxSpend = - 1"

definition runtime_treasury :: "gate_ops \<Rightarrow> treasury_config" where
  "runtime_treasury G =
     \<lparr>reject_origin = RootOrTwoThirdsTreasuryCouncil G,
      spend_origin = with_success G (RootOrTwoThirdsTreasuryCouncil G) TreasuryMaxSpend,
      spend_period = TreasurySpendPeriod, max_approvals = TreasuryMaxApprovals,
      payout_period = TreasuryPayoutPeriod\<rparr>"

definition assets_force_origin :: "gate_ops \<Rightarrow> gate" where
  "assets_force_origin G = RootOrTwoThirdsTreasuryCouncil G"

definition preimage_manager_origin :: "gate_ops \<Rightarrow> gate" where
  "preimage_manager_origin G = RootOrAllTechnicalCommittee G"

definition freezer_freeze_origin :: "gate_ops \<Rightarrow> gate" where
  "freezer_freeze_origin G = RootOrTwoThirdsTechnicalCommittee G"

text \<open>The pallet's types in this runtime: its origins, \<open>AccountId32\<close> and \<open>u128\<close>.\<close>

type_synonym ('c, 'i) runtime_freezes = "(account_id, balance, 'c, 'i) freeze_ops"
type_synonym ('c, 'i) runtime_freezer_config = "(origin, account_id, balance, 'c, 'i) freezer_config"
type_synonym 'c runtime_freezer = "(account_id, balance, 'c) freezer"
type_synonym runtime_freezer_call = "(account_id, balance) freezer_call"

definition xode_freezer_config ::
    "gate_ops \<Rightarrow> ('c, 'i) runtime_freezes \<Rightarrow> (freeze_reason \<Rightarrow> 'i) \<Rightarrow>
     ('c, 'i) runtime_freezer_config" where
  "xode_freezer_config G F reason =
     \<lparr>freeze_currency = F, runtime_reason = reason,
      freeze_origin = freezer_freeze_origin G\<rparr>"

section \<open>Privileges\<close>

datatype privilege =
    FreezeAccounts | ManagePreimages | ForceAssets | RejectSpend | ApproveSpend
  | TechnicalSetMembers | TechnicalDisapprove | TechnicalKill
  | TechnicalAdd | TechnicalRemove | TechnicalSwap | TechnicalReset | TechnicalPrime
  | TreasurySetMembers | TreasuryDisapprove | TreasuryKill
  | TreasuryAdd | TreasuryRemove | TreasurySwap | TreasuryReset | TreasuryPrime
  | WhitelistCall | DispatchWhitelistedCall

fun guard :: "gate_ops \<Rightarrow> privilege \<Rightarrow> gate" where
  "guard G FreezeAccounts = freezer_freeze_origin G"
| "guard G ManagePreimages = preimage_manager_origin G"
| "guard G ForceAssets = assets_force_origin G"
| "guard G RejectSpend = reject_origin (runtime_treasury G)"
| "guard G ApproveSpend = (\<lambda>org. spend_origin (runtime_treasury G) org \<noteq> None)"
| "guard G TechnicalSetMembers = set_members_origin (technical_collective G)"
| "guard G TechnicalDisapprove = disapprove_origin (technical_collective G)"
| "guard G TechnicalKill = kill_origin (technical_collective G)"
| "guard G TechnicalAdd = add_origin (technical_membership G)"
| "guard G TechnicalRemove = remove_origin (technical_membership G)"
| "guard G TechnicalSwap = swap_origin (technical_membership G)"
| "guard G TechnicalReset = reset_origin (technical_membership G)"
| "guard G TechnicalPrime = prime_origin (technical_membership G)"
| "guard G TreasurySetMembers = set_members_origin (treasury_collective G)"
| "guard G TreasuryDisapprove = disapprove_origin (treasury_collective G)"
| "guard G TreasuryKill = kill_origin (treasury_collective G)"
| "guard G TreasuryAdd = add_origin (treasury_membership G)"
| "guard G TreasuryRemove = remove_origin (treasury_membership G)"
| "guard G TreasurySwap = swap_origin (treasury_membership G)"
| "guard G TreasuryReset = reset_origin (treasury_membership G)"
| "guard G TreasuryPrime = prime_origin (treasury_membership G)"
| "guard G WhitelistCall = whitelist_origin (runtime_whitelist G)"
| "guard G DispatchWhitelistedCall = dispatch_whitelisted_origin (runtime_whitelist G)"

lemmas privilege_defs =
  freezer_freeze_origin_def preimage_manager_origin_def assets_force_origin_def
  runtime_treasury_def technical_collective_def technical_membership_def
  treasury_collective_def treasury_membership_def runtime_whitelist_def

text \<open>The abstract table: the collective behind each privilege, and the majority it takes.\<close>

definition body_of :: "privilege \<Rightarrow> collective_instance" where
  "body_of p =
     (if p \<in> {ForceAssets, RejectSpend, ApproveSpend, TreasurySetMembers, TreasuryAdd,
              TreasuryRemove, TreasurySwap, TreasuryReset, TreasuryPrime}
      then TreasuryCouncilInstance else TechnicalCommitteeInstance)"

definition two_thirds :: "privilege \<Rightarrow> bool" where
  "two_thirds p \<longleftrightarrow>
     p \<in> {FreezeAccounts, ForceAssets, RejectSpend, ApproveSpend, TechnicalAdd, TreasuryAdd,
          WhitelistCall, DispatchWhitelistedCall}"

definition rootless :: "privilege \<Rightarrow> bool" where
  "rootless p \<longleftrightarrow> p \<in> {WhitelistCall, DispatchWhitelistedCall}"

lemma motion_eq [simp]: "motion i y t = motion j y' t' \<longleftrightarrow> i = j \<and> y = y' \<and> t = t'"
  by (cases i; cases j) auto

lemma motion_not_system [simp]: "motion i y t \<noteq> System r"
  by (cases i) auto

context origin_gates
begin

lemma guard_shape:
  "guard G p org \<longleftrightarrow>
     (\<not> rootless p \<and> org = System Root) \<or>
     (if two_thirds p then proportion_more_than G (body_of p) 2 3 org
      else proportion_at_least G (body_of p) 1 1 org)"
  by (cases p)
    (simp_all add: privilege_defs alias_defs either_law root_law success_law rootless_def
      two_thirds_def body_of_def)

lemma guard_origin:
  "guard G p org \<Longrightarrow> org = System Root \<or> (\<exists>y t. org = motion (body_of p) y t)"
  using more_motion least_motion by (auto simp: guard_shape split: if_splits)

lemma guard_motion:
  assumes "unat t \<le> 100" "unat y \<le> unat t"
  shows "guard G p (motion i y t) \<longleftrightarrow> i = body_of p \<and>
    (if two_thirds p then 2 * unat t < 3 * unat y else y = t)"
proof (cases "i = body_of p")
  case True
  with assms show ?thesis
    by (auto simp: guard_shape more_law least_law word_unat_eq_iff)
next
  case False
  then show ?thesis using guard_origin [of p "motion i y t"] by auto
qed

lemma guard_root: "guard G p (System Root) \<longleftrightarrow> \<not> rootless p"
  using more_motion least_motion by (auto simp: guard_shape split: if_splits) (metis motion_not_system)+

end

section \<open>The documented checks, executable\<close>

definition doc_gates :: gate_ops where
  "doc_gates =
     \<lparr>ensure_root = (\<lambda>org. org = System Root),
      proportion_more_than = (\<lambda>i n d org.
        case (i, org) of
          (TechnicalCommitteeInstance, TechnicalCommittee (Members y t)) \<Rightarrow> unat n * unat t < unat y * unat d
        | (TreasuryCouncilInstance, TreasuryCouncil (Members y t)) \<Rightarrow> unat n * unat t < unat y * unat d
        | _ \<Rightarrow> False),
      proportion_at_least = (\<lambda>i n d org.
        case (i, org) of
          (TechnicalCommitteeInstance, TechnicalCommittee (Members y t)) \<Rightarrow> unat n * unat t \<le> unat y * unat d
        | (TreasuryCouncilInstance, TreasuryCouncil (Members y t)) \<Rightarrow> unat n * unat t \<le> unat y * unat d
        | _ \<Rightarrow> False),
      either_of_diverse = (\<lambda>f g org. f org \<or> g org),
      with_success = (\<lambda>f v org. if f org then Some v else None)\<rparr>"

interpretation doc: origin_gates doc_gates
proof
  fix i n d org
  show "proportion_more_than doc_gates i n d org \<Longrightarrow> \<exists>y t. org = motion i y t"
    by (cases i) (auto simp: doc_gates_def split: origin.splits collective_origin.splits)
  show "proportion_at_least doc_gates i n d org \<Longrightarrow> \<exists>y t. org = motion i y t"
    by (cases i) (auto simp: doc_gates_def split: origin.splits collective_origin.splits)
  fix y t
  show "proportion_more_than doc_gates i n d (motion i y t) \<longleftrightarrow> unat n * unat t < unat y * unat d"
    by (cases i) (simp_all add: doc_gates_def)
  show "proportion_at_least doc_gates i n d (motion i y t) \<longleftrightarrow> unat n * unat t \<le> unat y * unat d"
    by (cases i) (simp_all add: doc_gates_def)
qed (simp_all add: doc_gates_def)

text \<open>The freezer as the runtime configures it, over a book of frozen amounts.\<close>

interpretation runtime_freezer: freezer_backend "xode_freezer_config G book_ops reason"
  for G :: gate_ops and reason :: "freeze_reason \<Rightarrow> 'i"
  by (rule freezer_backend.intro) (simp add: xode_freezer_config_def book.freezable_currency_axioms)

section \<open>Properties\<close>

text \<open>Who decides what. A motion of a collective passes a privilege's origin check if and
  only if it is the collective that owns the privilege and the majority suffices: strictly
  more than two thirds of the members for freezing accounts, forcing assets, treasury
  spending, adding members and whitelisting, all members for everything else. The Treasury
  Council's own motions can be vetoed and killed only by the Technical Committee.\<close>

theorem privileges_by_motion:
  assumes "origin_gates G" and "unat t \<le> 100" and "unat y \<le> unat t"
  shows "guard G p (motion i y t) \<longleftrightarrow>
    i = (if p \<in> {ForceAssets, RejectSpend, ApproveSpend, TreasurySetMembers, TreasuryAdd,
                TreasuryRemove, TreasurySwap, TreasuryReset, TreasuryPrime}
         then TreasuryCouncilInstance else TechnicalCommitteeInstance) \<and>
    (if p \<in> {FreezeAccounts, ForceAssets, RejectSpend, ApproveSpend, TechnicalAdd, TreasuryAdd,
             WhitelistCall, DispatchWhitelistedCall}
     then 2 * unat t < 3 * unat y else y = t)"
  using origin_gates.guard_motion [OF assms, of p i] by (simp only: body_of_def two_thirds_def)

theorem privileges_by_motion_witness:
  "\<not> guard doc_gates FreezeAccounts (motion TechnicalCommitteeInstance 2 3) \<and>
   guard doc_gates FreezeAccounts (motion TechnicalCommitteeInstance 3 4) \<and>
   \<not> guard doc_gates TreasuryKill (motion TreasuryCouncilInstance 3 3)"
  using privileges_by_motion [OF doc.origin_gates_axioms, of 3 2 FreezeAccounts TechnicalCommitteeInstance]
    privileges_by_motion [OF doc.origin_gates_axioms, of 4 3 FreezeAccounts TechnicalCommitteeInstance]
    privileges_by_motion [OF doc.origin_gates_axioms, of 3 3 TreasuryKill TreasuryCouncilInstance]
  by simp

text \<open>C38: nobody else decides. Whatever passes a privileged origin check is Root or a motion of
  the owning collective, never a signed account or a single member; and Root passes every
  check except the two of the whitelist pallet.\<close>

theorem privileges_need_root_or_motion:
  assumes "origin_gates G"
  shows "(guard G p org \<longrightarrow> org = System Root \<or> (\<exists>y t. org = motion (body_of p) y t)) \<and>
    (guard G p (System Root) \<longleftrightarrow> p \<noteq> WhitelistCall \<and> p \<noteq> DispatchWhitelistedCall)"
  using origin_gates.guard_origin [OF assms, of p org] origin_gates.guard_root [OF assms, of p]
  by (auto simp: rootless_def)

theorem privileges_need_root_or_motion_witness:
  "\<not> guard doc_gates WhitelistCall (System Root) \<and> guard doc_gates FreezeAccounts (System Root) \<and>
   \<not> guard doc_gates FreezeAccounts (System (Signed 1))"
  using privileges_need_root_or_motion [OF doc.origin_gates_axioms, of WhitelistCall "System Root"]
    privileges_need_root_or_motion [OF doc.origin_gates_axioms, of FreezeAccounts "System (Signed 1)"]
    motion_not_system [symmetric]
  by auto

end
