(* ===== verification/Genesis.thy ===== *)
theory Genesis
  imports Runtime_Config Staking_Session
begin

text \<open>
  The genesis presets (\<open>runtime/src/genesis_config_presets.rs\<close>) and the declaration order
  of the pallets (\<open>mod runtime\<close> in \<open>runtime/src/lib.rs\<close>), which is the order of their
  genesis builds. The keyring and the JSON encoder are library code: parameters.
\<close>

section \<open>Presets\<close>

text \<open>The accounts of \<open>sp_keyring\<close> the presets use, as the keyring provides them, its
  enumeration, and the account and session keys of each.\<close>

record ('k, 'a, 'g) keyring =
  Alice :: 'k
  Bob :: 'k
  Charlie :: 'k
  Dave :: 'k
  Eve :: 'k
  Ferdie :: 'k
  AliceStash :: 'k
  BobStash :: 'k
  One :: 'k
  Two :: 'k
  keyring_iter :: "'k list"
  to_account_id :: "'k \<Rightarrow> account_id"
  aura_public :: "'k \<Rightarrow> 'a"
  grandpa_public :: "'k \<Rightarrow> 'g"

record ('a, 'g) session_keys =
  aura :: 'a
  grandpa :: 'g

record ('a, 'g) genesis_config =
  g_balances :: "(account_id \<times> balance) list"
  g_session_keys :: "(account_id \<times> account_id \<times> ('a, 'g) session_keys) list"
  g_desired_candidates :: "account_id list"
  g_sudo_key :: "account_id option"
  g_technical_members :: "account_id list"
  g_treasury_members :: "account_id list"

text \<open>\<open>None\<close>: one of the two \<open>expect\<close>s on the committee sizes panicked
  (\<open>MaxMembers\<close> is 100 for both membership pallets).\<close>

definition testnet_genesis ::
    "(account_id \<times> 'a \<times> 'g) list \<Rightarrow> account_id list \<Rightarrow> account_id \<Rightarrow> account_id list \<Rightarrow>
     account_id list \<Rightarrow> ('a, 'g) genesis_config option" where
  "testnet_genesis initial_authorities endowed_accounts root technical_committee treasury_council =
     (if length technical_committee \<le> 100 \<and> length treasury_council \<le> 100
      then Some
        \<lparr>g_balances = map (\<lambda>k. (k, push_bit 60 1)) endowed_accounts,
         g_session_keys =
           map (\<lambda>(who, a, g). (who, who, \<lparr>aura = a, grandpa = g\<rparr>)) initial_authorities,
         g_desired_candidates = map fst initial_authorities,
         g_sudo_key = Some root,
         g_technical_members = technical_committee,
         g_treasury_members = treasury_council\<rparr>
      else None)"

definition development_config_genesis ::
    "('k, 'a, 'g) keyring \<Rightarrow> ('a, 'g) genesis_config option" where
  "development_config_genesis K =
     (let acc = to_account_id K in
      testnet_genesis
        [(acc (Alice K), aura_public K (Alice K), grandpa_public K (Alice K))]
        [acc (Alice K), acc (Bob K), acc (AliceStash K), acc (BobStash K)]
        (acc (Alice K)) [acc (Alice K)] [acc (Alice K)])"

definition local_config_genesis ::
    "('k, 'a, 'g) keyring \<Rightarrow> ('a, 'g) genesis_config option" where
  "local_config_genesis K =
     (let acc = to_account_id K in
      testnet_genesis
        [(acc (Alice K), aura_public K (Alice K), grandpa_public K (Alice K)),
         (acc (Bob K), aura_public K (Bob K), grandpa_public K (Bob K))]
        (map acc (filter (\<lambda>v. v \<noteq> One K \<and> v \<noteq> Two K) (keyring_iter K)))
        (acc (Alice K))
        [acc (Alice K), acc (Bob K), acc (Charlie K)]
        [acc (Dave K), acc (Eve K), acc (Ferdie K)])"

text \<open>The preset identifiers and the JSON encoder of the genesis patch are library code. The
  outer option is the panic of a preset, the inner one \<open>get_preset\<close>'s answer.\<close>

record ('a, 'g) preset_env =
  DEV_RUNTIME_PRESET :: string
  LOCAL_TESTNET_RUNTIME_PRESET :: string
  encode_patch :: "('a, 'g) genesis_config \<Rightarrow> u8 list"

definition get_preset ::
    "('a, 'g) preset_env \<Rightarrow> ('k, 'a, 'g) keyring \<Rightarrow> string \<Rightarrow> u8 list option option" where
  "get_preset E K i =
     (if i = DEV_RUNTIME_PRESET E
      then map_option (\<lambda>g. Some (encode_patch E g)) (development_config_genesis K)
      else if i = LOCAL_TESTNET_RUNTIME_PRESET E
      then map_option (\<lambda>g. Some (encode_patch E g)) (local_config_genesis K)
      else Some None)"

definition preset_names :: "('a, 'g) preset_env \<Rightarrow> string list" where
  "preset_names E = [DEV_RUNTIME_PRESET E, LOCAL_TESTNET_RUNTIME_PRESET E]"

section \<open>Declaration order\<close>

datatype pallet =
    SystemPallet | TimestampPallet | AuraPallet | GrandpaPallet | BalancesPallet
  | TransactionPaymentPallet | SudoPallet | RandomnessCollectiveFlipPallet | UtilityPallet
  | IndicesPallet | PreimagePallet | AssetsPallet | TreasuryPallet | ContractsPallet
  | XodeStakingPallet | SessionPallet | AuthorshipPallet | AccountFreezerPallet
  | TechnicalCommitteePallet | TechnicalCommitteeMembershipPallet | TreasuryCouncilPallet
  | TreasuryCouncilMembershipPallet | WhitelistPallet

text \<open>The pallets with their indices, in the order of \<open>mod runtime\<close>.\<close>

definition runtime_pallets :: "(nat \<times> pallet) list" where
  "runtime_pallets =
     [(0, SystemPallet), (1, TimestampPallet), (2, AuraPallet), (3, GrandpaPallet),
      (4, BalancesPallet), (5, TransactionPaymentPallet), (6, SudoPallet),
      (8, RandomnessCollectiveFlipPallet), (9, UtilityPallet), (10, IndicesPallet),
      (11, PreimagePallet), (12, AssetsPallet), (13, TreasuryPallet), (14, ContractsPallet),
      (15, XodeStakingPallet), (16, SessionPallet), (17, AuthorshipPallet),
      (18, AccountFreezerPallet), (19, TechnicalCommitteePallet),
      (20, TechnicalCommitteeMembershipPallet), (21, TreasuryCouncilPallet),
      (22, TreasuryCouncilMembershipPallet), (23, WhitelistPallet)]"

text \<open>\<open>Executive\<close>: the pallets whose hooks it runs, \<open>AllPalletsWithSystem\<close>, and the runtime's
  own migrations.\<close>

record executive =
  all_pallets_with_system :: "pallet list"
  migrations :: "unit list"

definition Executive :: executive where
  "Executive = \<lparr>all_pallets_with_system = map snd runtime_pallets, migrations = []\<rparr>"

text \<open>
  The genesis builds of the library pallets are parameters: \<open>session_build\<close> is the session
  pallet's, over the hook it asks for validators, and \<open>bank_build\<close> is what any other
  pallet's build does to the only storage it shares with the model, the bank.
\<close>

record 'c genesis_env =
  session_build :: "('c chain \<Rightarrow> account_id list option \<times> 'c chain) \<Rightarrow> 'c chain \<Rightarrow> 'c chain"
  bank_build :: "pallet \<Rightarrow> 'c \<Rightarrow> 'c"

text \<open>The documented behaviour the declaration order relies on: the session pallet seeds its
  validators with the set the hook answers (and asks again for the set to queue, which
  changes nothing for a hook that is idempotent).\<close>

definition seeds_from_hook :: "'c genesis_env \<Rightarrow> bool" where
  "seeds_from_hook env \<longleftrightarrow>
     (\<forall>hook s vs t. hook s = (Some vs, t) \<longrightarrow> snd (hook t) = t \<longrightarrow>
        session_build env hook s = t\<lparr>validators := vs\<rparr>)"

definition build_pallet ::
    "'c genesis_env \<Rightarrow> 'c staking_config \<Rightarrow> ('a, 'g) genesis_config \<Rightarrow> pallet \<Rightarrow> 'c chain \<Rightarrow> 'c chain option" where
  "build_pallet env cfg g p s =
     (if p = XodeStakingPallet then genesis_build cfg (g_desired_candidates g) s
      else if p = SessionPallet then Some (session_build env new_session s)
      else Some (s\<lparr>bank := bank_build env p (bank s)\<rparr>))"

fun build_pallets ::
    "'c genesis_env \<Rightarrow> 'c staking_config \<Rightarrow> ('a, 'g) genesis_config \<Rightarrow> pallet list \<Rightarrow> 'c chain \<Rightarrow>
     'c chain option" where
  "build_pallets env cfg g [] s = Some s"
| "build_pallets env cfg g (p # ps) s =
     (case build_pallet env cfg g p s of None \<Rightarrow> None | Some t \<Rightarrow> build_pallets env cfg g ps t)"

definition build_genesis ::
    "'c genesis_env \<Rightarrow> 'c staking_config \<Rightarrow> ('a, 'g) genesis_config \<Rightarrow> 'c \<Rightarrow> 'c chain option" where
  "build_genesis env cfg g m = build_pallets env cfg g (map snd runtime_pallets) (empty_chain m)"

lemma new_session_no_candidates:
  "proposed_candidates s = [] \<Longrightarrow> new_session s = (Some (invulnerables s), s)"
  using new_session_eq [of s] by simp

section \<open>A concrete keyring\<close>

definition demo_keyring :: "(nat, nat, nat) keyring" where
  "demo_keyring =
     \<lparr>Alice = 1, Bob = 2, Charlie = 3, Dave = 4, Eve = 5, Ferdie = 6, AliceStash = 7, BobStash = 8,
      One = 9, Two = 10, keyring_iter = [1, 2, 3, 4, 5, 6, 7, 8, 9, 10],
      to_account_id = of_nat, aura_public = (\<lambda>k. k), grandpa_public = (\<lambda>k. k)\<rparr>"

definition demo_env :: "(nat, nat) preset_env" where
  "demo_env = \<lparr>DEV_RUNTIME_PRESET = ''development'', LOCAL_TESTNET_RUNTIME_PRESET = ''local_testnet'',
     encode_patch = (\<lambda>_. [])\<rparr>"

definition demo_genesis_env :: "'c genesis_env" where
  "demo_genesis_env =
     \<lparr>session_build = (\<lambda>hook s. case hook s of
        (None, t) \<Rightarrow> t | (Some vs, t) \<Rightarrow> (snd (hook t))\<lparr>validators := vs\<rparr>),
      bank_build = (\<lambda>_ m. m)\<rparr>"

lemma demo_genesis_env_law: "seeds_from_hook demo_genesis_env"
  by (simp add: seeds_from_hook_def demo_genesis_env_def)

section \<open>Properties\<close>

text \<open>C39: genesis seeds the session pallet. For every configuration \<open>testnet_genesis\<close> makes of at
  most \<open>MaxCandidates\<close> authorities, the genesis builds in declaration order succeed, and
  the first active validator set, the queued set and the waiting list are exactly the
  accounts with session keys: the declaration of \<open>XodeStaking\<close> before \<open>Session\<close> is what
  makes the first set non-empty.\<close>

theorem genesis_seeds_validators:
  assumes "seeds_from_hook env"
    and "testnet_genesis auths endowed root tech treasury = Some g"
    and "length auths \<le> unat (max_candidates cfg)"
  shows "\<exists>s. build_genesis env cfg g m = Some s \<and> validators s = map fst (g_session_keys g) \<and>
    invulnerables s = map fst (g_session_keys g) \<and>
    waiting_candidates s = map fst (g_session_keys g) \<and>
    g_desired_candidates g = map fst (g_session_keys g)"
proof -
  have hook: "session_build env new_session s = s\<lparr>validators := invulnerables s\<rparr>"
    if "proposed_candidates s = []" for s :: "'a chain"
    using assms(1) new_session_no_candidates [OF that] by (simp add: seeds_from_hook_def)
  have g: "g_desired_candidates g = map fst (g_session_keys g)" "g_desired_candidates g = map fst auths"
    using assms(2) by (auto simp: testnet_genesis_def split: if_splits)
  show ?thesis
    using assms(3) g
    by (simp add: build_genesis_def runtime_pallets_def build_pallet_def genesis_build_def
        empty_chain_def hook flip: g(1))
qed

theorem genesis_seeds_validators_witness:
  "\<exists>g s. local_config_genesis demo_keyring = Some g \<and>
     build_genesis demo_genesis_env demo_config g demo_ledger = Some s \<and> validators s = [1, 2]"
proof -
  obtain g where g: "local_config_genesis demo_keyring = Some g" "map fst (g_session_keys g) = [1, 2]"
    by (simp add: local_config_genesis_def testnet_genesis_def demo_keyring_def Let_def)
  then have t: "testnet_genesis [(1, 1, 1), (2, 2, 2)] (map of_nat [1, 2, 3, 4, 5, 6, 7, 8]) 1 [1, 2, 3] [4, 5, 6] = Some g"
    by (simp add: local_config_genesis_def demo_keyring_def Let_def)
  have "length [(1 :: account_id, 1 :: nat, 1 :: nat), (2, 2, 2)] \<le> unat (max_candidates demo_config)"
    by simp
  from genesis_seeds_validators [OF demo_genesis_env_law t this, of demo_ledger] g show ?thesis by auto
qed



end
