(* ===== verification/Runtime_Types.thy ===== *)
theory Runtime_Types
  imports Constants
begin

text \<open>
  The version record and the signed extensions of the runtime
  (\<open>runtime/src/lib.rs\<close>). The list of runtime API versions is generated by
  \<open>impl_runtime_apis!\<close> and stays a parameter.
\<close>

record 'api runtime_version =
  spec_name :: string
  impl_name :: string
  authoring_version :: u32
  spec_version :: u32
  impl_version :: u32
  api_versions :: 'api
  transaction_version :: u32
  system_version :: u8

definition VERSION :: "'api \<Rightarrow> 'api runtime_version" where
  "VERSION RUNTIME_API_VERSIONS =
     \<lparr>spec_name = ''xode-solochain-runtime'', impl_name = ''xode-solochain-runtime'',
      authoring_version = 1, spec_version = 2, impl_version = 1,
      api_versions = RUNTIME_API_VERSIONS, transaction_version = 1, system_version = 1\<rparr>"

text \<open>\<open>NativeVersion\<close> without further specs it can author with.\<close>

record 'api native_version_info =
  runtime_version :: "'api runtime_version"
  can_author_with :: "u32 set"

definition native_version :: "'api \<Rightarrow> 'api native_version_info" where
  "native_version apis = \<lparr>runtime_version = VERSION apis, can_author_with = {}\<rparr>"

text \<open>The transaction extensions, with the data an extrinsic carries for each; \<open>'era\<close> is the
  library's era.\<close>

datatype 'era extension =
    CheckNonZeroSender
  | CheckSpecVersion
  | CheckTxVersion
  | CheckGenesis
  | CheckEra 'era
  | CheckNonce u32
  | CheckWeight
  | ChargeTransactionPayment balance
  | CheckMetadataHash bool
  | WeightReclaim

datatype extension_kind =
    NonZeroSenderKind | SpecVersionKind | TxVersionKind | GenesisKind | EraKind | NonceKind
  | WeightKind | PaymentKind | MetadataHashKind | WeightReclaimKind

fun kind_of :: "'era extension \<Rightarrow> extension_kind" where
  "kind_of CheckNonZeroSender = NonZeroSenderKind"
| "kind_of CheckSpecVersion = SpecVersionKind"
| "kind_of CheckTxVersion = TxVersionKind"
| "kind_of CheckGenesis = GenesisKind"
| "kind_of (CheckEra _) = EraKind"
| "kind_of (CheckNonce _) = NonceKind"
| "kind_of CheckWeight = WeightKind"
| "kind_of (ChargeTransactionPayment _) = PaymentKind"
| "kind_of (CheckMetadataHash _) = MetadataHashKind"
| "kind_of WeightReclaim = WeightReclaimKind"

definition TxExtension :: "extension_kind list" where
  "TxExtension =
     [NonZeroSenderKind, SpecVersionKind, TxVersionKind, GenesisKind, EraKind, NonceKind,
      WeightKind, PaymentKind, MetadataHashKind, WeightReclaimKind]"

end
