(* ===== verification/Runtime_Library.thy ===== *)
theory Runtime_Library
  imports Staking_Theorems Governance Genesis Runtime_Types
begin

text \<open>
  The runtime's configurations of the library pallets (\<open>runtime/src/configs/mod.rs\<close>), as
  records of the values and pallets the associated types name: block limits, consensus,
  session and authorship wiring, balances, fees, and the deposits of the indices, preimage,
  assets and contracts pallets. Fields whose value is the pallet's default or a type alias
  are left out. The lemmas tie the values to the staking pallet that depends on them.
\<close>

section \<open>Block limits\<close>

text \<open>The weight arithmetic and the limit builders of the library; \<open>'w\<close> are weights, \<open>'b\<close>
  block limits. Percentages are natural numbers.\<close>

record ('w, 'b, 'l) limits_lib =
  WEIGHT_REF_TIME_PER_SECOND :: u64
  weight_from_parts :: "u64 \<Rightarrow> u64 \<Rightarrow> 'w"
  with_sensible_defaults :: "'w \<Rightarrow> nat \<Rightarrow> 'b"
  max_with_normal_ratio :: "u32 \<Rightarrow> nat \<Rightarrow> 'l"
  max_block :: "'b \<Rightarrow> 'w"
  percent_of :: "nat \<Rightarrow> 'w \<Rightarrow> 'w"

definition NORMAL_DISPATCH_RATIO :: nat where "NORMAL_DISPATCH_RATIO = 75"

definition RuntimeBlockWeights :: "('w, 'b, 'l) limits_lib \<Rightarrow> 'b" where
  "RuntimeBlockWeights L =
     with_sensible_defaults L (weight_from_parts L (2 * WEIGHT_REF_TIME_PER_SECOND L) (- 1))
       NORMAL_DISPATCH_RATIO"

definition RuntimeBlockLength :: "('w, 'b, 'l) limits_lib \<Rightarrow> 'l" where
  "RuntimeBlockLength L = max_with_normal_ratio L (5 * 1024 * 1024) NORMAL_DISPATCH_RATIO"

definition TechnicalMaxProposalWeight :: "('w, 'b, 'l) limits_lib \<Rightarrow> 'w" where
  "TechnicalMaxProposalWeight L = percent_of L 50 (max_block L (RuntimeBlockWeights L))"

definition TreasuryMaxProposalWeight :: "('w, 'b, 'l) limits_lib \<Rightarrow> 'w" where
  "TreasuryMaxProposalWeight L = percent_of L 50 (max_block L (RuntimeBlockWeights L))"

definition SS58Prefix :: "16 word" where "SS58Prefix = 280"

record ('b, 'l, 'api) system_config =
  sys_block_weights :: 'b
  sys_block_length :: 'l
  sys_block_hash_count :: block_number
  sys_version :: "'api runtime_version"
  sys_ss58_prefix :: "16 word"
  sys_max_consumers :: u32

definition runtime_system ::
    "('w, 'b, 'l) limits_lib \<Rightarrow> 'api \<Rightarrow> ('b, 'l, 'api) system_config" where
  "runtime_system L apis =
     \<lparr>sys_block_weights = RuntimeBlockWeights L, sys_block_length = RuntimeBlockLength L,
      sys_block_hash_count = BlockHashCount, sys_version = VERSION apis,
      sys_ss58_prefix = SS58Prefix, sys_max_consumers = 16\<rparr>"

section \<open>Consensus, session, authorship\<close>

record aura_config =
  aura_max_authorities :: u32
  allow_multiple_blocks_per_slot :: bool
  aura_slot_millis :: u64

text \<open>\<open>MinimumPeriodTimesTwo\<close> of the timestamp pallet's \<open>MinimumPeriod\<close>.\<close>

definition runtime_aura :: aura_config where
  "runtime_aura =
     \<lparr>aura_max_authorities = MaxStakingCandidates, allow_multiple_blocks_per_slot = False,
      aura_slot_millis = MinimumPeriod * 2\<rparr>"

record grandpa_pallet_config =
  grandpa_max_authorities :: u32
  max_nominators :: u32
  max_set_id_session_entries :: u64
  equivocation_reports :: bool

definition runtime_grandpa :: grandpa_pallet_config where
  "runtime_grandpa =
     \<lparr>grandpa_max_authorities = MaxStakingCandidates, max_nominators = 0,
      max_set_id_session_entries = 0, equivocation_reports = False\<rparr>"

record session_config =
  validator_id_of :: "account_id \<Rightarrow> account_id option"
  session_period :: block_number
  session_offset :: block_number
  session_manager_pallet :: pallet
  session_handlers :: "pallet list"

definition runtime_session_config :: session_config where
  "runtime_session_config =
     \<lparr>validator_id_of = account_to_validator_id, session_period = SessionPeriod,
      session_offset = SessionOffset, session_manager_pallet = XodeStakingPallet,
      session_handlers = [AuraPallet, GrandpaPallet]\<rparr>"

record authorship_config =
  find_author_from :: pallet
  author_event_handler :: pallet

definition runtime_authorship :: authorship_config where
  "runtime_authorship =
     \<lparr>find_author_from = AuraPallet, author_event_handler = XodeStakingPallet\<rparr>"

record timestamp_config =
  on_timestamp_set :: pallet
  minimum_period :: u64

definition runtime_timestamp :: timestamp_config where
  "runtime_timestamp = \<lparr>on_timestamp_set = AuraPallet, minimum_period = MinimumPeriod\<rparr>"

section \<open>Balances and fees\<close>

text \<open>\<open>VariantCountOf\<close> counts the variants of the runtime's freeze reasons: a parameter.\<close>

record balances_config =
  max_locks :: u32
  max_reserves :: "u32 option"
  existential_deposit :: balance
  max_freezes :: u32
  account_store :: pallet

definition runtime_balances :: "u32 \<Rightarrow> balances_config" where
  "runtime_balances freeze_variants =
     \<lparr>max_locks = 50, max_reserves = None, existential_deposit = EXISTENTIAL_DEPOSIT,
      max_freezes = freeze_variants, account_store = SystemPallet\<rparr>"

record 'w fee_config =
  charge_currency :: pallet
  operational_fee_multiplier :: u8
  weight_to_fee :: "'w \<Rightarrow> balance"
  length_to_fee :: "'w \<Rightarrow> balance"
  fee_multiplier :: nat

text \<open>\<open>identity_fee\<close> is the library's \<open>IdentityFee\<close>.\<close>

definition runtime_fees :: "('w \<Rightarrow> balance) \<Rightarrow> 'w fee_config" where
  "runtime_fees identity_fee =
     \<lparr>charge_currency = BalancesPallet, operational_fee_multiplier = 5,
      weight_to_fee = identity_fee, length_to_fee = identity_fee, fee_multiplier = 1\<rparr>"

section \<open>Deposits\<close>

record indices_config =
  indices_currency :: pallet
  index_deposit :: balance

definition runtime_indices :: indices_config where
  "runtime_indices = \<lparr>indices_currency = BalancesPallet, index_deposit = UNIT\<rparr>"

record preimage_config =
  preimage_manager :: gate
  preimage_currency :: pallet
  preimage_base_deposit :: balance
  preimage_byte_deposit :: balance

definition runtime_preimage :: "gate_ops \<Rightarrow> preimage_config" where
  "runtime_preimage G =
     \<lparr>preimage_manager = preimage_manager_origin G, preimage_currency = BalancesPallet,
      preimage_base_deposit = MILLI_UNIT, preimage_byte_deposit = MICRO_UNIT\<rparr>"

record assets_config =
  assets_currency :: pallet
  assets_force :: gate
  asset_deposit :: balance
  asset_account_deposit :: balance
  assets_approval_deposit :: balance
  assets_string_limit :: u32
  metadata_deposit_base :: balance
  metadata_deposit_per_byte :: balance
  remove_items_limit :: u32

definition runtime_assets :: "gate_ops \<Rightarrow> assets_config" where
  "runtime_assets G =
     \<lparr>assets_currency = BalancesPallet, assets_force = assets_force_origin G,
      asset_deposit = 10 * UNIT, asset_account_deposit = UNIT,
      assets_approval_deposit = EXISTENTIAL_DEPOSIT, assets_string_limit = 50,
      metadata_deposit_base = MILLI_UNIT, metadata_deposit_per_byte = MILLI_UNIT,
      remove_items_limit = 1000\<rparr>"

record contracts_config =
  contracts_time :: pallet
  contracts_randomness :: pallet
  contracts_currency :: pallet
  deposit_per_item :: balance
  deposit_per_byte :: balance
  default_deposit_limit :: balance
  code_hash_lockup_percent :: nat
  call_filter :: "pallet \<Rightarrow> bool"
  call_stack_depth :: nat
  max_code_len :: u32
  max_storage_key_len :: u32
  unsafe_unstable_interface :: bool
  max_debug_buffer_len :: u32
  max_transient_storage_size :: u32
  max_delegate_dependencies :: u32

definition runtime_contracts :: contracts_config where
  "runtime_contracts =
     \<lparr>contracts_time = TimestampPallet, contracts_randomness = RandomnessCollectiveFlipPallet,
      contracts_currency = BalancesPallet, deposit_per_item = MILLI_UNIT,
      deposit_per_byte = MICRO_UNIT, default_deposit_limit = 10 * UNIT,
      code_hash_lockup_percent = 30, call_filter = (\<lambda>_. False), call_stack_depth = 5,
      max_code_len = 123 * 1024, max_storage_key_len = 128, unsafe_unstable_interface = False,
      max_debug_buffer_len = 2 * 1024 * 1024, max_transient_storage_size = 1 * 1024 * 1024,
      max_delegate_dependencies = 32\<rparr>"

section \<open>The treasury's money\<close>

text \<open>\<open>PalletId\<close> is its eight bytes; \<open>into_account_truncating\<close>, the account the library derives
  from them, is a parameter. Permills are natural numbers.\<close>

definition TreasuryPalletId :: string where "TreasuryPalletId = ''py/trsry''"

definition TreasuryBurn :: nat where "TreasuryBurn = 0"

definition TreasuryAccount :: "(string \<Rightarrow> account_id) \<Rightarrow> account_id" where
  "TreasuryAccount into_account_truncating = into_account_truncating TreasuryPalletId"

record treasury_money =
  treasury_currency :: pallet
  treasury_pallet_id :: string
  treasury_burn :: nat
  pay_currency :: pallet
  pay_from_account :: account_id
  treasury_block_number_provider :: pallet

definition runtime_treasury_money :: "(string \<Rightarrow> account_id) \<Rightarrow> treasury_money" where
  "runtime_treasury_money into_account_truncating =
     \<lparr>treasury_currency = BalancesPallet, treasury_pallet_id = TreasuryPalletId,
      treasury_burn = TreasuryBurn, pay_currency = BalancesPallet,
      pay_from_account = TreasuryAccount into_account_truncating,
      treasury_block_number_provider = SystemPallet\<rparr>"

section \<open>Properties\<close>

text \<open>Blocks are two seconds apart, a session lasts an hour and the staling period a fortnight:
  the block counts at AURA's slot duration are the times their names promise.\<close>

lemma durations_in_milliseconds:
  "aura_slot_millis runtime_aura = MILLI_SECS_PER_BLOCK \<and>
   unat (session_period runtime_session_config) * unat (aura_slot_millis runtime_aura) = 60 * 60 * 1000 \<and>
   unat MaxStalingPeriod * unat (aura_slot_millis runtime_aura) = 14 * 24 * 60 * 60 * 1000"
  by (simp add: runtime_aura_def runtime_session_config_def constant_defs)

text \<open>C21: consensus can hold every validator set. In every reachable state of the runtime's
  staking pallet the set handed to the session pallet fits the authority bounds of both
  session handlers, is not empty, keeps the genesis validators and has no duplicates if they
  have none.\<close>

theorem authorities_fit_consensus:
  assumes "reachable (xode_staking_config C enc dec) desired s" and "desired \<noteq> []"
  shows "\<exists>vs. fst (new_session s) = Some vs \<and>
    length vs \<le> unat (aura_max_authorities runtime_aura) \<and>
    length vs \<le> unat (grandpa_max_authorities runtime_grandpa) \<and>
    vs \<noteq> [] \<and> set desired \<subseteq> set vs \<and> (distinct vs \<or> \<not> distinct desired)"
proof -
  have "staking_inv (xode_staking_config C enc dec) desired s"
    by (rule staking.inv_reach [OF assms(1)])
  with assms(2) show ?thesis
    by (auto simp: staking_inv_def pipeline_inv_def new_session_def Let_def runtime_aura_def
        runtime_grandpa_def constant_defs)
qed

theorem authorities_fit_consensus_witness:
  "\<exists>vs. fst (new_session demo_registered) = Some vs \<and> 1 \<in> set vs \<and>
     length vs \<le> unat (grandpa_max_authorities runtime_grandpa)"
proof -
  have "[1::account_id] \<noteq> []" by simp
  from authorities_fit_consensus [OF demo_reach_registered [unfolded demo_config_def] this]
  show ?thesis by auto
qed

end
