(* ===== verification/Block_Production.thy ===== *)
theory Block_Production
  imports Runtime_Library
begin

text \<open>
  Blocks. A block of the runtime initialises the pallets of \<open>Executive\<close> in order and then runs
  its extrinsics. Two of the hooks touch the state modelled here: \<open>XodeStaking::on_initialize\<close>
  (before \<open>Session\<close>, as declared in \<open>mod runtime\<close>) records the author that the authorship
  pallet finds through AURA's slot and the session's validators, and the session pallet's
  hook runs a session boundary when the periodic schedule says so. The session, AURA and
  authorship pallets are library code: the schedule and the author lookup are parameters with
  their documented laws (\<open>lawful_session_lib\<close>), the boundary itself is \<open>rotation\<close>, with the
  queued keys between two boundaries as the session pallet keeps them.
\<close>

section \<open>The block machine\<close>

record session_lib =
  should_end :: "block_number \<Rightarrow> bool"
  author_at :: "u64 \<Rightarrow> account_id list \<Rightarrow> account_id option"

text \<open>\<open>PeriodicSessions<Period, Offset>\<close>, and \<open>FindAccountFromAuthorIndex<Self, Aura>\<close>: slots go
  round the validators.\<close>

definition lawful_session_lib :: "session_config \<Rightarrow> session_lib \<Rightarrow> bool" where
  "lawful_session_lib K L \<longleftrightarrow>
     (\<forall>n. should_end L n \<longleftrightarrow>
        session_offset K \<le> n \<and> (unat n - unat (session_offset K)) mod unat (session_period K) = 0) \<and>
     (\<forall>slot vs. author_at L slot vs =
        (if vs = [] then None else Some (vs ! (unat slot mod length vs))))"

text \<open>What an extrinsic can do to the state: a staking call, or a call of another pallet, of
  which only the effect on the bank is visible.\<close>

datatype 'c extrinsic = StakingExtrinsic origin staking_call | OtherExtrinsic "'c \<Rightarrow> 'c"

text \<open>\<open>keyed\<close>: the accounts with session keys when the block begins.\<close>

record 'c block =
  slot :: u64
  keyed :: "account_id \<Rightarrow> bool"
  extrinsics :: "'c extrinsic list"

text \<open>The staking storage with the validators of the session, and the accounts of the queued
  keys (\<open>pallet_session::QueuedKeys\<close>).\<close>

record 'c node_state =
  on_chain :: "'c chain"
  queued :: "account_id list"

definition rotate_session ::
    "'c staking_config \<Rightarrow> (account_id \<Rightarrow> bool) \<Rightarrow> 'c node_state \<Rightarrow> 'c node_state option" where
  "rotate_session cfg keys st =
     (case rotation cfg (queued st) (on_chain st) of
        None \<Rightarrow> None
      | Some (answer, t) \<Rightarrow>
          Some \<lparr>on_chain = t,
                queued = filter keys (case answer of None \<Rightarrow> validators t | Some vs \<Rightarrow> vs)\<rparr>)"

definition pallet_hook ::
    "'c staking_config \<Rightarrow> session_lib \<Rightarrow> 'c block \<Rightarrow> pallet \<Rightarrow> 'c node_state \<Rightarrow> 'c node_state option" where
  "pallet_hook cfg L b p st =
     (if p = XodeStakingPallet then
        Some (st\<lparr>on_chain := on_initialize cfg
                 (author_at L (slot b) (validators (on_chain st))) (on_chain st)\<rparr>)
      else if p = SessionPallet then
        (if should_end L (block_number (on_chain st)) then rotate_session cfg (keyed b) st else Some st)
      else Some st)"

fun run_hooks ::
    "'c staking_config \<Rightarrow> session_lib \<Rightarrow> 'c block \<Rightarrow> pallet list \<Rightarrow> 'c node_state \<Rightarrow> 'c node_state option" where
  "run_hooks cfg L b [] st = Some st"
| "run_hooks cfg L b (p # ps) st =
     (case pallet_hook cfg L b p st of None \<Rightarrow> None | Some t \<Rightarrow> run_hooks cfg L b ps t)"

text \<open>\<open>None\<close>: a hook panicked, or the block number is used up.\<close>

definition begin_block ::
    "'c staking_config \<Rightarrow> session_lib \<Rightarrow> 'c block \<Rightarrow> 'c node_state \<Rightarrow> 'c node_state option" where
  "begin_block cfg L b st =
     (let n = block_number (on_chain st) in
      if n + 1 = 0 then None
      else run_hooks cfg L b (all_pallets_with_system Executive)
             (st\<lparr>on_chain := (on_chain st)\<lparr>block_number := n + 1\<rparr>\<rparr>))"

text \<open>A call that answers an error leaves its block valid; a panic of its code does not: the
  block that holds it cannot be executed (\<open>None\<close>).\<close>

fun run_extrinsic :: "'c staking_config \<Rightarrow> 'c extrinsic \<Rightarrow> 'c chain \<Rightarrow> 'c chain option" where
  "run_extrinsic cfg (StakingExtrinsic org call) s =
     (case dispatch cfg org call s of (Inl Panic, _) \<Rightarrow> None | (_, t) \<Rightarrow> Some t)"
| "run_extrinsic cfg (OtherExtrinsic f) s = Some (s\<lparr>bank := f (bank s)\<rparr>)"

fun run_extrinsics ::
    "'c staking_config \<Rightarrow> 'c extrinsic list \<Rightarrow> 'c chain \<Rightarrow> 'c chain option" where
  "run_extrinsics cfg [] s = Some s"
| "run_extrinsics cfg (x # xs) s = Option.bind (run_extrinsic cfg x s) (run_extrinsics cfg xs)"

definition produce ::
    "'c staking_config \<Rightarrow> session_lib \<Rightarrow> 'c block \<Rightarrow> 'c node_state \<Rightarrow> 'c node_state option" where
  "produce cfg L b st =
     (case begin_block cfg L b st of
        None \<Rightarrow> None
      | Some t \<Rightarrow> map_option (\<lambda>s. t\<lparr>on_chain := s\<rparr>) (run_extrinsics cfg (extrinsics b) (on_chain t)))"

fun produce_all ::
    "'c staking_config \<Rightarrow> session_lib \<Rightarrow> 'c block list \<Rightarrow> 'c node_state \<Rightarrow> 'c node_state option" where
  "produce_all cfg L [] st = Some st"
| "produce_all cfg L (b # bs) st =
     (case produce cfg L b st of None \<Rightarrow> None | Some t \<Rightarrow> produce_all cfg L bs t)"

text \<open>The first block finds the state the genesis builds leave (\<open>genesis_seeds_validators\<close>).\<close>

definition node_at_genesis ::
    "'c staking_config \<Rightarrow> account_id list \<Rightarrow> 'c node_state \<Rightarrow> bool" where
  "node_at_genesis cfg desired st \<longleftrightarrow>
     queued st = desired \<and>
     (\<exists>s. at_genesis cfg desired s \<and> on_chain st = s\<lparr>validators := desired\<rparr>)"

definition block_step ::
    "'c staking_config \<Rightarrow> session_lib \<Rightarrow> 'c node_state \<Rightarrow> 'c node_state \<Rightarrow> bool" where
  "block_step cfg L st t \<longleftrightarrow> (\<exists>b. produce cfg L b st = Some t)"

abbreviation node_reachable ::
    "'c staking_config \<Rightarrow> session_lib \<Rightarrow> account_id list \<Rightarrow> 'c node_state \<Rightarrow> bool" where
  "node_reachable cfg L desired \<equiv> reach (node_at_genesis cfg desired) (block_step cfg L)"

section \<open>One block\<close>

definition next_number :: "'c node_state \<Rightarrow> 'c node_state" where
  "next_number st = st\<lparr>on_chain := (on_chain st)\<lparr>block_number := block_number (on_chain st) + 1\<rparr>\<rparr>"

definition record_author ::
    "'c staking_config \<Rightarrow> session_lib \<Rightarrow> 'c block \<Rightarrow> 'c node_state \<Rightarrow> 'c node_state" where
  "record_author cfg L b st = st\<lparr>on_chain := on_initialize cfg
     (author_at L (slot b) (validators (on_chain st))) (on_chain st)\<rparr>"

text \<open>The next block is the last of its session.\<close>

definition closes :: "session_lib \<Rightarrow> 'c node_state \<Rightarrow> bool" where
  "closes L st \<longleftrightarrow> should_end L (block_number (on_chain st) + 1)"

text \<open>Of the hooks in declaration order only two matter here: the author is recorded before the
  session ends.\<close>

lemma begin_block_eq:
  "begin_block cfg L b st =
     (let t = record_author cfg L b (next_number st) in
      if block_number (on_chain st) + 1 = 0 then None
      else if closes L st then rotate_session cfg (keyed b) t else Some t)"
proof -
  have "block_number (on_chain (record_author cfg L b (next_number st))) = block_number (on_chain st) + 1"
    using on_initialize_outside [of "on_chain (next_number st)" cfg]
    by (simp add: record_author_def next_number_def same_outside_def)
  then show ?thesis
    by (simp add: begin_block_def Executive_def runtime_pallets_def pallet_hook_def closes_def Let_def
        record_author_def next_number_def split: option.split)
qed

lemma next_number_sel [simp]:
  "queued (next_number st) = queued st"
  "on_chain (next_number st) = (on_chain st)\<lparr>block_number := block_number (on_chain st) + 1\<rparr>"
  by (simp_all add: next_number_def)

lemma on_initialize_sel [simp]:
  "desired_candidates (on_initialize cfg au s) = desired_candidates s"
  "invulnerables (on_initialize cfg au s) = invulnerables s"
  "waiting_candidates (on_initialize cfg au s) = waiting_candidates s"
  "validators (on_initialize cfg au s) = validators s"
  "block_number (on_initialize cfg au s) = block_number s"
  by (auto simp: on_initialize_def add_actual_author_def record_authored_block_def split: option.split)

lemma record_author_sel [simp]:
  "queued (record_author cfg L b st) = queued st"
  "desired_candidates (on_chain (record_author cfg L b st)) = desired_candidates (on_chain st)"
  "invulnerables (on_chain (record_author cfg L b st)) = invulnerables (on_chain st)"
  "waiting_candidates (on_chain (record_author cfg L b st)) = waiting_candidates (on_chain st)"
  "validators (on_chain (record_author cfg L b st)) = validators (on_chain st)"
  "block_number (on_chain (record_author cfg L b st)) = block_number (on_chain st)"
  by (simp_all add: record_author_def)

text \<open>What extrinsics leave alone: the lists the hooks own, and the block number.\<close>

definition same_pipeline :: "'c chain \<Rightarrow> 'c chain \<Rightarrow> bool" where
  "same_pipeline s t \<longleftrightarrow>
     desired_candidates t = desired_candidates s \<and> invulnerables t = invulnerables s \<and>
     waiting_candidates t = waiting_candidates s \<and> actual_authors t = actual_authors s \<and>
     validators t = validators s \<and> block_number t = block_number s"

lemma call_same_pipeline:
  "call_body cfg org call s = (Inr u, t) \<Longrightarrow> same_pipeline s t"
  by (cases call) (auto dest!: call_ok simp: same_pipeline_def)

lemma run_extrinsic_staking:
  "run_extrinsic cfg (StakingExtrinsic org call) s = Some t \<longleftrightarrow>
     (\<exists>r. dispatch cfg org call s = (r, t) \<and> r \<noteq> Inl Panic)"
  by (auto split: prod.split sum.split dispatch_error.split)

declare run_extrinsic.simps(1) [simp del]

lemma extrinsic_same_pipeline: "run_extrinsic cfg x s = Some t \<Longrightarrow> same_pipeline s t"
proof (cases x)
  case (StakingExtrinsic org call)
  moreover assume "run_extrinsic cfg x s = Some t"
  ultimately obtain r where "dispatch cfg org call s = (r, t)" by (auto simp: run_extrinsic_staking)
  then show ?thesis
    by (cases r) (auto simp: dispatch_def with_storage_layer_Inl call_same_pipeline, simp add: same_pipeline_def)
qed (auto simp: same_pipeline_def)

lemma extrinsics_same_pipeline: "run_extrinsics cfg xs s = Some t \<Longrightarrow> same_pipeline s t"
proof (induction xs arbitrary: s)
  case Nil
  then show ?case by (simp add: same_pipeline_def)
next
  case (Cons x xs)
  then obtain u where "run_extrinsic cfg x s = Some u" "run_extrinsics cfg xs u = Some t"
    by (auto simp: bind_eq_Some_conv)
  with extrinsic_same_pipeline Cons.IH show ?case by (fastforce simp: same_pipeline_def)
qed

text \<open>A produced block, by whether it closes a session.\<close>

lemma produceE:
  assumes "produce cfg L b st = Some u"
  obtains (inside) "\<not> closes L st" "queued u = queued st"
      "run_extrinsics cfg (extrinsics b) (on_chain (record_author cfg L b (next_number st))) =
         Some (on_chain u)"
      "block_number (on_chain st) + 1 \<noteq> 0"
  | (closing) r t where "closes L st" "block_number (on_chain st) + 1 \<noteq> 0"
      "rotation cfg (queued st) (on_chain (record_author cfg L b (next_number st))) = Some (r, t)"
      "queued u = filter (keyed b) (case r of None \<Rightarrow> validators t | Some vs \<Rightarrow> vs)"
      "run_extrinsics cfg (extrinsics b) t = Some (on_chain u)"
  using assms
  by (auto simp: produce_def begin_block_eq Let_def rotate_session_def
      split: if_splits option.splits)

text \<open>With a codec that decodes what it encodes no call panics, so every list of extrinsics
  runs to its end.\<close>

lemma dispatch_no_panic:
  fixes cfg :: "'c staking_config"
  assumes "lawful_codec cfg"
  shows "dispatch cfg org call s \<noteq> (Inl Panic, t)"
proof -
  have signed: "ensure_signed org = Inl e \<Longrightarrow> e = BadOrigin" for e :: "staking_error dispatch_error"
    by (cases org rule: ensure_signed.cases) simp_all
  have reserve: "adjust_reserve cfg a old new m \<noteq> Inl Panic" for a old new m
    by (auto simp: adjust_reserve_def Let_def split: sum.splits)
  have pipeline: "ensure_out_of_pipeline cfg a s \<noteq> Inl Panic" for a
    using assms by (simp add: ensure_out_of_pipeline_def split: bool.split)
  have bond: "ensure_bond_allowed cfg a v s \<noteq> Inl Panic" for a v
    using pipeline by (auto simp: ensure_bond_allowed_def)
  have take: "take_delegation a maybe \<noteq> Inl Panic" for a maybe
    by (auto simp: take_delegation_def Let_def split: option.splits)
  have recompute: "recompute_total_stake a u \<noteq> Inl Panic" for a and u :: "'c chain"
    by (auto simp: recompute_total_stake_def split: option.splits)
  have "call_body cfg org call s \<noteq> (Inl Panic, t)" for t
    using signed [of Panic] reserve pipeline bond take recompute
    by (cases call) (auto simp: handler_defs Let_def set_offline_def split: sum.splits option.splits if_splits)
  then show ?thesis by (auto simp: dispatch_def with_storage_layer_Inl)
qed

lemma run_extrinsic_total:
  assumes "lawful_codec cfg"
  shows "\<exists>t. run_extrinsic cfg x s = Some t"
proof (cases x)
  case (StakingExtrinsic org call)
  obtain r t where "dispatch cfg org call s = (r, t)" by fastforce
  with dispatch_no_panic [OF assms] StakingExtrinsic show ?thesis
    by (auto simp: run_extrinsic_staking)
qed simp

lemma run_extrinsics_total: "lawful_codec cfg \<Longrightarrow> \<exists>t. run_extrinsics cfg xs s = Some t"
proof (induction xs arbitrary: s)
  case (Cons x xs)
  from run_extrinsic_total [OF Cons.prems] obtain u where "run_extrinsic cfg x s = Some u" by blast
  with Cons.IH [OF Cons.prems, of u] show ?case by simp
qed simp

section \<open>The block machine refines the transition system\<close>

lemma chain_steps: "chain_step cfg act s t \<Longrightarrow> (steps_to cfg)\<^sup>*\<^sup>* s t"
  by (rule r_into_rtranclp) (auto simp: steps_to_def)

lemma run_extrinsic_steps: "run_extrinsic cfg x s = Some t \<Longrightarrow> (steps_to cfg)\<^sup>*\<^sup>* s t"
proof (cases x)
  case (StakingExtrinsic org call)
  moreover assume "run_extrinsic cfg x s = Some t"
  ultimately obtain r where "dispatch cfg org call s = (r, t)" by (auto simp: run_extrinsic_staking)
  then show ?thesis by (auto intro: chain_steps step_extrinsic)
next
  case (OtherExtrinsic f)
  moreover assume "run_extrinsic cfg x s = Some t"
  ultimately have "t = s\<lparr>bank := f (bank s)\<rparr>" by simp
  moreover have "chain_step cfg (MoveMoney (f (bank s))) s (s\<lparr>bank := f (bank s)\<rparr>)" by (rule step_money)
  ultimately show ?thesis by (auto intro: chain_steps)
qed

lemma extrinsics_steps: "run_extrinsics cfg xs s = Some t \<Longrightarrow> (steps_to cfg)\<^sup>*\<^sup>* s t"
proof (induction xs arbitrary: s)
  case (Cons x xs)
  then obtain u where "run_extrinsic cfg x s = Some u" "run_extrinsics cfg xs u = Some t"
    by (auto simp: bind_eq_Some_conv)
  then show ?case using rtranclp_trans [OF run_extrinsic_steps Cons.IH] by blast
qed simp

text \<open>What a block does before its extrinsics are steps of hooks.\<close>

lemma record_author_steps:
  assumes "block_number (on_chain st) + 1 \<noteq> 0"
  shows "(hook_step cfg)\<^sup>*\<^sup>* (on_chain st) (on_chain (record_author cfg L b (next_number st)))"
proof -
  have "block_number (on_chain st) \<le> block_number (on_chain st) + 1"
    using assms by (simp add: word_le_nat_alt unat_next)
  then have "chain_step cfg (AdvanceBlock (block_number (on_chain st) + 1)) (on_chain st)
      (on_chain (next_number st))"
    by (simp add: step_block)
  then have "(hook_step cfg)\<^sup>*\<^sup>* (on_chain st) (on_chain (next_number st))"
    by (rule hook_steps [rotated]) simp
  moreover have "(hook_step cfg)\<^sup>*\<^sup>* (on_chain (next_number st))
      (on_chain (record_author cfg L b (next_number st)))"
    unfolding record_author_def by (auto intro!: hook_steps [OF _ step_initialize])
  ultimately show ?thesis by (rule rtranclp_trans)
qed

lemma rotation_steps:
  assumes "rotation cfg active s = Some (r, t)"
  shows "(hook_step cfg)\<^sup>*\<^sup>* s t"
proof -
  from assms obtain u where u: "end_session cfg s = Some u"
    "new_session (u\<lparr>validators := active\<rparr>) = (r, t)"
    by (auto simp: rotation_def boundary_def start_session_def install_validators_def
        split: option.splits)
  from hook_steps [OF _ step_end_session [OF u(1)]] hook_steps [OF _ step_validators]
  have "(hook_step cfg)\<^sup>*\<^sup>* s (u\<lparr>validators := active\<rparr>)" by (auto intro: rtranclp_trans)
  then show ?thesis using hook_steps [OF _ step_new_session [OF u(2)]] by (auto intro: rtranclp_trans)
qed

lemma begin_block_steps:
  assumes "begin_block cfg L b st = Some t"
  shows "(hook_step cfg)\<^sup>*\<^sup>* (on_chain st) (on_chain t)"
proof -
  let ?r = "record_author cfg L b (next_number st)"
  from assms have later: "block_number (on_chain st) + 1 \<noteq> 0"
    and t: "t = ?r \<or> (\<exists>r. rotation cfg (queued ?r) (on_chain ?r) = Some (r, on_chain t))"
    by (auto simp: begin_block_eq Let_def rotate_session_def split: if_splits option.splits)
  note first = record_author_steps [OF later]
  from t show ?thesis
  proof
    assume "t = ?r"
    with first show ?thesis by simp
  next
    assume "\<exists>r. rotation cfg (queued ?r) (on_chain ?r) = Some (r, on_chain t)"
    then show ?thesis using first rotation_steps by (blast intro: rtranclp_trans)
  qed
qed

lemma produce_steps:
  assumes "produce cfg L b st = Some u"
  shows "(steps_to cfg)\<^sup>*\<^sup>* (on_chain st) (on_chain u)"
proof -
  from assms obtain t where t: "begin_block cfg L b st = Some t"
    "run_extrinsics cfg (extrinsics b) (on_chain t) = Some (on_chain u)"
    by (auto simp: produce_def split: option.splits)
  from hook_step_steps [OF begin_block_steps [OF t(1)]] extrinsics_steps [OF t(2)] show ?thesis
    by (rule rtranclp_trans)
qed

lemma reach_steps: "reach init step s \<Longrightarrow> step\<^sup>*\<^sup>* s t \<Longrightarrow> reach init step t"
  by (rotate_tac, induction rule: rtranclp_induct) (auto intro: reach_step)

lemma node_reach:
  "node_reachable cfg L desired st \<Longrightarrow> reachable cfg desired (on_chain st)"
proof (induction rule: reach.induct)
  case (reach_init st)
  then obtain s where s: "at_genesis cfg desired s" "on_chain st = s\<lparr>validators := desired\<rparr>"
    by (auto simp: node_at_genesis_def)
  have "reachable cfg desired s" using s(1) by (rule reach.reach_init)
  then show ?case unfolding s(2) by (rule reach_steps) (rule chain_steps, rule step_validators)
next
  case (reach_step st u)
  then show ?case by (auto simp: block_step_def intro: reach_steps produce_steps)
qed

end
