(* ===== verification/Session_Runs.thy ===== *)
theory Session_Runs
  imports Block_Production Staking_Entries
begin

text \<open>
  Whole sessions of blocks. A session is a run of blocks none of which ends it, followed by
  the block that does. The lemmas follow the lists of the staking pallet and the authors
  through a session, and lead to what the schedule, the author lookup and the pallet promise
  together: who is slashed, who produces blocks next, and when. The last sections follow an
  account that signs no staking call through any number of sessions.
\<close>

section \<open>Runs within a session\<close>

inductive quiet_run ::
    "'c staking_config \<Rightarrow> session_lib \<Rightarrow> 'c block list \<Rightarrow> 'c node_state \<Rightarrow> 'c node_state \<Rightarrow> bool"
  for cfg :: "'c staking_config" and L :: session_lib where
  quiet_Nil: "quiet_run cfg L [] st st"
| quiet_Cons: "\<not> closes L st \<Longrightarrow> produce cfg L b st = Some t \<Longrightarrow> quiet_run cfg L bs t u \<Longrightarrow>
    quiet_run cfg L (b # bs) st u"

inductive_simps quiet_Nil_iff [simp]: "quiet_run cfg L [] st u"
inductive_simps quiet_Cons_iff: "quiet_run cfg L (b # bs) st u"

definition session_run ::
    "'c staking_config \<Rightarrow> session_lib \<Rightarrow> 'c block list \<Rightarrow> 'c block \<Rightarrow> 'c node_state \<Rightarrow>
     'c node_state \<Rightarrow> bool" where
  "session_run cfg L bs b st u \<longleftrightarrow>
     (\<exists>t. quiet_run cfg L bs st t \<and> closes L t \<and> produce cfg L b t = Some u)"

text \<open>The authors of the blocks under a validator set.\<close>

definition authors_of :: "session_lib \<Rightarrow> account_id list \<Rightarrow> 'c block list \<Rightarrow> account_id list" where
  "authors_of L vs bs = List.map_filter (\<lambda>b. author_at L (slot b) vs) bs"

lemma authors_of_simps [simp]:
  "authors_of L vs [] = []"
  "authors_of L vs (b # bs) =
     (case author_at L (slot b) vs of None \<Rightarrow> authors_of L vs bs | Some a \<Rightarrow> a # authors_of L vs bs)"
  by (simp_all add: authors_of_def map_filter_simps cong: option.case_cong)

lemma on_initialize_authors: "set (actual_authors s) \<subseteq> set (actual_authors (on_initialize cfg au s))"
  by (auto simp: on_initialize_def add_actual_author_def record_authored_block_def split: option.split)

text \<open>What a block inside a session leaves of the lists.\<close>

lemma inside_keeps:
  assumes "produce cfg L b st = Some u" "\<not> closes L st"
  shows "queued u = queued st \<and> validators (on_chain u) = validators (on_chain st) \<and>
    invulnerables (on_chain u) = invulnerables (on_chain st) \<and>
    waiting_candidates (on_chain u) = waiting_candidates (on_chain st) \<and>
    block_number (on_chain u) = block_number (on_chain st) + 1 \<and>
    block_number (on_chain st) + 1 \<noteq> 0 \<and>
    actual_authors (on_chain u) = actual_authors (on_chain (record_author cfg L b (next_number st)))"
  using assms(1)
proof (cases rule: produceE)
  case inside
  with extrinsics_same_pipeline [OF inside(3)] show ?thesis by (simp add: same_pipeline_def)
qed (use assms(2) in simp)

lemma quiet_run_keeps:
  "quiet_run cfg L bs st u \<Longrightarrow>
     queued u = queued st \<and> validators (on_chain u) = validators (on_chain st) \<and>
     invulnerables (on_chain u) = invulnerables (on_chain st) \<and>
     waiting_candidates (on_chain u) = waiting_candidates (on_chain st) \<and>
     unat (block_number (on_chain u)) = unat (block_number (on_chain st)) + length bs"
proof (induction rule: quiet_run.induct)
  case (quiet_Cons st b t bs u)
  with inside_keeps [OF quiet_Cons(2,1)] show ?case by (simp add: unat_next)
qed simp

lemma produce_node_reach:
  "node_reachable cfg L desired st \<Longrightarrow> produce cfg L b st = Some u \<Longrightarrow> node_reachable cfg L desired u"
  by (erule reach_step) (auto simp: block_step_def)

lemma quiet_run_reach:
  "quiet_run cfg L bs st u \<Longrightarrow> node_reachable cfg L desired st \<Longrightarrow> node_reachable cfg L desired u"
proof (induction rule: quiet_run.induct)
  case (quiet_Cons st b t bs u)
  then show ?case using produce_node_reach by blast
qed

lemma session_run_reach:
  assumes "session_run cfg L bs b st u" "node_reachable cfg L desired st"
  shows "node_reachable cfg L desired u"
proof -
  from assms(1) obtain t where t: "quiet_run cfg L bs st t" "produce cfg L b t = Some u"
    by (auto simp: session_run_def)
  from quiet_run_reach [OF t(1) assms(2)] t(2) show ?thesis by (rule produce_node_reach)
qed

section \<open>The invariant of block production\<close>

text \<open>Only validators author, the sets fit the bound, and so the author list has room for
  every author.\<close>

definition node_inv :: "'c staking_config \<Rightarrow> account_id list \<Rightarrow> 'c node_state \<Rightarrow> bool" where
  "node_inv cfg desired st \<longleftrightarrow>
     staking_inv cfg desired (on_chain st) \<and>
     length (validators (on_chain st)) \<le> unat (max_candidates cfg) \<and>
     length (queued st) \<le> unat (max_candidates cfg) \<and>
     set (actual_authors (on_chain st)) \<subseteq> set (validators (on_chain st))"

locale block_production =
  fixes cfg :: "'c staking_config" and K :: session_config and L :: session_lib
  assumes codec: "lawful_codec cfg" and law: "lawful_session_lib K L"
begin

lemma author_validator: "author_at L sl vs = Some a \<Longrightarrow> a \<in> set vs"
  using law by (auto simp: lawful_session_lib_def split: if_splits)

lemma rotation_result:
  assumes "staking_inv cfg desired s" "rotation cfg active s = Some (r, t)"
  shows "staking_inv cfg desired t \<and> r = Some (invulnerables t) \<and> validators t = active \<and>
    actual_authors t = [] \<and> block_number t = block_number s \<and>
    length (invulnerables t) \<le> unat (max_candidates cfg) \<and>
    (desired \<noteq> [] \<longrightarrow> invulnerables t = waiting_candidates s)"
proof -
  from rotation_eq [OF codec assms]
  have "staking_inv cfg desired t" "r = Some (invulnerables t)" "validators t = active"
    "actual_authors t = []" "block_number t = block_number s"
    by (auto simp: end_session_spec_def Let_def)
  moreover from this(1) have "length (invulnerables t) \<le> unat (max_candidates cfg)"
    by (simp add: staking_inv_def pipeline_inv_def)
  ultimately show ?thesis using rotation_invulnerables [OF codec assms] by blast
qed

lemma next_number_inv:
  "node_inv cfg desired st \<Longrightarrow> block_number (on_chain st) + 1 \<noteq> 0 \<Longrightarrow> node_inv cfg desired (next_number st)"
  by (auto simp: node_inv_def staking_inv_def pipeline_inv_def word_le_nat_alt unat_next
      intro: candidates_inv_later)

lemma record_author_inv:
  assumes "node_inv cfg desired st"
  shows "node_inv cfg desired (record_author cfg L b st)"
proof -
  have "set (actual_authors (on_chain (record_author cfg L b st))) \<subseteq> set (validators (on_chain st))"
    using assms author_validator
    by (auto simp: node_inv_def record_author_def on_initialize_def add_actual_author_def
        record_authored_block_def split: option.splits if_splits)
  moreover have "staking_inv cfg desired (on_chain (record_author cfg L b st))"
    using assms by (simp add: node_inv_def record_author_def on_initialize_staking_inv)
  ultimately show ?thesis using assms by (simp add: node_inv_def)
qed

lemma extrinsics_inv:
  "run_extrinsics cfg xs s = Some t \<Longrightarrow> staking_inv cfg desired s \<Longrightarrow> staking_inv cfg desired t"
proof (induction xs arbitrary: s)
  case (Cons x xs)
  from Cons.prems(1) obtain u where u: "run_extrinsic cfg x s = Some u" "run_extrinsics cfg xs u = Some t"
    by (auto simp: bind_eq_Some_conv)
  have "staking_inv cfg desired u"
  proof (cases x)
    case (StakingExtrinsic org call)
    with u(1) show ?thesis
      by (auto simp: run_extrinsic_staking intro: dispatch_staking_inv [OF Cons.prems(2)])
  next
    case (OtherExtrinsic f)
    with u(1) Cons.prems(2) show ?thesis by (auto simp: staking_inv_def pipeline_inv_def)
  qed
  with u(2) show ?case by (rule Cons.IH)
qed simp

lemma produce_inv:
  assumes inv: "node_inv cfg desired st" and prod: "produce cfg L b st = Some u"
  shows "node_inv cfg desired u"
  using prod
proof (cases rule: produceE)
  case inside
  have "node_inv cfg desired (record_author cfg L b (next_number st))"
    using inv inside by (intro record_author_inv next_number_inv)
  with inside extrinsics_inv [OF inside(3)] extrinsics_same_pipeline [OF inside(3)] show ?thesis
    by (simp add: node_inv_def same_pipeline_def)
next
  case (closing r t)
  have "node_inv cfg desired (record_author cfg L b (next_number st))"
    using inv closing by (intro record_author_inv next_number_inv)
  then have "staking_inv cfg desired (on_chain (record_author cfg L b (next_number st)))"
    by (simp add: node_inv_def)
  from rotation_result [OF this closing(3)]
  have t: "staking_inv cfg desired t" "r = Some (invulnerables t)" "validators t = queued st"
    "actual_authors t = []" "length (invulnerables t) \<le> unat (max_candidates cfg)"
    by blast+
  have "length (queued u) \<le> unat (max_candidates cfg)"
    using closing(4) t(2,5) by (auto intro: le_trans [OF length_filter_le])
  with t inv extrinsics_inv [OF closing(5) t(1)] extrinsics_same_pipeline [OF closing(5)]
  show ?thesis by (simp add: node_inv_def same_pipeline_def)
qed

lemma genesis_node_inv:
  assumes "node_at_genesis cfg desired st"
  shows "node_inv cfg desired st"
proof -
  from assms obtain s where s: "at_genesis cfg desired s" "on_chain st = s\<lparr>validators := desired\<rparr>"
    "queued st = desired"
    by (auto simp: node_at_genesis_def)
  have "actual_authors s = []"
    using s(1) by (auto simp: at_genesis_def genesis_build_def empty_chain_def split: if_splits)
  with s genesis_staking_inv [OF s(1)] show ?thesis
    by (simp add: node_inv_def staking_inv_def pipeline_inv_def)
qed

end

sublocale block_production \<subseteq> node: inductive_invariant
  "node_at_genesis cfg desired" "block_step cfg L" "node_inv cfg desired"
  for desired :: "account_id list"
  by unfold_locales (auto simp: block_step_def intro: genesis_node_inv produce_inv)

section \<open>Who is put offline\<close>

text \<open>An entry that is offline after a boundary was offline before, or has been slashed.\<close>

lemma rotation_offline:
  assumes codec: "lawful_codec cfg" and inv: "staking_inv cfg desired s"
    and rot: "rotation cfg active s = Some (r, t)"
    and d: "d \<in> set (proposed_candidates t)" "offline d"
  shows "\<exists>c\<in>set (proposed_candidates s). who c = who d \<and>
    (offline c \<or> slash_hit cfg s (validators s) c)"
proof -
  let ?hit = "slash_hit cfg s (validators s)"
  from d(1) rotation_eq [OF codec inv rot] obtain e where
    e: "e \<in> set (proposed_candidates (end_session_spec cfg s (validators s)))"
      "who e = who d" "offline e = offline d"
    by (auto split: if_splits)
  from e(1) obtain f where f: "f \<in> set (surviving cfg s (validators s))" "who f = who e" "offline f = offline e"
    by (auto simp: end_session_spec_def Let_def waitlisted_def split: if_splits)
  from f(1) obtain c where c: "c \<in> set (proposed_candidates s)"
    and p: "prepared (marked (block_number s) ?hit (promoted (waiting_candidates s) c)) = Some f"
    by (auto simp: surviving_def List.map_filter_def set_slashed)
  have "?hit (promoted (waiting_candidates s) c) = ?hit c"
    by (simp add: slash_hit_def is_stale_def promoted_def)
  moreover have "offline f = offline (marked (block_number s) ?hit (promoted (waiting_candidates s) c))"
    using p by (auto simp: prepared_def split: if_splits status.splits)
  ultimately have "offline c \<or> ?hit c"
    using d(2) e(3) f(3) by (auto simp: marked_def promoted_def split: if_splits)
  with c e(2) f(2) prepared_who [OF p] show ?thesis by auto
qed

text \<open>Recording an author leaves the entries as they are but for his time stamp.\<close>

lemma record_author_candidates:
  assumes "d \<in> set (proposed_candidates (on_chain (record_author cfg L b st)))"
  shows "\<exists>c\<in>set (proposed_candidates (on_chain st)). d = c \<or>
    d = c\<lparr>last_authored := block_number (on_chain st)\<rparr> \<and>
      author_at L (slot b) (validators (on_chain st)) = Some (who c)"
proof -
  have add: "proposed_candidates (add_actual_author cfg a s) = proposed_candidates s" for a s
    by (simp add: add_actual_author_def split: option.split)
  show ?thesis
    using assms set_update_first_subset
      [of "\<lambda>c. who c = a" "\<lambda>c. c\<lparr>last_authored := block_number (on_chain st)\<rparr>"
        "proposed_candidates (on_chain st)" for a]
    by (fastforce simp: record_author_def on_initialize_def add record_authored_block_def
        split: option.splits)
qed

context block_production
begin

text \<open>The author list always has room: it holds validators only, each once.\<close>

lemma author_recorded:
  assumes inv: "node_inv cfg desired st"
    and au: "author_at L (slot b) (validators (on_chain st)) = Some a"
  shows "a \<in> set (actual_authors (on_chain (record_author cfg L b st)))"
proof (cases "a \<in> set (actual_authors (on_chain st))")
  case True
  then show ?thesis
    using au by (simp add: record_author_def on_initialize_def add_actual_author_def
        record_authored_block_def)
next
  case False
  have "distinct (actual_authors (on_chain st))"
    using inv by (simp add: node_inv_def staking_inv_def pipeline_inv_def)
  moreover have "set (actual_authors (on_chain st)) \<subset> set (validators (on_chain st))"
    using inv False author_validator [OF au] by (auto simp: node_inv_def)
  then have "card (set (actual_authors (on_chain st))) < card (set (validators (on_chain st)))"
    by (rule psubset_card_mono [OF finite_set])
  ultimately have "length (actual_authors (on_chain st)) < unat (max_candidates cfg)"
    using inv card_length [of "validators (on_chain st)"] by (simp add: node_inv_def distinct_card)
  with False au show ?thesis
    by (simp add: record_author_def on_initialize_def add_actual_author_def
        record_authored_block_def try_push_def)
qed

lemma quiet_run_authors:
  "quiet_run cfg L bs st u \<Longrightarrow> node_inv cfg desired st \<Longrightarrow>
   set (authors_of L (validators (on_chain st)) bs) \<union> set (actual_authors (on_chain st))
     \<subseteq> set (actual_authors (on_chain u))"
proof (induction rule: quiet_run.induct)
  case (quiet_Cons st b t bs u)
  note keeps = inside_keeps [OF quiet_Cons(2,1)]
  have "node_inv cfg desired (next_number st)"
    using keeps quiet_Cons.prems by (intro next_number_inv) simp_all
  from author_recorded [OF this, of b]
  have "author_at L (slot b) (validators (on_chain st)) = Some a \<Longrightarrow> a \<in> set (actual_authors (on_chain t))" for a
    using keeps by simp
  moreover have "set (actual_authors (on_chain st)) \<subseteq> set (actual_authors (on_chain t))"
    using keeps on_initialize_authors [of "on_chain (next_number st)" cfg] by (simp add: record_author_def)
  moreover have "set (authors_of L (validators (on_chain st)) bs) \<union> set (actual_authors (on_chain t))
      \<subseteq> set (actual_authors (on_chain u))"
    using quiet_Cons.IH [OF produce_inv [OF quiet_Cons.prems quiet_Cons(2)]] keeps by simp
  ultimately show ?case by (auto split: option.splits)
qed simp

lemma begin_closing:
  assumes "begin_block cfg L b st = Some u" "closes L st"
  shows "block_number (on_chain st) + 1 \<noteq> 0 \<and>
    (\<exists>r. rotation cfg (queued st) (on_chain (record_author cfg L b (next_number st))) =
       Some (r, on_chain u) \<and> queued u = filter (keyed b)
         (case r of None \<Rightarrow> validators (on_chain u) | Some vs \<Rightarrow> vs))"
proof -
  from assms have n: "block_number (on_chain st) + 1 \<noteq> 0"
    and rot: "rotate_session cfg (keyed b) (record_author cfg L b (next_number st)) = Some u"
    by (simp_all add: begin_block_eq Let_def split: if_splits)
  from rot obtain r t where
    "rotation cfg (queued st) (on_chain (record_author cfg L b (next_number st))) = Some (r, t)"
    "u = \<lparr>on_chain = t, queued = filter (keyed b) (case r of None \<Rightarrow> validators t | Some vs \<Rightarrow> vs)\<rparr>"
    by (simp only: rotate_session_def record_author_sel next_number_sel)
      (simp split: option.splits prod.splits)
  with n show ?thesis by (simp split: option.split)
qed

text \<open>Who is offline after the block that closes a session.\<close>

lemma closing_offline:
  assumes inv: "node_inv cfg desired st" and close: "closes L st"
    and init: "begin_block cfg L b st = Some u"
    and d: "d \<in> set (proposed_candidates (on_chain u))" "offline d"
  shows "\<exists>c\<in>set (proposed_candidates (on_chain st)). who c = who d \<and>
    (offline c \<or>
     who d \<in> set (validators (on_chain st)) \<and> who d \<notin> set (actual_authors (on_chain st)) \<and>
     author_at L (slot b) (validators (on_chain st)) \<noteq> Some (who d))"
proof -
  let ?t = "record_author cfg L b (next_number st)"
  from begin_closing [OF init close] obtain r where
    n: "block_number (on_chain st) + 1 \<noteq> 0" and rot: "rotation cfg (queued st) (on_chain ?t) = Some (r, on_chain u)"
    by blast
  have inv1: "node_inv cfg desired (next_number st)"
    using inv n by (rule next_number_inv)
  then have "staking_inv cfg desired (on_chain ?t)"
    using record_author_inv by (simp add: node_inv_def)
  from rotation_offline [OF codec this rot d] obtain e where
    e: "e \<in> set (proposed_candidates (on_chain ?t))" "who e = who d"
      "offline e \<or> slash_hit cfg (on_chain ?t) (validators (on_chain ?t)) e"
    by blast
  from record_author_candidates [OF e(1)] obtain c where
    c: "c \<in> set (proposed_candidates (on_chain st))" "who c = who e" "offline c = offline e"
    by auto
  show ?thesis
  proof (cases "offline c")
    case False
    with e(3) c(3) have "slash_hit cfg (on_chain ?t) (validators (on_chain ?t)) e" by simp
    then have "who d \<in> set (validators (on_chain st))" "who d \<notin> set (actual_authors (on_chain ?t))"
      by (simp_all add: slash_hit_def is_stale_def stale_validators_def e(2))
    moreover have "author_at L (slot b) (validators (on_chain st)) \<noteq> Some (who d)"
      using author_recorded [OF inv1, of b] calculation(2) by auto
    moreover have "set (actual_authors (on_chain st)) \<subseteq> set (actual_authors (on_chain ?t))"
      using on_initialize_authors [of "on_chain (next_number st)" cfg] by (simp add: record_author_def)
    ultimately show ?thesis using c e(2) by auto
  qed (use c e(2) in auto)
qed

text \<open>A whole session: whoever authored a block of it is not slashed at its end.\<close>

lemma session_spares_authors:
  assumes inv: "node_inv cfg desired st" and run: "quiet_run cfg L bs st t"
    and close: "closes L t" and init: "begin_block cfg L b t = Some u"
    and d: "d \<in> set (proposed_candidates (on_chain u))" "offline d"
  shows "\<exists>c\<in>set (proposed_candidates (on_chain t)). who c = who d \<and>
    (offline c \<or> who d \<in> set (validators (on_chain st)) \<and>
       who d \<notin> set (authors_of L (validators (on_chain st)) (bs @ [b])))"
proof -
  have invt: "node_inv cfg desired t"
    using run inv by (induction rule: quiet_run.induct) (auto intro: produce_inv)
  have vs: "validators (on_chain t) = validators (on_chain st)"
    using quiet_run_keeps [OF run] by simp
  have app: "authors_of L vs (bs @ [b]) = authors_of L vs bs @ authors_of L vs [b]" for vs
    by (simp add: authors_of_def List.map_filter_def)
  from closing_offline [OF invt close init d] obtain c where c:
    "c \<in> set (proposed_candidates (on_chain t))" "who c = who d"
    "offline c \<or> who d \<in> set (validators (on_chain st)) \<and>
       who d \<notin> set (actual_authors (on_chain t)) \<and>
       author_at L (slot b) (validators (on_chain st)) \<noteq> Some (who d)"
    by (auto simp: vs)
  moreover have "who d \<notin> set (authors_of L (validators (on_chain st)) (bs @ [b]))"
    if "who d \<notin> set (actual_authors (on_chain t))"
      "author_at L (slot b) (validators (on_chain st)) \<noteq> Some (who d)"
    using that quiet_run_authors [OF run inv] by (auto simp: app split: option.splits)
  ultimately show ?thesis by blast
qed

end

section \<open>Slots go round\<close>

lemma set_authors_of: "a \<in> set (authors_of L vs bs) \<longleftrightarrow> (\<exists>b\<in>set bs. author_at L (slot b) vs = Some a)"
  by (induction bs) (auto split: option.split)

lemma residue_hit:
  assumes "j < (n :: nat)"
  shows "\<exists>i<n. (k + i) mod n = j"
proof (intro exI conjI)
  let ?i = "(j + (n - k mod n)) mod n"
  show "?i < n" using assms by simp
  have "(k + ?i) mod n = (k mod n + (j + (n - k mod n))) mod n"
    by (metis mod_add_left_eq mod_add_right_eq)
  also have "k mod n + (j + (n - k mod n)) = j + n"
    using mod_less_divisor [of n k] assms by linarith
  finally show "(k + ?i) mod n = j" using assms by simp
qed

context block_production
begin

text \<open>As many consecutive slots as there are validators give every validator his turn.\<close>

lemma every_validator_authors:
  assumes a: "a \<in> set vs" and long: "length vs \<le> length bs"
    and slots: "\<And>i. i < length bs \<Longrightarrow> unat (slot (bs ! i)) = k + i"
  shows "a \<in> set (authors_of L vs bs)"
proof -
  from a obtain j where j: "j < length vs" "vs ! j = a" by (auto simp: in_set_conv_nth)
  from residue_hit [OF j(1), of k] obtain i where i: "i < length vs" "(k + i) mod length vs = j"
    by blast
  with long slots [of i] have "author_at L (slot (bs ! i)) vs = Some a"
    using law a j(2) by (auto simp: lawful_session_lib_def)
  with i(1) long show ?thesis by (auto simp: set_authors_of intro!: bexI [of _ "bs ! i"])
qed

end

section \<open>How long a session lasts\<close>

lemma quiet_run_open:
  "quiet_run cfg L bs st u \<Longrightarrow> 0 < i \<Longrightarrow> i \<le> length bs \<Longrightarrow>
   \<not> should_end L (block_number (on_chain st) + word_of_nat i)"
proof (induction arbitrary: i rule: quiet_run.induct)
  case (quiet_Cons st b t bs u)
  note keeps = inside_keeps [OF quiet_Cons(2,1)]
  show ?case
  proof (cases "i = 1")
    case True
    with quiet_Cons(1) show ?thesis by (simp add: closes_def)
  next
    case False
    with quiet_Cons.prems have i: "0 < i - 1" "i - 1 \<le> length bs" "i = Suc (i - 1)" by auto
    have "block_number (on_chain st) + word_of_nat i = block_number (on_chain t) + word_of_nat (i - 1)"
      using keeps by (subst i(3)) (simp add: add.assoc)
    with quiet_Cons.IH [OF i(1,2)] show ?thesis by simp
  qed
qed simp

context block_production
begin

lemma session_length:
  assumes start: "should_end L (block_number (on_chain st))"
    and run: "quiet_run cfg L bs st t" and close: "closes L t"
    and room: "block_number (on_chain t) + 1 \<noteq> 0" and period: "session_period K \<noteq> 0"
  shows "length bs + 1 = unat (session_period K)"
proof -
  let ?p = "unat (session_period K)" and ?o = "unat (session_offset K)"
  let ?n = "unat (block_number (on_chain st))"
  have ends: "should_end L n \<longleftrightarrow> ?o \<le> unat n \<and> (unat n - ?o) mod ?p = 0" for n
    using law by (simp add: lawful_session_lib_def word_le_nat_alt)
  have p: "0 < ?p" using period by (simp add: unat_gt_0)
  have len: "unat (block_number (on_chain t)) = ?n + length bs"
    using quiet_run_keeps [OF run] by simp
  have last: "?o \<le> ?n" "(?n - ?o) mod ?p = 0" "(?n + length bs + 1 - ?o) mod ?p = 0"
    using start close len by (simp_all add: ends closes_def unat_next [OF room])
  then have "(length bs + 1) mod ?p = 0"
    by (metis Nat.add_diff_assoc2 add.assoc add_cancel_left_left mod_add_cong mod_add_left_eq)
  then have "?p \<le> length bs + 1"
    by (metis Suc_eq_plus1 dvd_imp_le mod_eq_0_iff_dvd zero_less_Suc)
  moreover have "\<not> ?p \<le> length bs"
  proof
    assume le: "?p \<le> length bs"
    have "block_number (on_chain st) + word_of_nat ?p = block_number (on_chain st) + session_period K"
      by simp
    moreover have "unat (block_number (on_chain st) + session_period K) = ?n + ?p"
    proof -
      have "?n + ?p \<le> unat (block_number (on_chain t))" using le len by simp
      also have "\<dots> < 2 ^ 32" using unsigned_less [of "block_number (on_chain t)"] by simp
      finally show ?thesis by (simp add: unat_add_lem [THEN iffD1])
    qed
    moreover have "(?n + ?p - ?o) mod ?p = 0"
      using last(1,2) by (metis Nat.add_diff_assoc2 mod_add_self2)
    ultimately show False
      using quiet_run_open [OF run p le] last(1) by (simp add: ends)
  qed
  ultimately show ?thesis by simp
qed

end

section \<open>From selection to production\<close>

lemma rotation_waiting:
  assumes "lawful_codec cfg" "staking_inv cfg desired s" "rotation cfg active s = Some (r, t)"
  shows "waiting_candidates t = waiting_candidates (end_session_spec cfg s (validators s))"
  using rotation_eq [OF assms] by simp

lemma update_first_kept: "x \<in> set xs \<Longrightarrow> x \<in> set (update_first p f xs) \<or> f x \<in> set (update_first p f xs)"
  by (induction xs) auto

lemma record_author_keeps_candidate:
  assumes "c \<in> set (proposed_candidates (on_chain st))"
  shows "\<exists>d\<in>set (proposed_candidates (on_chain (record_author cfg L b st))).
    who d = who c \<and> eligible d = eligible c \<and>
    (last_authored d = last_authored c \<or> last_authored d = block_number (on_chain st))"
proof -
  have add: "proposed_candidates (add_actual_author cfg a s) = proposed_candidates s" for a s
    by (simp add: add_actual_author_def split: option.split)
  show ?thesis
  proof (cases "author_at L (slot b) (validators (on_chain st))")
    case None
    with assms show ?thesis by (auto simp: record_author_def on_initialize_def)
  next
    case (Some a)
    let ?f = "\<lambda>c. c\<lparr>last_authored := block_number (on_chain st)\<rparr>"
    have "proposed_candidates (on_chain (record_author cfg L b st)) =
        update_first (\<lambda>c. who c = a) ?f (proposed_candidates (on_chain st))"
      using Some by (simp add: record_author_def on_initialize_def add record_authored_block_def)
    then have "c \<in> set (proposed_candidates (on_chain (record_author cfg L b st))) \<or>
        ?f c \<in> set (proposed_candidates (on_chain (record_author cfg L b st)))"
      using update_first_kept [OF assms] by simp
    then show ?thesis
    proof
      assume "?f c \<in> set (proposed_candidates (on_chain (record_author cfg L b st)))"
      then show ?thesis by (intro bexI [of _ "?f c"]) (simp_all add: eligible_def)
    qed auto
  qed
qed

lemma length_record_author [simp]:
  "length (proposed_candidates (on_chain (record_author cfg L b st))) =
   length (proposed_candidates (on_chain st))"
  by (auto simp: record_author_def on_initialize_def add_actual_author_def record_authored_block_def
      split: option.split)

text \<open>An account all of whose entries are slashed is not put on the waiting list.\<close>

lemma slashed_not_waitlisted:
  assumes "a \<notin> set (desired_candidates s)"
    and "\<And>c. c \<in> set (proposed_candidates s) \<Longrightarrow> who c = a \<Longrightarrow> slash_hit cfg s vs c"
  shows "a \<notin> set (waiting_candidates (end_session_spec cfg s vs))"
proof -
  have "offline e" if e: "e \<in> set (surviving cfg s vs)" "who e = a" for e
  proof -
    from e obtain c where c: "c \<in> set (proposed_candidates s)"
      and p: "prepared (marked (block_number s) (slash_hit cfg s vs)
        (promoted (waiting_candidates s) c)) = Some e"
      by (auto simp: surviving_def List.map_filter_def set_slashed)
    have "who c = a" using prepared_who [OF p] e(2) by simp
    with assms(2) [OF c] have "slash_hit cfg s vs (promoted (waiting_candidates s) c)"
      by (simp add: slash_hit_def is_stale_def promoted_def)
    with p show ?thesis
      by (auto simp: marked_def prepared_def dropping_def split: status.splits)
  qed
  then have "a \<notin> set (newcomers des (surviving cfg s vs))" for des
    by (auto simp: newcomers_def eligible_def)
  with assms(1) show ?thesis
    by (auto simp: end_session_spec_def Let_def waiting_spec_def dest!: in_set_takeD)
qed

context block_production
begin

lemma quiet_run_inv:
  "quiet_run cfg L bs st t \<Longrightarrow> node_inv cfg desired st \<Longrightarrow> node_inv cfg desired t"
  by (induction rule: quiet_run.induct) (auto intro: produce_inv)

text \<open>The block that closes a session, as a boundary after the author has been recorded.\<close>

lemma closingE:
  assumes inv: "node_inv cfg desired st" and prod: "produce cfg L b st = Some u" and close: "closes L st"
  obtains r t where "rotation cfg (queued st) (on_chain (record_author cfg L b (next_number st))) = Some (r, t)"
    "staking_inv cfg desired (on_chain (record_author cfg L b (next_number st)))"
    "block_number (on_chain st) + 1 \<noteq> 0"
    "node_inv cfg desired (next_number st)"
    "validators (on_chain u) = queued st" "queued u = filter (keyed b) (invulnerables t)"
    "waiting_candidates (on_chain u) = waiting_candidates t"
    "desired \<noteq> [] \<Longrightarrow> invulnerables t = waiting_candidates (on_chain st)"
  using prod
proof (cases rule: produceE)
  case (closing r t)
  have next_inv: "node_inv cfg desired (next_number st)"
    using inv closing(2) by (rule next_number_inv)
  then have sinv: "staking_inv cfg desired (on_chain (record_author cfg L b (next_number st)))"
    using record_author_inv by (simp add: node_inv_def)
  note res = rotation_result [OF sinv closing(3)]
  show ?thesis
    by (rule that [OF closing(3) sinv closing(2) next_inv])
      (use res closing(4) extrinsics_same_pipeline [OF closing(5)]
        in \<open>simp_all add: same_pipeline_def\<close>)
qed (use close in simp)

lemma session_run_lists:
  assumes inv: "node_inv cfg desired st" and run: "session_run cfg L bs b st u" and des: "desired \<noteq> []"
  shows "node_inv cfg desired u \<and> validators (on_chain u) = queued st \<and>
    queued u = filter (keyed b) (waiting_candidates (on_chain st))"
proof -
  from run obtain t where t: "quiet_run cfg L bs st t" "closes L t" "produce cfg L b t = Some u"
    by (auto simp: session_run_def)
  have invt: "node_inv cfg desired t" using t(1) inv by (rule quiet_run_inv)
  from closingE [OF invt t(3,2)] quiet_run_keeps [OF t(1)] des produce_inv [OF invt t(3)]
  show ?thesis by metis
qed

lemma two_sessions:
  assumes "node_inv cfg desired st" "desired \<noteq> []"
    and "session_run cfg L bs b st u" "session_run cfg L bs' b' u v"
  shows "validators (on_chain v) = filter (keyed b) (waiting_candidates (on_chain st))"
  using session_run_lists [OF assms(1,3,2)] session_run_lists [OF _ assms(4,2)] by metis

text \<open>A candidate whom the closing block finds eligible goes on the waiting list.\<close>

lemma closing_waitlists:
  assumes inv: "node_inv cfg desired st" and prod: "produce cfg L b st = Some u" and close: "closes L st"
    and c: "c \<in> set (proposed_candidates (on_chain st))" "eligible c"
    and room: "length desired + length (proposed_candidates (on_chain st)) \<le> unat (max_candidates cfg)"
    and fresh: "who c \<notin> set (validators (on_chain st)) \<or> who c \<in> set (actual_authors (on_chain st)) \<or>
      author_at L (slot b) (validators (on_chain st)) = Some (who c) \<or> who c \<in> set desired \<or>
      unat (block_number (on_chain st)) + 1 \<le> unat (last_authored c) + unat (max_staling_period cfg)"
  shows "who c \<in> set (waiting_candidates (on_chain u))"
proof -
  let ?s = "on_chain (record_author cfg L b (next_number st))"
  from closingE [OF inv prod close] obtain r t where
    rot: "rotation cfg (queued st) ?s = Some (r, t)" and sinv: "staking_inv cfg desired ?s"
    and n: "block_number (on_chain st) + 1 \<noteq> 0" and inv1: "node_inv cfg desired (next_number st)"
    and w: "waiting_candidates (on_chain u) = waiting_candidates t"
    by metis
  from record_author_keeps_candidate [of c "next_number st" cfg L b] c obtain d where
    d: "d \<in> set (proposed_candidates ?s)" "who d = who c" "eligible d"
      "last_authored d = last_authored c \<or> last_authored d = block_number (on_chain st) + 1"
    by auto
  have des: "desired_candidates (on_chain st) = desired"
    using inv by (simp add: node_inv_def staking_inv_def pipeline_inv_def)
  have "set (actual_authors (on_chain st)) \<subseteq> set (actual_authors ?s)"
    using on_initialize_authors [of "on_chain (next_number st)" cfg] by (simp add: record_author_def)
  moreover have "who c \<in> set (actual_authors ?s)"
    if "author_at L (slot b) (validators (on_chain st)) = Some (who c)"
    using author_recorded [OF inv1, of b] that by simp
  ultimately have "\<not> slash_hit cfg ?s (validators ?s) d"
    using fresh d(4)
    by (auto simp: slash_hit_def is_stale_def stale_validators_def d(2) des word_less_nat_alt
        unat_sat_sub unat_next [OF n])
  from eligible_waitlisted [OF d(1,3) this] room
  have "who d \<in> set (waiting_candidates (end_session_spec cfg ?s (validators ?s)))"
    by (simp add: des)
  then show ?thesis
    by (simp add: w rotation_waiting [OF codec sinv rot] d(2))
qed

text \<open>A validator who was silent for longer than the staling period does not.\<close>

lemma closing_drops_silent:
  assumes inv: "node_inv cfg desired st" and prod: "produce cfg L b st = Some u" and close: "closes L st"
    and a: "a \<in> set (validators (on_chain st))" "a \<notin> set desired"
    and silent: "a \<notin> set (actual_authors (on_chain st))"
      "author_at L (slot b) (validators (on_chain st)) \<noteq> Some a"
    and stale: "\<And>c. c \<in> set (proposed_candidates (on_chain st)) \<Longrightarrow> who c = a \<Longrightarrow>
      unat (last_authored c) + unat (max_staling_period cfg) < unat (block_number (on_chain st)) + 1"
  shows "a \<notin> set (waiting_candidates (on_chain u))"
proof -
  let ?s = "on_chain (record_author cfg L b (next_number st))"
  from closingE [OF inv prod close] obtain r t where
    rot: "rotation cfg (queued st) ?s = Some (r, t)" and sinv: "staking_inv cfg desired ?s"
    and n: "block_number (on_chain st) + 1 \<noteq> 0"
    and w: "waiting_candidates (on_chain u) = waiting_candidates t"
    by metis
  have des: "desired_candidates (on_chain st) = desired"
    using inv by (simp add: node_inv_def staking_inv_def pipeline_inv_def)
  have "a \<notin> set (actual_authors ?s)"
    using silent by (auto simp: record_author_def on_initialize_def add_actual_author_def
        record_authored_block_def split: option.splits if_splits)
  moreover have "unat (max_staling_period cfg) < unat (sat_sub (block_number ?s) (last_authored d))"
    if d: "d \<in> set (proposed_candidates ?s)" "who d = a" for d
  proof -
    from record_author_candidates [OF d(1)] d(2) silent(2)
    have "d \<in> set (proposed_candidates (on_chain st))" by auto
    from stale [OF this d(2)] show ?thesis by (simp add: unat_sat_sub unat_next [OF n])
  qed
  ultimately have "slash_hit cfg ?s (validators ?s) d"
    if d: "d \<in> set (proposed_candidates ?s)" "who d = a" for d
    using d a by (simp add: slash_hit_def is_stale_def stale_validators_def des word_less_nat_alt)
  with a(2) slashed_not_waitlisted [of a ?s cfg "validators ?s"] show ?thesis
    by (simp add: w rotation_waiting [OF codec sinv rot] des)
qed

lemma quiet_run_only_authors:
  "quiet_run cfg L bs st u \<Longrightarrow>
   set (actual_authors (on_chain u)) \<subseteq>
     set (authors_of L (validators (on_chain st)) bs) \<union> set (actual_authors (on_chain st))"
proof (induction rule: quiet_run.induct)
  case (quiet_Cons st b t bs u)
  note keeps = inside_keeps [OF quiet_Cons(2,1)]
  have "set (actual_authors (on_chain t)) \<subseteq>
      set (authors_of L (validators (on_chain st)) [b]) \<union> set (actual_authors (on_chain st))"
    using keeps by (auto simp: record_author_def on_initialize_def add_actual_author_def
        record_authored_block_def split: option.splits if_splits)
  with quiet_Cons.IH keeps show ?case by (auto split: option.splits)
qed simp

section \<open>No block fails\<close>

lemma begin_block_total:
  assumes inv: "node_inv cfg desired st" and n: "block_number (on_chain st) + 1 \<noteq> 0"
  shows "\<exists>u. begin_block cfg L b st = Some u"
proof -
  have "staking_inv cfg desired (on_chain (record_author cfg L b (next_number st)))"
    using record_author_inv [OF next_number_inv [OF inv n]] by (simp add: node_inv_def)
  from rotation_total [OF codec this] obtain r t where
    "rotation cfg (queued st) (on_chain (record_author cfg L b (next_number st))) = Some (r, t)"
    by blast
  then show ?thesis
    using n by (simp add: begin_block_eq Let_def rotate_session_def)
qed

lemma produce_total:
  assumes "node_inv cfg desired st" and "block_number (on_chain st) + 1 \<noteq> 0"
  shows "\<exists>u. produce cfg L b st = Some u"
proof -
  from begin_block_total [OF assms] obtain i where i: "begin_block cfg L b st = Some i" by blast
  from run_extrinsics_total [OF codec] obtain v where
    "run_extrinsics cfg (extrinsics b) (on_chain i) = Some v" by blast
  with i show ?thesis by (simp add: produce_def)
qed

lemma produce_number:
  assumes inv: "node_inv cfg desired st" and prod: "produce cfg L b st = Some u"
  shows "unat (block_number (on_chain u)) = unat (block_number (on_chain st)) + 1"
  using prod
proof (cases rule: produceE)
  case inside
  with inside_keeps [OF prod] show ?thesis by (simp add: unat_next)
next
  case (closing r t)
  have "staking_inv cfg desired (on_chain (record_author cfg L b (next_number st)))"
    using record_author_inv [OF next_number_inv [OF inv closing(2)]] by (simp add: node_inv_def)
  from rotation_result [OF this closing(3)] extrinsics_same_pipeline [OF closing(5)]
  show ?thesis by (simp add: same_pipeline_def unat_next [OF closing(2)])
qed

lemma produce_all_total:
  "node_inv cfg desired st \<Longrightarrow> unat (block_number (on_chain st)) + length bs < 2 ^ 32 \<Longrightarrow>
   \<exists>u. produce_all cfg L bs st = Some u \<and> node_inv cfg desired u \<and>
     unat (block_number (on_chain u)) = unat (block_number (on_chain st)) + length bs"
proof (induction bs arbitrary: st)
  case (Cons b bs)
  have "block_number (on_chain st) + 1 \<noteq> 0"
  proof
    assume "block_number (on_chain st) + 1 = 0"
    then have "block_number (on_chain st) = - 1" by (simp add: add_eq_0_iff2)
    with Cons.prems(2) show False by (simp add: unat_max_word)
  qed
  from produce_total [OF Cons.prems(1) this] obtain t where t: "produce cfg L b st = Some t" by blast
  from Cons.IH [OF produce_inv [OF Cons.prems(1) t]] produce_number [OF Cons.prems(1) t] Cons.prems(2) t
  show ?case by auto
qed simp

end

context block_production
begin

lemma node_inv_reach: "node_reachable cfg L desired st \<Longrightarrow> node_inv cfg desired st"
  by (rule node.inv_reach)

end

section \<open>Accounts that stay idle\<close>

text \<open>Several sessions, each with its inner blocks and the block that closes it.\<close>

fun sessions_run ::
    "'c staking_config \<Rightarrow> session_lib \<Rightarrow> ('c block list \<times> 'c block) list \<Rightarrow> 'c node_state \<Rightarrow>
     'c node_state \<Rightarrow> bool" where
  "sessions_run cfg L [] st u = (st = u)"
| "sessions_run cfg L ((bs, b) # ss) st u = (\<exists>t. session_run cfg L bs b st t \<and> sessions_run cfg L ss t u)"

definition session_blocks :: "('c block list \<times> 'c block) list \<Rightarrow> 'c block list" where
  "session_blocks ss = concat (map (\<lambda>(bs, b). bs @ [b]) ss)"

lemma session_blocks_simps [simp]:
  "session_blocks [] = []"
  "session_blocks ((bs, b) # ss) = bs @ b # session_blocks ss"
  by (simp_all add: session_blocks_def)

text \<open>The account signs no staking call in the block.\<close>

definition idle :: "account_id \<Rightarrow> 'c block \<Rightarrow> bool" where
  "idle a b \<longleftrightarrow> list_all (\<lambda>x. case x of StakingExtrinsic org _ \<Rightarrow> org \<noteq> System (Signed a)
                                  | OtherExtrinsic _ \<Rightarrow> True) (extrinsics b)"

abbreviation facet_at :: "account_id \<Rightarrow> 'c chain \<Rightarrow> (balance \<times> bool \<times> bool \<times> status) set" where
  "facet_at a s \<equiv> facet standing a (proposed_candidates s)"

lemma extrinsics_standing:
  "run_extrinsics cfg xs s = Some t \<Longrightarrow>
   list_all (\<lambda>x. case x of StakingExtrinsic org _ \<Rightarrow> org \<noteq> System (Signed a) | OtherExtrinsic _ \<Rightarrow> True) xs \<Longrightarrow>
   facet_at a t = facet_at a s"
proof (induction xs arbitrary: s)
  case (Cons x xs)
  from Cons.prems(1) obtain u where u: "run_extrinsic cfg x s = Some u" "run_extrinsics cfg xs u = Some t"
    by (auto simp: bind_eq_Some_conv)
  have "facet_at a u = facet_at a s"
  proof (cases x)
    case (StakingExtrinsic org call)
    with u(1) obtain r where "dispatch cfg org call s = (r, u)" by (auto simp: run_extrinsic_staking)
    moreover have "org \<noteq> System (Signed a)" using Cons.prems(2) StakingExtrinsic by simp
    ultimately show ?thesis by (rule dispatch_standing)
  qed (use u(1) in auto)
  with Cons.IH [OF u(2)] Cons.prems(2) show ?case by simp
qed simp

lemma record_author_standing:
  "facet_at a (on_chain (record_author cfg L b st)) = facet_at a (on_chain st)"
  by (auto simp: record_author_def on_initialize_def add_actual_author_def record_authored_block_def
      facet_update split: option.split)

lemma inside_standing:
  assumes "produce cfg L b st = Some u" "\<not> closes L st" "idle a b"
  shows "facet_at a (on_chain u) = facet_at a (on_chain st)"
  using assms(1)
proof (cases rule: produceE)
  case inside
  from extrinsics_standing [OF inside(3), of a] assms(3) show ?thesis
    by (simp add: idle_def record_author_standing)
qed (use assms(2) in simp)

lemma quiet_run_standing:
  "quiet_run cfg L bs st u \<Longrightarrow> list_all (idle a) bs \<Longrightarrow> facet_at a (on_chain u) = facet_at a (on_chain st)"
proof (induction rule: quiet_run.induct)
  case (quiet_Cons st b t bs u)
  with inside_standing [OF quiet_Cons(2,1), of a] show ?case by simp
qed simp

lemma rotation_eligible:
  assumes codec: "lawful_codec cfg" and inv: "staking_inv cfg desired s"
    and rot: "rotation cfg active s = Some (r, t)"
    and c: "c \<in> set (proposed_candidates s)" "eligible c" "\<not> slash_hit cfg s (validators s) c"
  shows "\<exists>d\<in>set (proposed_candidates t). who d = who c \<and> eligible d"
proof -
  from surviving_eligible [OF c] obtain e where
    e: "e \<in> set (surviving cfg s (validators s))" "who e = who c" "eligible e" by blast
  have "\<exists>new. proposed_candidates (end_session_spec cfg s (validators s)) =
      map (waitlisted new) (surviving cfg s (validators s))"
    by (auto simp: end_session_spec_def Let_def)
  then obtain new where u: "proposed_candidates (end_session_spec cfg s (validators s)) =
      map (waitlisted new) (surviving cfg s (validators s))" ..
  have f: "who (waitlisted new e) = who c \<and> eligible (waitlisted new e)"
    using e(2,3) by (simp add: waitlisted_def eligible_def)
  have "proposed_candidates t = map (\<lambda>c. if who c \<in> set (invulnerables
      (end_session_spec cfg s (validators s))) then c\<lparr>status := Authoring\<rparr> else c)
      (map (waitlisted new) (surviving cfg s (validators s)))"
    using rotation_eq [OF codec inv rot] u by simp
  with e(1) f show ?thesis
    by (intro bexI [of _ "if who c \<in> set (invulnerables (end_session_spec cfg s (validators s)))
        then (waitlisted new e)\<lparr>status := Authoring\<rparr> else waitlisted new e"])
      (auto simp: eligible_def)
qed

text \<open>The account is out of every list the pallet and the session pallet keep.\<close>

definition gone :: "account_id \<Rightarrow> 'c node_state \<Rightarrow> bool" where
  "gone a st \<longleftrightarrow> fading a {} (on_chain st) \<and> a \<notin> set (waiting_candidates (on_chain st)) \<and>
     a \<notin> set (invulnerables (on_chain st)) \<and> a \<notin> set (queued st) \<and> a \<notin> set (validators (on_chain st))"

text \<open>An eligible account that is neither a validator nor queued, and has no session keys, stays so.\<close>

definition seated :: "account_id \<Rightarrow> 'c node_state \<Rightarrow> bool" where
  "seated a st \<longleftrightarrow> a \<notin> set (validators (on_chain st)) \<and> a \<notin> set (queued st) \<and>
     (\<exists>c\<in>set (proposed_candidates (on_chain st)). who c = a \<and> eligible c)"

context block_production
begin

text \<open>The boundary inside the block that closes a session, for an account idle in it.\<close>

lemma closing_standing:
  assumes inv: "node_inv cfg desired st" and prod: "produce cfg L b st = Some u" and close: "closes L st"
    and idle: "idle a b"
  obtains s r t where "staking_inv cfg desired s" "rotation cfg (queued st) s = Some (r, t)"
    "facet_at a s = facet_at a (on_chain st)" "facet_at a (on_chain u) = facet_at a t"
    "waiting_candidates s = waiting_candidates (on_chain st)" "validators s = validators (on_chain st)"
    "waiting_candidates (on_chain u) = waiting_candidates t"
    "invulnerables (on_chain u) = invulnerables t"
  using prod
proof (cases rule: produceE)
  case (closing r t)
  have sinv: "staking_inv cfg desired (on_chain (record_author cfg L b (next_number st)))"
    using record_author_inv [OF next_number_inv [OF inv closing(2)]] by (simp add: node_inv_def)
  show ?thesis
    by (rule that [OF sinv closing(3)])
      (use extrinsics_standing [OF closing(5), of a] extrinsics_same_pipeline [OF closing(5)] idle
        in \<open>simp_all add: idle_def same_pipeline_def record_author_standing\<close>)
qed (use close in simp)

lemma session_fading:
  assumes inv: "node_inv cfg desired st" and run: "session_run cfg L bs b st u"
    and idle: "list_all (idle a) (bs @ [b])" and des: "desired \<noteq> []" "a \<notin> set desired"
    and fading: "fading a S (on_chain st)"
  shows "a \<notin> set (waiting_candidates (on_chain u)) \<and> fading a UNIV (on_chain u) \<and>
    (a \<notin> set (waiting_candidates (on_chain st)) \<longrightarrow>
       a \<notin> set (invulnerables (on_chain u)) \<and> fading a (step_down S) (on_chain u))"
proof -
  from run obtain t where t: "quiet_run cfg L bs st t" "closes L t" "produce cfg L b t = Some u"
    by (auto simp: session_run_def)
  have "facet_at a (on_chain t) = facet_at a (on_chain st)"
    using quiet_run_standing [OF t(1)] idle by simp
  then have ft: "fading a S (on_chain t)" using facet_fading fading by metis
  have "idle a b" using idle by simp
  from closing_standing [OF quiet_run_inv [OF t(1) inv] t(3,2) this] obtain s r v where
    s: "staking_inv cfg desired s" "rotation cfg (queued t) s = Some (r, v)"
      "facet_at a s = facet_at a (on_chain t)" "facet_at a (on_chain u) = facet_at a v"
      "waiting_candidates s = waiting_candidates (on_chain t)"
      "waiting_candidates (on_chain u) = waiting_candidates v"
      "invulnerables (on_chain u) = invulnerables v"
    by metis
  have "fading a S s" using facet_fading [OF s(3) [symmetric] ft] .
  note step = rotation_fading [OF codec s(1,2) des this]
  from step facet_fading [OF s(4) [symmetric]] quiet_run_keeps [OF t(1)] show ?thesis
    by (auto simp: s(5-7))
qed

lemma sessions_run_inv:
  "sessions_run cfg L ss st u \<Longrightarrow> node_inv cfg desired st \<Longrightarrow> node_inv cfg desired u"
proof (induction ss arbitrary: st)
  case (Cons p ss)
  obtain bs b where p: "p = (bs, b)" by (cases p)
  from Cons.prems(1) obtain t v where t: "quiet_run cfg L bs st v" "produce cfg L b v = Some t"
    "sessions_run cfg L ss t u"
    by (auto simp: p session_run_def)
  from Cons.IH [OF t(3) produce_inv [OF quiet_run_inv [OF t(1) Cons.prems(2)] t(2)]] show ?case .
qed simp

lemma step_down_empty [simp]: "step_down {} = {}"
  by (simp add: step_down_def)

lemma sessions_gone:
  assumes "desired \<noteq> []" "a \<notin> set desired"
  shows "sessions_run cfg L ss st u \<Longrightarrow> node_inv cfg desired st \<Longrightarrow>
    list_all (idle a) (session_blocks ss) \<Longrightarrow> gone a st \<Longrightarrow> gone a u"
proof (induction ss arbitrary: st)
  case (Cons p ss)
  obtain bs b where p: "p = (bs, b)" by (cases p)
  from Cons.prems(1) obtain t where t: "session_run cfg L bs b st t" "sessions_run cfg L ss t u"
    by (auto simp: p)
  have idle: "list_all (idle a) (bs @ [b])" "list_all (idle a) (session_blocks ss)"
    using Cons.prems(3) by (simp_all add: p)
  have "fading a {} (on_chain st)" using Cons.prems(4) by (simp add: gone_def)
  note step = session_fading [OF Cons.prems(2) t(1) idle(1) assms this]
  note lists = session_run_lists [OF Cons.prems(2) t(1) assms(1)]
  from step lists Cons.prems(4) have "gone a t" by (simp add: gone_def)
  with lists t(2) idle(2) show ?case by (auto intro: Cons.IH)
qed simp

text \<open>Four sessions see a dropping entry through the pipeline, whatever step it was at.\<close>

lemma four_sessions_gone:
  assumes inv: "node_inv cfg desired st" and des: "desired \<noteq> []" "a \<notin> set desired"
    and fading: "fading a UNIV (on_chain st)"
    and run: "sessions_run cfg L ss st u" and long: "4 \<le> length ss"
    and idle: "list_all (idle a) (session_blocks ss)"
  shows "gone a u"
proof -
  from long obtain p1 p2 p3 p4 rest where ss: "ss = p1 # p2 # p3 # p4 # rest"
    by (auto simp: numeral_eq_Suc Suc_le_length_iff)
  obtain bs1 b1 bs2 b2 bs3 b3 bs4 b4 where p: "p1 = (bs1, b1)" "p2 = (bs2, b2)" "p3 = (bs3, b3)"
    "p4 = (bs4, b4)" by (metis surj_pair)
  from run obtain s1 s2 s3 s4 where r: "session_run cfg L bs1 b1 st s1" "session_run cfg L bs2 b2 s1 s2"
    "session_run cfg L bs3 b3 s2 s3" "session_run cfg L bs4 b4 s3 s4" "sessions_run cfg L rest s4 u"
    by (auto simp: ss p)
  have i: "list_all (idle a) (bs1 @ [b1])" "list_all (idle a) (bs2 @ [b2])"
    "list_all (idle a) (bs3 @ [b3])" "list_all (idle a) (bs4 @ [b4])"
    "list_all (idle a) (session_blocks rest)"
    using idle by (simp_all add: ss p)
  note lists = session_run_lists [OF _ _ des(1)]
  note l1 = lists [OF inv r(1)]
  note f1 = session_fading [OF inv r(1) i(1) des fading]
  note l2 = lists [OF l1 [THEN conjunct1] r(2)]
  note f2 = session_fading [OF l1 [THEN conjunct1] r(2) i(2) des f1 [THEN conjunct2, THEN conjunct1]]
  have s2: "a \<notin> set (waiting_candidates (on_chain s2))" "a \<notin> set (queued s2)"
    "fading a (step_down UNIV) (on_chain s2)"
    using f1 f2 l2 by auto
  note l3 = lists [OF l2 [THEN conjunct1] r(3)]
  note f3 = session_fading [OF l2 [THEN conjunct1] r(3) i(3) des s2(3)]
  have s3: "a \<notin> set (waiting_candidates (on_chain s3))" "a \<notin> set (queued s3)"
    "fading a (step_down (step_down UNIV)) (on_chain s3)"
    using f3 l3 s2 by auto
  note l4 = lists [OF l3 [THEN conjunct1] r(4)]
  note f4 = session_fading [OF l3 [THEN conjunct1] r(4) i(4) des s3(3)]
  have "gone a s4" using f4 l4 s3 by (simp add: gone_def step_down_thrice)
  with sessions_gone [OF des r(5) _ i(5)] l4 show ?thesis by blast
qed

lemma facet_eligible:
  assumes "facet_at a s = facet_at a t" "\<exists>c\<in>set (proposed_candidates s). who c = a \<and> eligible c"
  shows "\<exists>c\<in>set (proposed_candidates t). who c = a \<and> eligible c"
proof -
  from assms(2) obtain c where c: "c \<in> set (proposed_candidates s)" "who c = a" "eligible c" by blast
  from facet_transfer [OF assms(1) c(1,2)] c(3) standing_eligible [of _ c] show ?thesis by blast
qed

lemma quiet_run_seated:
  assumes "quiet_run cfg L bs st t" "list_all (idle a) bs" "seated a st"
  shows "seated a t"
  using assms(3) quiet_run_keeps [OF assms(1)]
    facet_eligible [OF quiet_run_standing [OF assms(1,2), symmetric]]
  by (simp add: seated_def)

lemma closing_seated:
  assumes inv: "node_inv cfg desired st" and prod: "produce cfg L b st = Some u" and close: "closes L st"
    and des: "desired \<noteq> []" and b: "idle a b" "\<not> keyed b a" and seated: "seated a st"
  shows "seated a u"
proof -
  from closing_standing [OF inv prod close b(1)] obtain s r t where
    s: "staking_inv cfg desired s" "rotation cfg (queued st) s = Some (r, t)"
      "facet_at a s = facet_at a (on_chain st)" "facet_at a (on_chain u) = facet_at a t"
      "validators s = validators (on_chain st)"
    by metis
  have "\<exists>c\<in>set (proposed_candidates s). who c = a \<and> eligible c"
    using facet_eligible [OF s(3) [symmetric]] seated by (simp add: seated_def)
  then obtain c where c: "c \<in> set (proposed_candidates s)" "who c = a" "eligible c" by blast
  have "\<not> slash_hit cfg s (validators s) c"
    using seated c(2) s(5) by (simp add: seated_def slash_hit_def is_stale_def stale_validators_def)
  from rotation_eligible [OF codec s(1,2) c(1,3) this] c(2)
  have "\<exists>c\<in>set (proposed_candidates t). who c = a \<and> eligible c" by simp
  from facet_eligible [OF s(4) [symmetric] this] have "\<exists>c\<in>set (proposed_candidates (on_chain u)). who c = a \<and> eligible c" .
  moreover have "session_run cfg L [] b st u" using prod close by (simp add: session_run_def)
  from session_run_lists [OF inv this des] b(2) seated have "a \<notin> set (validators (on_chain u)) \<and> a \<notin> set (queued u)"
    by (simp add: seated_def)
  ultimately show ?thesis by (simp add: seated_def)
qed

lemma sessions_seated:
  assumes "desired \<noteq> []"
  shows "sessions_run cfg L ss st u \<Longrightarrow> node_inv cfg desired st \<Longrightarrow>
    list_all (\<lambda>b. idle a b \<and> \<not> keyed b a) (session_blocks ss) \<Longrightarrow> seated a st \<Longrightarrow> seated a u"
proof (induction ss arbitrary: st)
  case (Cons p ss)
  obtain bs b where p: "p = (bs, b)" by (cases p)
  from Cons.prems(1) obtain t v where t: "quiet_run cfg L bs st v" "closes L v" "produce cfg L b v = Some t"
    "sessions_run cfg L ss t u"
    by (auto simp: p session_run_def)
  have idle: "list_all (idle a) bs" "idle a b" "\<not> keyed b a"
    "list_all (\<lambda>b. idle a b \<and> \<not> keyed b a) (session_blocks ss)"
    using Cons.prems(3) by (simp_all add: p list_all_iff)
  note inv = quiet_run_inv [OF t(1) Cons.prems(2)]
  have "seated a t"
    using closing_seated [OF inv t(3,2) assms idle(2,3) quiet_run_seated [OF t(1) idle(1) Cons.prems(4)]] .
  with Cons.IH [OF t(4) produce_inv [OF inv t(3)] idle(4)] show ?case .
qed simp

end

section \<open>The reserve of an idle account\<close>

text \<open>Other pallets neither hold nor release anything of the account's in the block.\<close>

definition leaves_reserve :: "'c staking_config \<Rightarrow> account_id \<Rightarrow> 'c block \<Rightarrow> bool" where
  "leaves_reserve cfg a b \<longleftrightarrow> (\<forall>f m. OtherExtrinsic f \<in> set (extrinsics b) \<longrightarrow>
     reserved_balance (currency cfg) (f m) a = reserved_balance (currency cfg) m a)"

lemma extrinsics_reserved:
  assumes bank: "staking_bank cfg"
  shows "run_extrinsics cfg xs s = Some t \<Longrightarrow>
    list_all (\<lambda>x. case x of StakingExtrinsic org _ \<Rightarrow> org \<noteq> System (Signed a) | OtherExtrinsic _ \<Rightarrow> True) xs \<Longrightarrow>
    (\<And>f m. OtherExtrinsic f \<in> set xs \<Longrightarrow>
      reserved_balance (currency cfg) (f m) a = reserved_balance (currency cfg) m a) \<Longrightarrow>
    reserved_balance (currency cfg) (bank t) a = reserved_balance (currency cfg) (bank s) a"
proof (induction xs arbitrary: s)
  case (Cons x xs)
  from Cons.prems(1) obtain u where u: "run_extrinsic cfg x s = Some u" "run_extrinsics cfg xs u = Some t"
    by (auto simp: bind_eq_Some_conv)
  have "reserved_balance (currency cfg) (bank u) a = reserved_balance (currency cfg) (bank s) a"
  proof (cases x)
    case (StakingExtrinsic org call)
    with u(1) obtain r where "dispatch cfg org call s = (r, u)" by (auto simp: run_extrinsic_staking)
    moreover have "org \<noteq> System (Signed a)" using Cons.prems(2) StakingExtrinsic by simp
    ultimately show ?thesis by (rule staking_bank.dispatch_reserved_other [OF bank])
  next
    case (OtherExtrinsic f)
    with u(1) Cons.prems(3) [of f "bank s"] show ?thesis by auto
  qed
  with Cons.IH [OF u(2)] Cons.prems(2,3) show ?case by simp
qed simp

context block_production
begin

lemma produce_reserved:
  assumes bank: "staking_bank cfg" and inv: "node_inv cfg desired st"
    and prod: "produce cfg L b st = Some u" and idle: "idle a b" and others: "leaves_reserve cfg a b"
  shows "reserved_balance (currency cfg) (bank (on_chain u)) a =
    reserved_balance (currency cfg) (bank (on_chain st)) a"
proof -
  have author: "bank (on_chain (record_author cfg L b (next_number st))) = bank (on_chain st)"
    using on_initialize_outside [of "on_chain (next_number st)" cfg]
    by (simp add: record_author_def same_outside_def)
  note calls = extrinsics_reserved [OF bank _ idle [unfolded idle_def]]
  from prod show ?thesis
  proof (cases rule: produceE)
    case inside
    from calls [OF inside(3)] others author show ?thesis by (simp add: leaves_reserve_def)
  next
    case (closing r t)
    have "staking_inv cfg desired (on_chain (record_author cfg L b (next_number st)))"
      using record_author_inv [OF next_number_inv [OF inv closing(2)]] by (simp add: node_inv_def)
    from calls [OF closing(5)] others author rotation_bank [OF codec this closing(3)]
    show ?thesis by (simp add: leaves_reserve_def)
  qed
qed

lemma quiet_run_reserved:
  assumes bank: "staking_bank cfg"
  shows "quiet_run cfg L bs st u \<Longrightarrow> node_inv cfg desired st \<Longrightarrow>
    list_all (\<lambda>b. idle a b \<and> leaves_reserve cfg a b) bs \<Longrightarrow>
    reserved_balance (currency cfg) (bank (on_chain u)) a =
    reserved_balance (currency cfg) (bank (on_chain st)) a"
proof (induction rule: quiet_run.induct)
  case (quiet_Cons st b t bs u)
  with produce_reserved [OF bank quiet_Cons.prems(1) quiet_Cons(2), of a]
    produce_inv [OF quiet_Cons.prems(1) quiet_Cons(2)] show ?case by simp
qed simp

lemma sessions_reserved:
  assumes bank: "staking_bank cfg"
  shows "sessions_run cfg L ss st u \<Longrightarrow> node_inv cfg desired st \<Longrightarrow>
    list_all (\<lambda>b. idle a b \<and> leaves_reserve cfg a b) (session_blocks ss) \<Longrightarrow>
    reserved_balance (currency cfg) (bank (on_chain u)) a =
    reserved_balance (currency cfg) (bank (on_chain st)) a"
proof (induction ss arbitrary: st)
  case (Cons p ss)
  obtain bs b where p: "p = (bs, b)" by (cases p)
  from Cons.prems(1) obtain t v where t: "quiet_run cfg L bs st v" "produce cfg L b v = Some t"
    "sessions_run cfg L ss t u"
    by (auto simp: p session_run_def)
  note inv = quiet_run_inv [OF t(1) Cons.prems(2)]
  have "idle a b" "leaves_reserve cfg a b"
    and rest: "list_all (\<lambda>b. idle a b \<and> leaves_reserve cfg a b) bs"
      "list_all (\<lambda>b. idle a b \<and> leaves_reserve cfg a b) (session_blocks ss)"
    using Cons.prems(3) by (simp_all add: p)
  with produce_reserved [OF bank inv t(2)] quiet_run_reserved [OF bank t(1) Cons.prems(2) rest(1)]
    Cons.IH [OF t(3) produce_inv [OF inv t(2)] rest(2)]
  show ?case by simp
qed simp

end

end
