(* ===== verification/Block_Theorems.thy ===== *)
theory Block_Theorems
  imports Session_Runs
begin

text \<open>
  What the runtime's blocks promise: they never fail, a session lasts its period, whoever
  does his work is not slashed and whoever stops loses his seat, and the validators of a
  session are the candidates selected two sessions before; a dropped candidate leaves every list
  and a candidate without keys keeps his seat. Each property is applied to a
  small chain whose sessions last one or two blocks.
\<close>

section \<open>The runtime's instance\<close>

text \<open>The documented session schedule and author lookup, as functions.\<close>

definition periodic_lib :: "block_number \<Rightarrow> session_lib" where
  "periodic_lib p =
     \<lparr>should_end = (\<lambda>n. n mod p = 0),
      author_at = (\<lambda>sl vs. if vs = [] then None else Some (vs ! (unat sl mod length vs)))\<rparr>"

definition sessions_of :: "block_number \<Rightarrow> session_config" where
  "sessions_of p = runtime_session_config\<lparr>session_period := p\<rparr>"

lemma runtime_sessions: "runtime_session_config = sessions_of SessionPeriod"
  by (simp add: sessions_of_def runtime_session_config_def)

lemma periodic_lawful: "lawful_session_lib (sessions_of p) (periodic_lib p)"
  by (simp add: lawful_session_lib_def sessions_of_def periodic_lib_def runtime_session_config_def
      constant_defs word_unat_eq_iff unat_mod)

interpretation runtime_blocks: block_production
  "xode_staking_config C account_bytes account_of_bytes" runtime_session_config
  "periodic_lib SessionPeriod" for C :: "'c currency_ops"
  by (unfold_locales, rule runtime_codec, unfold runtime_sessions, rule periodic_lawful)

text \<open>In the runtime a session is longer than any validator set is large.\<close>

lemma runtime_session_covers_validators:
  "unat (max_candidates (xode_staking_config C enc dec)) \<le> unat (session_period runtime_session_config)"
  by (simp add: runtime_session_config_def constant_defs)

section \<open>A small chain\<close>

text \<open>One genesis validator, sessions of one block, and no grace for the silent.\<close>

definition quick :: "ledger staking_config" where
  "quick = demo_config\<lparr>max_staling_period := 0\<rparr>"

lemma quick_sel [simp]:
  "currency quick = ledger_ops" "max_candidates quick = 50"
  "min_candidate_bond quick = 100000000000000" "max_staling_period quick = 0"
  by (simp_all add: quick_def)

lemma quick_codec [simp]: "lawful_codec quick"
  using demo_codec by (simp add: quick_def lawful_codec_def)

interpretation quick: block_production quick "sessions_of p" "periodic_lib p" for p :: block_number
  by unfold_locales (simp_all add: periodic_lawful)

definition node0 :: "ledger node_state" where
  "node0 = \<lparr>on_chain = (demo_genesis [1])\<lparr>validators := [1]\<rparr>, queued = [1]\<rparr>"

lemma node0_genesis: "node_at_genesis quick [1] node0"
  unfolding node_at_genesis_def node0_def
  by (intro conjI exI [of _ "demo_genesis [1]"])
    (simp_all add: at_genesis_def genesis_build_def demo_simps)

lemma node0_reachable: "node_reachable quick L [1] node0"
  using node0_genesis by (rule reach_init)

definition block_at :: "u64 \<Rightarrow> (account_id \<times> staking_call) list \<Rightarrow> ledger block" where
  "block_at sl calls = \<lparr>slot = sl, keyed = (\<lambda>_. True),
     extrinsics = map (\<lambda>(a, call). StakingExtrinsic (System (Signed a)) call) calls\<rparr>"

lemma block_at_sel [simp]:
  "slot (block_at sl calls) = sl" "keyed (block_at sl calls) = (\<lambda>_. True)"
  "extrinsics (block_at sl calls) =
     map (\<lambda>(a, call). StakingExtrinsic (System (Signed a)) call) calls"
  by (simp_all add: block_at_def)

lemma rotation_lawful:
  assumes "lawful_codec cfg" "registered_once s"
  shows "rotation cfg active s =
    (let u = end_session_spec cfg s (validators s) in
     Some (Some (invulnerables u),
       u\<lparr>validators := active,
         proposed_candidates := map (\<lambda>c. if who c \<in> set (invulnerables u)
           then c\<lparr>status := Authoring\<rparr> else c) (proposed_candidates u)\<rparr>))"
proof -
  let ?u = "end_session_spec cfg s (validators s)"
  have "registered_once ?u"
    using distinct_surviving [OF assms(2), of cfg "validators s"]
    by (simp add: end_session_spec_def Let_def)
  then have "registered_once (install_validators active ?u)" by (simp add: install_validators_def)
  from new_session_eq [OF this] end_session_lawful [OF assms] show ?thesis
    by (simp add: rotation_def boundary_def start_session_def Let_def install_validators_def)
qed

lemmas run_simps = produce_def begin_block_eq rotate_session_def closes_def periodic_lib_def
  record_author_def on_initialize_def record_authored_block_def add_actual_author_def try_push_def
  rotation_lawful end_session_spec_def surviving_def slashed_def slash_hit_def is_stale_def
  stale_validators_def promoted_def prepared_def dropping_def map_filter_simps waiting_spec_def
  newcomers_def waitlisted_def eligible_def Let_def

text \<open>In the first block accounts 1 and 2 register and bond.\<close>

definition entry :: "account_id \<Rightarrow> candidate_info" where
  "entry a = (demo_candidate a 100000000000000)\<lparr>last_updated := 1, last_authored := 1\<rparr>"

definition node1 :: "ledger node_state" where
  "node1 = \<lparr>on_chain = (demo_chain [1] [entry 1, entry 2])
       \<lparr>validators := [1], block_number := 1,
        bank := \<lparr>l_free = (\<lambda>_. 1000000000000000)(1 := 900000000000000, 2 := 900000000000000),
                 l_reserved = (\<lambda>_. 0)(1 := 100000000000000, 2 := 100000000000000)\<rparr>,
        events := [CandidateRegistered 1, CandidateRegistered 2,
                   CandidateBonded 1 100000000000000, CandidateBonded 2 100000000000000]\<rparr>,
     queued = [1]\<rparr>"

definition block1 :: "ledger block" where
  "block1 = block_at 1 [(1, RegisterCandidate), (2, RegisterCandidate),
     (1, BondCandidate 100000000000000), (2, BondCandidate 100000000000000)]"

lemma quick_closes [simp]: "closes (periodic_lib 1) st"
  by (simp add: closes_def periodic_lib_def)

definition bonded_1 :: "ledger" where
  "bonded_1 = \<lparr>l_free = (\<lambda>_. 1000000000000000)(1 := 900000000000000),
     l_reserved = (\<lambda>_. 0)(1 := 100000000000000)\<rparr>"

definition genesis_1 :: "ledger chain" where
  "genesis_1 = (demo_genesis [1])\<lparr>validators := [1], block_number := 1\<rparr>"

lemma init1: "begin_block quick (periodic_lib 1) block1 node0 =
    Some \<lparr>on_chain = genesis_1, queued = [1]\<rparr>"
  by (simp add: run_simps block1_def node0_def genesis_1_def demo_simps)

definition e0 :: "account_id \<Rightarrow> candidate_info" where
  "e0 a = (demo_candidate a 0)\<lparr>last_updated := 1, last_authored := 1\<rparr>"

lemma calls1:
  "call_body quick (System (Signed 1)) RegisterCandidate genesis_1 =
     (Inr (), genesis_1\<lparr>proposed_candidates := [e0 1], events := [CandidateRegistered 1]\<rparr>)"
  "call_body quick (System (Signed 2)) RegisterCandidate
     (genesis_1\<lparr>proposed_candidates := [e0 1], events := [CandidateRegistered 1]\<rparr>) =
     (Inr (), genesis_1\<lparr>proposed_candidates := [e0 1, e0 2],
        events := [CandidateRegistered 1, CandidateRegistered 2]\<rparr>)"
  "call_body quick (System (Signed 1)) (BondCandidate 100000000000000)
     (genesis_1\<lparr>proposed_candidates := [e0 1, e0 2],
        events := [CandidateRegistered 1, CandidateRegistered 2]\<rparr>) =
     (Inr (), genesis_1\<lparr>proposed_candidates := [entry 1, e0 2], bank := bonded_1,
        events := [CandidateRegistered 1, CandidateRegistered 2, CandidateBonded 1 100000000000000]\<rparr>)"
  "call_body quick (System (Signed 2)) (BondCandidate 100000000000000)
     (genesis_1\<lparr>proposed_candidates := [entry 1, e0 2], bank := bonded_1,
        events := [CandidateRegistered 1, CandidateRegistered 2, CandidateBonded 1 100000000000000]\<rparr>) =
     (Inr (), on_chain node1)"
  by (simp_all add: register_candidate_def genesis_1_def e0_def demo_simps deposit_event_def try_push_def
      bond_candidate_def ensure_bond_allowed_def find_candidate_def adjust_reserve_def
      ledger_reserve_def sat_sub_def sort_proposed_candidates_def entry_def bonded_1_def node1_def
      modify_candidate_def ranks_before_def combined_def sat_add_def Let_def)

lemma produce1: "produce quick (periodic_lib 1) block1 node0 = Some node1"
proof -
  have "run_extrinsics quick (extrinsics block1) genesis_1 = Some (on_chain node1)"
    using calls1 by (simp add: block1_def run_extrinsic.simps(1) dispatch_def with_storage_layer_def)
  then show ?thesis by (simp add: produce_def init1) (simp add: node1_def)
qed

text \<open>Three more blocks, all by account 1, and account 2 is a validator too.\<close>

definition node_at ::
    "block_number \<Rightarrow> candidate_info list \<Rightarrow> account_id list \<Rightarrow> account_id list \<Rightarrow>
     account_id list \<Rightarrow> account_id list \<Rightarrow> ledger node_state" where
  "node_at n cs w i vs q = \<lparr>on_chain = (on_chain node1)
     \<lparr>block_number := n, proposed_candidates := cs, waiting_candidates := w, invulnerables := i,
      validators := vs\<rparr>, queued = q\<rparr>"

definition seat :: "account_id \<Rightarrow> block_number \<Rightarrow> status \<Rightarrow> candidate_info" where
  "seat a n st = (entry a)\<lparr>last_authored := n, status := st\<rparr>"

definition node4 :: "ledger node_state" where
  "node4 = node_at 4 [seat 1 4 Authoring, seat 2 1 Authoring] [1, 2] [1, 2] [1, 2] [1, 2]"

lemma node1_at: "node1 = node_at 1 [entry 1, entry 2] [1] [1] [1] [1]"
  by (simp add: node_at_def node1_def demo_simps)

lemmas node_simps = node_at_def node1_def seat_def entry_def demo_simps

lemma produce2_4:
  "produce quick (periodic_lib 1) (block_at 2 []) node1 =
     Some (node_at 2 [seat 1 2 Authoring, seat 2 1 Waiting] [1, 2] [1] [1] [1])"
  "produce quick (periodic_lib 1) (block_at 3 [])
     (node_at 2 [seat 1 2 Authoring, seat 2 1 Waiting] [1, 2] [1] [1] [1]) =
     Some (node_at 3 [seat 1 3 Authoring, seat 2 1 Authoring] [1, 2] [1, 2] [1] [1, 2])"
  "produce quick (periodic_lib 1) (block_at 4 [])
     (node_at 3 [seat 1 3 Authoring, seat 2 1 Authoring] [1, 2] [1, 2] [1] [1, 2]) = Some node4"
  by (simp_all add: run_simps node_simps node4_def)

lemma node1_reachable: "node_reachable quick (periodic_lib 1) [1] node1"
  using node0_reachable produce1 by (rule produce_node_reach)

lemmas node4_reachable = produce_node_reach
  [OF produce_node_reach [OF produce_node_reach [OF node1_reachable produce2_4(1)] produce2_4(2)]
    produce2_4(3)]

text \<open>With sessions of one block every block is a session.\<close>

lemma quick_session:
  assumes "node_inv quick desired st" "block_number (on_chain st) + 1 \<noteq> 0"
  shows "\<exists>u. session_run quick (periodic_lib 1) [] b st u \<and> node_inv quick desired u \<and>
    unat (block_number (on_chain u)) = unat (block_number (on_chain st)) + 1"
proof -
  from quick.produce_total [OF assms] obtain u where u: "produce quick (periodic_lib 1) b st = Some u"
    by blast
  with quick.produce_inv [OF assms(1) u] quick.produce_number [OF assms(1) u] show ?thesis
    by (auto simp: session_run_def)
qed

lemma quick_two_sessions:
  assumes "node_inv quick desired st" "unat (block_number (on_chain st)) < 100"
  shows "\<exists>u v. session_run quick (periodic_lib 1) [] b st u \<and> session_run quick (periodic_lib 1) [] b' u v"
proof -
  have room: "block_number (on_chain u) + 1 \<noteq> 0" if "unat (block_number (on_chain u)) < 101"
    for u :: "ledger node_state"
    using that by (auto simp: add_eq_0_iff2 unat_max_word)
  from quick_session [OF assms(1) room] assms(2) obtain u where
    u: "session_run quick (periodic_lib 1) [] b st u" "node_inv quick desired u"
      "unat (block_number (on_chain u)) < 101"
    by fastforce
  from quick_session [OF u(2) room [OF u(3)], of b'] u(1) show ?thesis by blast
qed

lemma quick_sessions:
  "node_inv quick desired st \<Longrightarrow> unat (block_number (on_chain st)) + length bs < 100 \<Longrightarrow>
   \<exists>u. sessions_run quick (periodic_lib 1) (map (\<lambda>b. ([], b)) bs) st u"
proof (induction bs arbitrary: st)
  case Nil
  then show ?case by (intro exI [of _ st]) simp
next
  case (Cons b bs)
  have "block_number (on_chain st) + 1 \<noteq> 0"
    using Cons.prems(2) by (auto simp: add_eq_0_iff2 unat_max_word)
  from quick_session [OF Cons.prems(1) this] obtain t where
    t: "session_run quick (periodic_lib 1) [] b st t" "node_inv quick desired t"
      "unat (block_number (on_chain t)) = unat (block_number (on_chain st)) + 1" by blast
  from Cons.IH [OF t(2)] t(3) Cons.prems(2) obtain u where
    "sessions_run quick (periodic_lib 1) (map (\<lambda>b. ([], b)) bs) t u" by auto
  with t(1) show ?case by auto
qed

section \<open>No block fails\<close>

text \<open>From every state block production reaches, any sequence of blocks with any authors, keys
  and extrinsics runs to the end, as long as the block number lasts: no hook and no call
  panics.\<close>

theorem production_never_fails:
  assumes "lawful_codec cfg" and "lawful_session_lib K L" and "node_reachable cfg L desired st"
    and "unat (block_number (on_chain st)) + length bs < 2 ^ 32"
  shows "\<exists>u. produce_all cfg L bs st = Some u \<and>
    unat (block_number (on_chain u)) = unat (block_number (on_chain st)) + length bs"
proof -
  have prod: "block_production cfg K L"
    using assms(1,2) by (rule block_production.intro)
  from block_production.produce_all_total [OF prod block_production.node_inv_reach [OF prod assms(3)] assms(4)]
  show ?thesis by blast
qed

theorem production_never_fails_witness:
  "\<exists>u. produce_all quick (periodic_lib 1) [block_at 2 [(2, LeaveCandidate)], block_at 9 []] node1 = Some u \<and>
     unat (block_number (on_chain u)) = 3"
proof -
  have n: "block_number (on_chain node1) = 1" by (simp add: node1_def)
  have "unat (block_number (on_chain node1)) + length [block_at 2 [(2, LeaveCandidate)], block_at 9 []] < 2 ^ 32"
    by (simp add: n)
  from production_never_fails [OF quick_codec periodic_lawful node1_reachable this] show ?thesis
    by (simp only: n) (simp add: numeral_3_eq_3)
qed

section \<open>Sessions\<close>

text \<open>The length of a session. From the block that ended one session to the block that ends
  the next there are exactly as many blocks as the period says: 1800 in the runtime, an hour
  at two seconds a block.\<close>

theorem session_lasts_period:
  assumes "lawful_codec cfg" and "lawful_session_lib K L" and "session_period K \<noteq> 0"
    and "node_reachable cfg L desired st" and "should_end L (block_number (on_chain st))"
    and "session_run cfg L bs b st u"
  shows "length (bs @ [b]) = unat (session_period K) \<and>
    unat (block_number (on_chain u)) = unat (block_number (on_chain st)) + unat (session_period K) \<and>
    should_end L (block_number (on_chain u))"
proof -
  have prod: "block_production cfg K L"
    using assms(1,2) by (rule block_production.intro)
  note inv = block_production.node_inv_reach [OF prod assms(4)]
  from assms(6) obtain t where t: "quiet_run cfg L bs st t" "closes L t" "produce cfg L b t = Some u"
    by (auto simp: session_run_def)
  note number = block_production.produce_number [OF prod block_production.quiet_run_inv [OF prod t(1) inv] t(3)]
  have room: "block_number (on_chain t) + 1 \<noteq> 0"
    using t(3) by (cases rule: produceE)
  have "block_number (on_chain u) = block_number (on_chain t) + 1"
    using number unat_next [OF room] by (simp add: word_unat_eq_iff [where ?'a = 32])
  with t(2) have "should_end L (block_number (on_chain u))" by (simp add: closes_def)
  moreover have "length bs + 1 = unat (session_period K)"
    using block_production.session_length [OF prod assms(5) t(1,2) room assms(3)] .
  ultimately show ?thesis
    using number quiet_run_keeps [OF t(1)] by simp
qed

theorem session_lasts_period_witness:
  "\<exists>b b' u. session_run quick (periodic_lib 2) [b] b' node0 u \<and> unat (block_number (on_chain u)) = 2"
proof -
  have inv0: "node_inv quick [1] node0" using node0_genesis by (rule quick.genesis_node_inv)
  have open0: "\<not> closes (periodic_lib 2) node0" "block_number (on_chain node0) + 1 \<noteq> 0"
    by (simp_all add: closes_def periodic_lib_def node0_def demo_simps)
  from quick.produce_total [OF inv0 open0(2)] obtain t where
    t: "produce quick (periodic_lib 2) (block_at 1 []) node0 = Some t" by blast
  have n: "block_number (on_chain t) = 1"
    using inside_keeps [OF t open0(1)] by (simp add: node0_def demo_simps)
  from quick.produce_total [OF quick.produce_inv [OF inv0 t]] n obtain u where
    u: "produce quick (periodic_lib 2) (block_at 2 []) t = Some u" by fastforce
  have "closes (periodic_lib 2) t" by (simp add: closes_def periodic_lib_def n)
  then have run: "session_run quick (periodic_lib 2) [block_at 1 []] (block_at 2 []) node0 u"
    using t u open0(1) by (auto simp: session_run_def quiet_Cons_iff)
  have "session_period (sessions_of 2) \<noteq> 0" "should_end (periodic_lib 2) (block_number (on_chain node0))"
    by (simp_all add: sessions_of_def periodic_lib_def node0_def demo_simps)
  from session_lasts_period [OF quick_codec periodic_lawful this(1) node0_reachable this(2) run]
  have "unat (block_number (on_chain u)) = 2"
    by (simp add: sessions_of_def node0_def demo_simps)
  with run show ?thesis by blast
qed

section \<open>Whoever does his work is not slashed\<close>

text \<open>C16: the author of at least one block of a session, the last one included, is not put
  offline when it ends: the bounded author list always has room for him, and his block is
  recorded before the boundary runs, because \<open>XodeStaking\<close> is declared before \<open>Session\<close>.\<close>

theorem authors_not_slashed:
  assumes "lawful_codec cfg" and "lawful_session_lib K L" and "node_reachable cfg L desired st"
    and "quiet_run cfg L bs st t" and "closes L t" and "begin_block cfg L b t = Some u"
    and "a \<in> set (authors_of L (validators (on_chain st)) (bs @ [b]))"
    and "\<forall>c\<in>set (proposed_candidates (on_chain t)). who c = a \<longrightarrow> \<not> offline c"
  shows "\<forall>d\<in>set (proposed_candidates (on_chain u)). who d = a \<longrightarrow> \<not> offline d"
proof -
  have prod: "block_production cfg K L"
    using assms(1,2) by (rule block_production.intro)
  note spares = block_production.session_spares_authors
    [OF prod block_production.node_inv_reach [OF prod assms(3)] assms(4-6)]
  show ?thesis using spares assms(7,8) by metis
qed

theorem authors_not_slashed_witness:
  "\<exists>u. begin_block quick (periodic_lib 1) (block_at 1 []) node4 = Some u \<and>
     \<not> list_ex (\<lambda>d. who d = 2 \<and> offline d) (proposed_candidates (on_chain u))"
proof -
  have room: "block_number (on_chain node4) + 1 \<noteq> 0" by (simp add: node4_def node_at_def)
  from quick.begin_block_total [OF quick.node_inv_reach [OF node4_reachable] room] obtain u where
    u: "begin_block quick (periodic_lib 1) (block_at 1 []) node4 = Some u" by blast
  have author: "2 \<in> set (authors_of (periodic_lib 1) (validators (on_chain node4)) ([] @ [block_at 1 []]))"
    by (simp add: node4_def node_at_def periodic_lib_def)
  have "\<forall>c\<in>set (proposed_candidates (on_chain node4)). who c = 2 \<longrightarrow> \<not> offline c"
    by (simp add: node4_def node_simps)
  from authors_not_slashed [OF quick_codec periodic_lawful node4_reachable quiet_Nil quick_closes u author this] u
  show ?thesis by (auto simp: list_ex_iff)
qed

text \<open>C17: a session without skipped slots slashes nobody. If the slots of its blocks are
  consecutive and it is at least as long as the validator set is large (in the runtime at most
  50 validators and 1800 blocks), every validator has his turn and no online candidate goes
  offline at the boundary.\<close>

theorem full_session_slashes_nobody:
  assumes "lawful_codec cfg" and "lawful_session_lib K L" and "session_period K \<noteq> 0"
    and "node_reachable cfg L desired st" and "should_end L (block_number (on_chain st))"
    and "length (validators (on_chain st)) \<le> unat (session_period K)"
    and "quiet_run cfg L bs st t" and "closes L t" and "begin_block cfg L b t = Some u"
    and "map (\<lambda>b. unat (slot b)) (bs @ [b]) = [k..<k + length (bs @ [b])]"
    and "\<forall>c\<in>set (proposed_candidates (on_chain t)). who c = a \<longrightarrow> \<not> offline c"
  shows "\<forall>d\<in>set (proposed_candidates (on_chain u)). who d = a \<longrightarrow> \<not> offline d"
proof -
  have prod: "block_production cfg K L"
    using assms(1,2) by (rule block_production.intro)
  note inv = block_production.node_inv_reach [OF prod assms(4)]
  have "block_number (on_chain t) + 1 \<noteq> 0"
    using block_production.begin_closing [OF prod assms(9,8)] by blast
  from block_production.session_length [OF prod assms(5,7,8) this assms(3)] assms(6)
  have long: "length (validators (on_chain st)) \<le> length (bs @ [b])" by simp
  have "unat (slot ((bs @ [b]) ! i)) = k + i" if "i < length (bs @ [b])" for i
    using arg_cong [OF assms(10), of "\<lambda>xs. xs ! i"] that by (simp del: upt_Suc map_append)
  note turn = block_production.every_validator_authors [OF prod _ long this]
  from block_production.session_spares_authors [OF prod inv assms(7-9)] turn assms(11)
  show ?thesis by metis
qed

theorem full_session_slashes_nobody_witness:
  "\<exists>u. begin_block quick (periodic_lib 1) (block_at 2 []) node1 = Some u \<and>
     \<not> list_ex (\<lambda>d. who d = 1 \<and> offline d) (proposed_candidates (on_chain u))"
proof -
  have start: "session_period (sessions_of 1) \<noteq> 0"
      "should_end (periodic_lib 1) (block_number (on_chain node1))"
      "length (validators (on_chain node1)) \<le> unat (session_period (sessions_of 1))"
    by (simp_all add: sessions_of_def periodic_lib_def node1_def)
  have "block_number (on_chain node1) + 1 \<noteq> 0" by (simp add: node1_def)
  from quick.begin_block_total [OF quick.node_inv_reach [OF node1_reachable] this] obtain u where
    u: "begin_block quick (periodic_lib 1) (block_at 2 []) node1 = Some u" by blast
  have slots: "map (\<lambda>b. unat (slot b)) ([] @ [block_at 2 []]) = [2..<2 + length ([] @ [block_at 2 []])]"
    by simp
  have "\<forall>c\<in>set (proposed_candidates (on_chain node1)). who c = 1 \<longrightarrow> \<not> offline c"
    by (simp add: node_simps)
  from full_session_slashes_nobody [OF quick_codec periodic_lawful start(1) node1_reachable start(2,3)
      quiet_Nil quick_closes u slots this] u
  show ?thesis by (auto simp: list_ex_iff)
qed

section \<open>From selection to production\<close>

text \<open>C12: who produces blocks. Whatever calls anybody makes meanwhile, the validators two
  session ends from now are exactly the accounts on the present waiting list that have session
  keys when the first of the two sessions ends.\<close>

theorem production_follows_selection:
  assumes "lawful_codec cfg" and "lawful_session_lib K L" and "node_reachable cfg L desired st"
    and "desired \<noteq> []"
    and "session_run cfg L bs b st u" and "session_run cfg L bs' b' u v"
  shows "validators (on_chain v) = filter (keyed b) (waiting_candidates (on_chain st))"
proof -
  have prod: "block_production cfg K L"
    using assms(1,2) by (rule block_production.intro)
  from prod block_production.node_inv_reach [OF prod assms(3)] assms(4-6) show ?thesis
    by (rule block_production.two_sessions)
qed

theorem production_follows_selection_witness:
  "\<exists>b u b' v. session_run quick (periodic_lib 1) [] b node4 u \<and>
     session_run quick (periodic_lib 1) [] b' u v \<and> validators (on_chain v) = [1, 2]"
proof -
  have "unat (block_number (on_chain node4)) < 100" by (simp add: node4_def node_at_def)
  from quick_two_sessions [OF quick.node_inv_reach [OF node4_reachable] this,
      of "block_at 5 [(2, OfflineCandidate)]" "block_at 6 []"]
  obtain u v where u: "session_run quick (periodic_lib 1) [] (block_at 5 [(2, OfflineCandidate)]) node4 u"
    and v: "session_run quick (periodic_lib 1) [] (block_at 6 []) u v" by blast
  have "[1 :: account_id] \<noteq> []" by simp
  from production_follows_selection [OF quick_codec periodic_lawful node4_reachable this u v]
  have "validators (on_chain v) = [1, 2]" by (simp add: node4_def node_at_def)
  with u v show ?thesis by blast
qed

text \<open>C11: an eligible candidate gets his turn. If the registry and the genesis validators fit
  the bound together, a candidate who is bonded, online and staying when a session ends, who
  authored in it, did not have to, or is still within the staling period, and who has session
  keys one session later, is a validator at the second session end after this one, whatever
  anybody calls meanwhile.\<close>

theorem eligible_candidate_produces:
  assumes "lawful_codec cfg" and "lawful_session_lib K L" and "node_reachable cfg L desired st"
    and "desired \<noteq> []"
    and "closes L st" and "produce cfg L b st = Some u"
    and "session_run cfg L bs' b' u v" and "session_run cfg L bs'' b'' v w"
    and "c \<in> set (proposed_candidates (on_chain st))" and "eligible c" and "keyed b' (who c)"
    and "length desired + length (proposed_candidates (on_chain st)) \<le> unat (max_candidates cfg)"
    and "who c \<notin> set (validators (on_chain st)) \<or> who c \<in> set (actual_authors (on_chain st)) \<or>
      author_at L (slot b) (validators (on_chain st)) = Some (who c) \<or> who c \<in> set desired \<or>
      unat (block_number (on_chain st)) + 1 \<le> unat (last_authored c) + unat (max_staling_period cfg)"
  shows "who c \<in> set (validators (on_chain w))"
proof -
  have prod: "block_production cfg K L"
    using assms(1,2) by (rule block_production.intro)
  note inv = block_production.node_inv_reach [OF prod assms(3)]
  have "who c \<in> set (waiting_candidates (on_chain u))"
    using prod inv assms(6,5,9,10,12,13) by (rule block_production.closing_waitlists)
  moreover have "validators (on_chain w) = filter (keyed b') (waiting_candidates (on_chain u))"
    using prod block_production.produce_inv [OF prod inv assms(6)] assms(4,7,8)
    by (rule block_production.two_sessions)
  ultimately show ?thesis using assms(11) by simp
qed

theorem eligible_candidate_produces_witness:
  "\<exists>u b' v b'' w. produce quick (periodic_lib 1) (block_at 2 []) node1 = Some u \<and>
     session_run quick (periodic_lib 1) [] b' u v \<and> session_run quick (periodic_lib 1) [] b'' v w \<and>
     2 \<in> set (validators (on_chain w))"
proof -
  let ?u = "node_at 2 [seat 1 2 Authoring, seat 2 1 Waiting] [1, 2] [1] [1] [1]"
  have u: "node_inv quick [1] ?u"
    using quick.produce_inv [OF quick.node_inv_reach [OF node1_reachable] produce2_4(1)] .
  have "unat (block_number (on_chain ?u)) < 100" by (simp add: node_at_def)
  from quick_two_sessions [OF u this, of "block_at 3 [(2, OfflineCandidate)]" "block_at 4 []"]
  obtain v w where v: "session_run quick (periodic_lib 1) [] (block_at 3 [(2, OfflineCandidate)]) ?u v"
    and w: "session_run quick (periodic_lib 1) [] (block_at 4 []) v w" by blast
  have "who (entry 2) \<in> set (validators (on_chain w))"
    by (rule eligible_candidate_produces [OF quick_codec periodic_lawful node1_reachable _
          quick_closes produce2_4(1) v w, of "entry 2"])
      (simp_all add: node_simps eligible_def)
  with produce2_4(1) v w show ?thesis by (auto simp: entry_def)
qed

text \<open>C8: a validator who stops working loses his seat. If a validator, not a genesis one, has
  authored nothing in a session and, when it ends, nothing for longer than the staling period,
  then he is no validator any more two session ends later, whatever anybody calls meanwhile.\<close>

theorem silent_validator_unseated:
  assumes "lawful_codec cfg" and "lawful_session_lib K L" and "node_reachable cfg L desired st"
    and "desired \<noteq> []" and "a \<in> set (validators (on_chain st))" and "a \<notin> set desired"
    and "actual_authors (on_chain st) = []"
    and "quiet_run cfg L bs st t" and "closes L t" and "produce cfg L b t = Some u"
    and "a \<notin> set (authors_of L (validators (on_chain st)) (bs @ [b]))"
    and "\<forall>c\<in>set (proposed_candidates (on_chain t)). who c = a \<longrightarrow>
      unat (last_authored c) + unat (max_staling_period cfg) < unat (block_number (on_chain t)) + 1"
    and "session_run cfg L bs' b' u v" and "session_run cfg L bs'' b'' v w"
  shows "a \<notin> set (waiting_candidates (on_chain u)) \<and> a \<notin> set (validators (on_chain w))"
proof -
  have prod: "block_production cfg K L"
    using assms(1,2) by (rule block_production.intro)
  note inv = block_production.node_inv_reach [OF prod assms(3)]
  note invt = block_production.quiet_run_inv [OF prod assms(8) inv]
  have vs: "validators (on_chain t) = validators (on_chain st)"
    using quiet_run_keeps [OF assms(8)] by simp
  have silent: "a \<notin> set (actual_authors (on_chain t))"
      "author_at L (slot b) (validators (on_chain t)) \<noteq> Some a"
    using block_production.quiet_run_only_authors [OF prod assms(8)] assms(7,11)
    by (auto simp: vs set_authors_of)
  have "a \<notin> set (waiting_candidates (on_chain u))"
    by (rule block_production.closing_drops_silent
        [OF prod invt assms(10,9) _ assms(6) silent assms(12) [rule_format]]) (simp add: vs assms(5))
  moreover have "validators (on_chain w) = filter (keyed b') (waiting_candidates (on_chain u))"
    using prod block_production.produce_inv [OF prod invt assms(10)] assms(4,13,14)
    by (rule block_production.two_sessions)
  ultimately show ?thesis by simp
qed

theorem silent_validator_unseated_witness:
  "\<exists>u v w. produce quick (periodic_lib 1) (block_at 0 []) node4 = Some u \<and>
     2 \<in> set (validators (on_chain node4)) \<and>
     session_run quick (periodic_lib 1) [] (block_at 7 [(2, OnlineCandidate)]) u v \<and>
     session_run quick (periodic_lib 1) [] (block_at 8 []) v w \<and> 2 \<notin> set (validators (on_chain w))"
proof -
  have n: "block_number (on_chain node4) = 4" by (simp add: node4_def node_at_def)
  note inv4 = quick.node_inv_reach [OF node4_reachable]
  from quick.produce_total [OF inv4] obtain u where
    u: "produce quick (periodic_lib 1) (block_at 0 []) node4 = Some u" by (auto simp: n)
  have nu: "unat (block_number (on_chain u)) = 5"
    using quick.produce_number [OF inv4 u] by (simp add: n)
  from quick_two_sessions [OF quick.produce_inv [OF inv4 u],
      of "block_at 7 [(2, OnlineCandidate)]" "block_at 8 []"] nu
  obtain v w where v: "session_run quick (periodic_lib 1) [] (block_at 7 [(2, OnlineCandidate)]) u v"
    and w: "session_run quick (periodic_lib 1) [] (block_at 8 []) v w" by auto
  have "2 \<notin> set (waiting_candidates (on_chain u)) \<and> 2 \<notin> set (validators (on_chain w))"
    by (rule silent_validator_unseated [OF quick_codec periodic_lawful node4_reachable _ _ _ _
          quiet_Nil quick_closes u _ _ v w])
      (simp_all add: node4_def node_simps periodic_lib_def)
  with u v w show ?thesis by (auto simp: node4_def node_at_def)
qed

section \<open>Accounts that stay idle\<close>

text \<open>C14: eviction. With at least one genesis validator, a candidate that is offline, leaving or
  unbonded, is no genesis validator and signs no staking call is, from the fourth session end
  on, out of the registry, the waiting list, the queued set, the queued keys and the
  validators, whatever step of the pipeline he was in and whatever others call in the blocks
  between. His bond is not given back: over a lawful currency his reserve is what it was, if no
  other pallet changes it, and a zero bond no longer releases it.\<close>

theorem dropped_candidate_evicted:
  assumes "lawful_codec cfg" and "lawful_session_lib K L" and "node_reachable cfg L desired st"
    and "desired \<noteq> []" and "a \<notin> set desired"
    and "\<forall>c\<in>set (proposed_candidates (on_chain st)). who c = a \<longrightarrow> dropping c"
    and "sessions_run cfg L ss st u" and "4 \<le> length ss"
    and "list_all (idle a) (session_blocks ss)"
  shows "find_candidate a (on_chain u) = None \<and> a \<notin> set (waiting_candidates (on_chain u)) \<and>
    a \<notin> set (invulnerables (on_chain u)) \<and> a \<notin> set (queued u) \<and> a \<notin> set (validators (on_chain u)) \<and>
    dispatch cfg (System (Signed a)) (BondCandidate 0) (on_chain u) =
      (Inl (PalletError CandidateNotFound), on_chain u) \<and>
    (reservable_currency (currency cfg) \<and> list_all (leaves_reserve cfg a) (session_blocks ss) \<longrightarrow>
       reserved_balance (currency cfg) (bank (on_chain u)) a =
       reserved_balance (currency cfg) (bank (on_chain st)) a)"
proof -
  have prod: "block_production cfg K L"
    using assms(1,2) by (rule block_production.intro)
  note inv = block_production.node_inv_reach [OF prod assms(3)]
  have "fading a UNIV (on_chain st)" using assms(6) by (simp add: fading_def)
  from block_production.four_sessions_gone [OF prod inv assms(4,5) this assms(7-9)]
  have gone: "find_candidate a (on_chain u) = None" "a \<notin> set (waiting_candidates (on_chain u))"
    "a \<notin> set (invulnerables (on_chain u))" "a \<notin> set (queued u)" "a \<notin> set (validators (on_chain u))"
    by (auto simp: gone_def fading_def find_candidate_None)
  moreover have "dispatch cfg (System (Signed a)) (BondCandidate 0) (on_chain u) =
      (Inl (PalletError CandidateNotFound), on_chain u)"
    using gone assms(1) by (simp add: dispatch_def with_storage_layer_def bond_candidate_def
        ensure_bond_allowed_def ensure_out_of_pipeline_def)
  moreover have "reserved_balance (currency cfg) (bank (on_chain u)) a =
      reserved_balance (currency cfg) (bank (on_chain st)) a"
    if "reservable_currency (currency cfg)" "list_all (leaves_reserve cfg a) (session_blocks ss)"
    using that block_production.sessions_reserved [OF prod staking_bank.intro assms(7) inv] assms(9)
    by (auto simp: list_all_iff)
  ultimately show ?thesis by blast
qed

definition node_r :: "ledger node_state" where
  "node_r = \<lparr>on_chain = genesis_1\<lparr>proposed_candidates := [e0 2], events := [CandidateRegistered 2]\<rparr>,
             queued = [1]\<rparr>"

lemma produce_r: "produce quick (periodic_lib 1) (block_at 1 [(2, RegisterCandidate)]) node0 = Some node_r"
proof -
  have "begin_block quick (periodic_lib 1) (block_at 1 [(2, RegisterCandidate)]) node0 =
      Some \<lparr>on_chain = genesis_1, queued = [1]\<rparr>"
    by (simp add: run_simps node0_def genesis_1_def demo_simps)
  moreover have "call_body quick (System (Signed 2)) RegisterCandidate genesis_1 = (Inr (), on_chain node_r)"
    by (simp add: register_candidate_def genesis_1_def e0_def node_r_def demo_simps deposit_event_def
        try_push_def Let_def)
  ultimately show ?thesis
    by (simp add: produce_def run_extrinsic.simps(1) dispatch_def with_storage_layer_def node_r_def)
qed

theorem dropped_candidate_evicted_witness:
  "\<exists>u. sessions_run quick (periodic_lib 1)
       (map (\<lambda>b. ([], b)) [block_at 2 [(1, RegisterCandidate)], block_at 3 [], block_at 4 [], block_at 5 []])
       node_r u \<and>
     find_candidate 2 (on_chain node_r) = Some (e0 2) \<and> find_candidate 2 (on_chain u) = None"
proof -
  let ?bs = "[block_at 2 [(1, RegisterCandidate)], block_at 3 [], block_at 4 [], block_at 5 []]"
  have reach: "node_reachable quick (periodic_lib 1) [1] node_r"
    using node0_reachable produce_r by (rule produce_node_reach)
  have "unat (block_number (on_chain node_r)) + length ?bs < 100"
    by (simp add: node_r_def genesis_1_def)
  from quick_sessions [OF quick.node_inv_reach [OF reach] this] obtain u where
    u: "sessions_run quick (periodic_lib 1) (map (\<lambda>b. ([], b)) ?bs) node_r u" by blast
  have "find_candidate 2 (on_chain u) = None"
    by (rule dropped_candidate_evicted [OF quick_codec periodic_lawful reach _ _ _ u, THEN conjunct1])
      (simp_all add: node_r_def genesis_1_def e0_def demo_simps dropping_def idle_def)
  with u show ?thesis by (auto simp: node_r_def find_candidate_def e0_def demo_simps)
qed

text \<open>C28: a seat without keys. Nothing in the pallet asks whether a candidate has session keys.
  With at least one genesis validator, take an eligible candidate who is neither a validator nor
  queued to become one, and let any number of sessions pass in whose blocks he has no session keys and signs no staking call. Then he is
  no validator and not queued, still bonded and online, never slashed for producing nothing;
  and at every one of these session ends at which the registry and the genesis validators fit
  the bound together he takes a place on the waiting list.\<close>

theorem keyless_candidate_keeps_seat:
  assumes "lawful_codec cfg" and "lawful_session_lib K L" and "node_reachable cfg L desired st"
    and "desired \<noteq> []"
    and "a \<notin> set (validators (on_chain st))" and "a \<notin> set (queued st)"
    and "c \<in> set (proposed_candidates (on_chain st))" and "who c = a" and "eligible c"
    and "sessions_run cfg L ss st s" and "quiet_run cfg L bs s t" and "closes L t"
    and "produce cfg L b t = Some u"
    and "list_all (\<lambda>b. idle a b \<and> \<not> keyed b a) (session_blocks ss @ bs @ [b])"
  shows "a \<notin> set (validators (on_chain u)) \<and> a \<notin> set (queued u) \<and>
    (\<exists>d\<in>set (proposed_candidates (on_chain u)). who d = a \<and> eligible d) \<and>
    (length desired + length (proposed_candidates (on_chain t)) \<le> unat (max_candidates cfg) \<longrightarrow>
       a \<in> set (waiting_candidates (on_chain u)))"
proof -
  have prod: "block_production cfg K L"
    using assms(1,2) by (rule block_production.intro)
  note inv = block_production.node_inv_reach [OF prod assms(3)]
  note seated_iff = seated_def
  have idle: "list_all (\<lambda>b. idle a b \<and> \<not> keyed b a) (session_blocks ss)" "list_all (idle a) bs"
    "idle a b" "\<not> keyed b a"
    using assms(14) by (simp_all add: list_all_iff)
  have "seated a st" using assms(5-9) by (auto simp: seated_iff)
  from block_production.sessions_seated [OF prod assms(4,10) inv idle(1) this]
  have "seated a t"
    by (rule block_production.quiet_run_seated [OF prod assms(11) idle(2)])
  note invt = block_production.quiet_run_inv [OF prod assms(11)
      block_production.sessions_run_inv [OF prod assms(10) inv]]
  have "seated a u"
    using block_production.closing_seated [OF prod invt assms(13,12,4) idle(3,4) \<open>seated a t\<close>] .
  moreover from \<open>seated a t\<close> obtain d where
    d: "d \<in> set (proposed_candidates (on_chain t))" "who d = a" "eligible d"
      "a \<notin> set (validators (on_chain t))"
    by (auto simp: seated_iff)
  from block_production.closing_waitlists [OF prod invt assms(13,12) d(1,3)] d(2,4)
  have "length desired + length (proposed_candidates (on_chain t)) \<le> unat (max_candidates cfg) \<longrightarrow>
      a \<in> set (waiting_candidates (on_chain u))"
    by simp
  ultimately show ?thesis by (simp add: seated_iff)
qed

definition keyless :: "ledger block \<Rightarrow> ledger block" where
  "keyless b = b\<lparr>keyed := (\<lambda>a. a = 1)\<rparr>"

theorem keyless_candidate_keeps_seat_witness:
  "\<exists>u. session_run quick (periodic_lib 1) [] (keyless (block_at 3 []))
       (node_at 2 [seat 1 2 Authoring, seat 2 1 Waiting] [1, 2] [1] [1] [1]) u \<and>
     2 \<in> set (waiting_candidates (on_chain u)) \<and> 2 \<notin> set (queued u)"
proof -
  let ?t = "node_at 2 [seat 1 2 Authoring, seat 2 1 Waiting] [1, 2] [1] [1] [1]"
  let ?b = "keyless (block_at 2 [])" and ?c = "keyless (block_at 3 [])"
  have p: "produce quick (periodic_lib 1) ?b node1 = Some ?t"
    by (simp add: run_simps node_simps keyless_def)
  then have run: "sessions_run quick (periodic_lib 1) [([], ?b)] node1 ?t"
    by (simp add: session_run_def)
  have "block_number (on_chain ?t) + 1 \<noteq> 0" by (simp add: node_at_def)
  from quick.produce_total [OF quick.node_inv_reach [OF produce_node_reach [OF node1_reachable p]] this, of 1 ?c]
  obtain u where u: "produce quick (periodic_lib 1) ?c ?t = Some u" by blast
  have idle: "list_all (\<lambda>b. idle 2 b \<and> \<not> keyed b 2) (session_blocks [([], ?b)] @ [] @ [?c])"
    by (simp add: idle_def keyless_def)
  have "2 \<notin> set (validators (on_chain node1))" "2 \<notin> set (queued node1)"
    "entry 2 \<in> set (proposed_candidates (on_chain node1))" "who (entry 2) = 2" "eligible (entry 2)"
    by (simp_all add: node_simps eligible_def)
  from keyless_candidate_keeps_seat [OF quick_codec periodic_lawful node1_reachable _ this run
      quiet_Nil quick_closes u idle]
  have "2 \<notin> set (queued u) \<and> 2 \<in> set (waiting_candidates (on_chain u))"
    by (simp add: node_at_def)
  with u show ?thesis by (auto simp: session_run_def)
qed

end
