(* ===== verification/Weights.thy ===== *)
theory Weights
  imports Staking_Calls Staking_Session Freezer
begin

text \<open>
  The declared weights of the dispatchables (\<open>weights.rs\<close> of both pallets):
  \<open>SubstrateWeight\<close>, which the runtime configures, and the implementation for \<open>()\<close>. The
  weight algebra and the database costs are library code: a parameter, of which the lemmas
  use only that addition is what the code applies.
\<close>

record 'w weight_ops =
  from_parts :: "u64 \<Rightarrow> u64 \<Rightarrow> 'w"
  saturating_add :: "'w \<Rightarrow> 'w \<Rightarrow> 'w"

record 'w db_weight =
  db_reads :: "u64 \<Rightarrow> 'w"
  db_writes :: "u64 \<Rightarrow> 'w"

text \<open>The shape every weight of the two files has.\<close>

definition with_db :: "'w weight_ops \<Rightarrow> 'w db_weight \<Rightarrow> u64 \<Rightarrow> u64 \<Rightarrow> u64 \<Rightarrow> 'w" where
  "with_db W D ref_time r w =
     saturating_add W (saturating_add W (from_parts W ref_time 3593) (db_reads D r)) (db_writes D w)"

text \<open>\<open>SubstrateWeight<T>\<close> of the staking pallet, with \<open>T::DbWeight\<close> as \<open>D\<close>.\<close>

fun staking_weight :: "'w weight_ops \<Rightarrow> 'w db_weight \<Rightarrow> staking_call \<Rightarrow> 'w" where
  "staking_weight W D RegisterCandidate = with_db W D 20000000 1 1"
| "staking_weight W D (BondCandidate _) = with_db W D 30000000 1 1"
| "staking_weight W D (SetCommissionOfCandidate _) = with_db W D 20000000 1 1"
| "staking_weight W D (StakeCandidate _ _) = with_db W D 35000000 2 2"
| "staking_weight W D (UnstakeCandidate _) = with_db W D 35000000 2 2"
| "staking_weight W D OfflineCandidate = with_db W D 20000000 1 1"
| "staking_weight W D OnlineCandidate = with_db W D 20000000 1 1"
| "staking_weight W D LeaveCandidate = with_db W D 25000000 2 2"
| "staking_weight W D (BondCorrection _) = with_db W D 25000000 2 2"

text \<open>The implementation for \<open>()\<close>, with \<open>RocksDbWeight\<close> as \<open>D\<close>.\<close>

fun staking_unit_weight :: "'w weight_ops \<Rightarrow> 'w db_weight \<Rightarrow> staking_call \<Rightarrow> 'w" where
  "staking_unit_weight W D RegisterCandidate = with_db W D 20000000 1 1"
| "staking_unit_weight W D (BondCandidate _) = with_db W D 30000000 1 1"
| "staking_unit_weight W D (SetCommissionOfCandidate _) = with_db W D 20000000 1 1"
| "staking_unit_weight W D (StakeCandidate _ _) = with_db W D 35000000 2 2"
| "staking_unit_weight W D (UnstakeCandidate _) = with_db W D 35000000 2 2"
| "staking_unit_weight W D OfflineCandidate = with_db W D 20000000 1 1"
| "staking_unit_weight W D OnlineCandidate = with_db W D 20000000 1 1"
| "staking_unit_weight W D LeaveCandidate = with_db W D 25000000 2 2"
| "staking_unit_weight W D (BondCorrection _) = with_db W D 25000000 2 2"

fun freezer_weight :: "'w weight_ops \<Rightarrow> 'w db_weight \<Rightarrow> ('a, 'b) freezer_call \<Rightarrow> 'w" where
  "freezer_weight W D (FreezeAccount _) = with_db W D 10000000 1 1"
| "freezer_weight W D (FreezeAmount _ _) = with_db W D 10000000 1 1"
| "freezer_weight W D (ThawAccount _) = with_db W D 10000000 1 1"
| "freezer_weight W D (ThawAmount _ _) = with_db W D 10000000 1 1"

fun freezer_unit_weight :: "'w weight_ops \<Rightarrow> ('a, 'b) freezer_call \<Rightarrow> 'w" where
  "freezer_unit_weight W (FreezeAccount _) = from_parts W 10000000 0"
| "freezer_unit_weight W (FreezeAmount _ _) = from_parts W 10000000 0"
| "freezer_unit_weight W (ThawAccount _) = from_parts W 10000000 0"
| "freezer_unit_weight W (ThawAmount _ _) = from_parts W 10000000 0"

text \<open>On the database the runtime runs on, the staking pallet's two implementations agree.\<close>

lemma staking_weights_agree: "staking_unit_weight W D c = staking_weight W D c"
  by (cases c) simp_all

text \<open>A call's weight does not depend on its arguments, only on its index.\<close>

lemma weight_by_index:
  "call_index c = call_index c' \<Longrightarrow> staking_weight W D c = staking_weight W D c'"
  by (cases c; cases c') simp_all

text \<open>The weight \<open>on_initialize\<close> returns, whether or not the block has an author:
  \<open>T::DbWeight::get().reads_writes(2, 2)\<close>, the sum of the two costs.\<close>

definition on_initialize_weight :: "'w weight_ops \<Rightarrow> 'w db_weight \<Rightarrow> 'w" where
  "on_initialize_weight W D = saturating_add W (db_reads D 2) (db_writes D 2)"

section \<open>Counting declared writes\<close>

text \<open>The weight functions read in the algebra that counts database writes and nothing else.\<close>

definition count_ops :: "nat weight_ops" where
  "count_ops = \<lparr>from_parts = (\<lambda>_ _. 0), saturating_add = (+)\<rparr>"

definition count_writes :: "nat db_weight" where
  "count_writes = \<lparr>db_reads = (\<lambda>_. 0), db_writes = unat\<rparr>"

lemma with_db_count [simp]: "with_db count_ops count_writes t r w = unat w"
  by (simp add: with_db_def count_ops_def count_writes_def)

definition declared_writes :: "staking_call \<Rightarrow> nat" where
  "declared_writes c = staking_weight count_ops count_writes c"

text \<open>The storage items of the pallet, and the bank account of a caller. Events are not
  counted, as FRAME does not count them.\<close>

datatype storage_item =
    ProposedCandidates | WaitingCandidates | Invulnerables | DesiredCandidates | ActualAuthors
  | Delegations account_id | BankAccount account_id

fun differs :: "'c staking_config \<Rightarrow> 'c chain \<Rightarrow> 'c chain \<Rightarrow> storage_item \<Rightarrow> bool" where
  "differs cfg s t ProposedCandidates \<longleftrightarrow> proposed_candidates s \<noteq> proposed_candidates t"
| "differs cfg s t WaitingCandidates \<longleftrightarrow> waiting_candidates s \<noteq> waiting_candidates t"
| "differs cfg s t Invulnerables \<longleftrightarrow> invulnerables s \<noteq> invulnerables t"
| "differs cfg s t DesiredCandidates \<longleftrightarrow> desired_candidates s \<noteq> desired_candidates t"
| "differs cfg s t ActualAuthors \<longleftrightarrow> actual_authors s \<noteq> actual_authors t"
| "differs cfg s t (Delegations c) \<longleftrightarrow> delegations s c \<noteq> delegations t c"
| "differs cfg s t (BankAccount a) \<longleftrightarrow>
     free_balance (currency cfg) (bank s) a \<noteq> free_balance (currency cfg) (bank t) a \<or>
     reserved_balance (currency cfg) (bank s) a \<noteq> reserved_balance (currency cfg) (bank t) a"

definition changed_items :: "'c staking_config \<Rightarrow> 'c chain \<Rightarrow> 'c chain \<Rightarrow> storage_item set" where
  "changed_items cfg s t = {item. differs cfg s t item}"

text \<open>What a call may change: the registry, the delegations of the candidate it names, the
  caller's own account.\<close>

fun footprint :: "account_id \<Rightarrow> staking_call \<Rightarrow> storage_item set" where
  "footprint a (BondCandidate _) = {ProposedCandidates, BankAccount a}"
| "footprint a (StakeCandidate c _) = {ProposedCandidates, Delegations c, BankAccount a}"
| "footprint a (UnstakeCandidate c) = {ProposedCandidates, Delegations c, BankAccount a}"
| "footprint a (BondCorrection _) = {ProposedCandidates, BankAccount a}"
| "footprint a _ = {ProposedCandidates}"

lemma changed_subset: "(\<And>item. differs cfg s t item \<Longrightarrow> item \<in> A) \<Longrightarrow> changed_items cfg s t \<subseteq> A"
  by (auto simp: changed_items_def)

context staking_bank
begin

lemma adjust_reserve_frame:
  assumes "adjust_reserve cfg a old new m = Inr m'"
  shows "\<forall>b. b \<noteq> a \<longrightarrow> free_balance (currency cfg) m' b = free_balance (currency cfg) m b \<and>
    reserved_balance (currency cfg) m' b = reserved_balance (currency cfg) m b"
  using assms reserve_frame unreserve_frame
  by (auto simp: adjust_reserve_def Let_def split: if_splits sum.splits)

lemma reserve_touches:
  "reserve (currency cfg) m a v = Inr m' \<Longrightarrow>
   free_balance (currency cfg) m b \<noteq> free_balance (currency cfg) m' b \<Longrightarrow> b = a"
  "reserve (currency cfg) m a v = Inr m' \<Longrightarrow>
   reserved_balance (currency cfg) m b \<noteq> reserved_balance (currency cfg) m' b \<Longrightarrow> b = a"
  using reserve_frame [of m a v m' b] by auto

lemma unreserve_touches [dest!]:
  "free_balance (currency cfg) m b \<noteq> free_balance (currency cfg) (snd (unreserve (currency cfg) m a v)) b \<Longrightarrow> b = a"
  "reserved_balance (currency cfg) m b \<noteq> reserved_balance (currency cfg) (snd (unreserve (currency cfg) m a v)) b \<Longrightarrow> b = a"
  using unreserve_frame [of b a m v] by auto

lemma call_footprint:
  assumes "call_body cfg org call s = (Inr u, t)"
  shows "\<exists>a. org = System (Signed a) \<and> changed_items cfg s t \<subseteq> footprint a call"
proof -
  show ?thesis
  proof (cases call)
    case RegisterCandidate
    with assms have "register_candidate cfg org s = (Inr u, t)" by simp
    from register_candidate_ok [OF this] RegisterCandidate show ?thesis
      by (auto intro!: changed_subset elim: differs.elims)
  next
    case (BondCandidate b)
    with assms have "bond_candidate cfg org b s = (Inr u, t)" by simp
    from bond_candidate_ok [OF this] obtain a and c :: candidate_info and m where adj:
      "adjust_reserve cfg a (bond c) b (bank s) = Inr m" and org: "org = System (Signed a)"
      and t: "t = deposit_event (CandidateBonded a b) (sort_proposed_candidates
        (modify_candidate a (\<lambda>c. c\<lparr>bond := b, last_updated := block_number s\<rparr>) (s\<lparr>bank := m\<rparr>)))"
      by blast
    from adjust_reserve_frame [OF adj] org BondCandidate show ?thesis
      by (auto simp: t intro!: changed_subset elim!: differs.elims)
  next
    case (StakeCandidate cand amount)
    with assms have "stake_candidate cfg org cand amount s = (Inr u, t)" by simp
    from stake_candidate_ok [OF this] obtain a m ds where
      res: "reserve (currency cfg) (bank s) a amount = Inr m" and org: "org = System (Signed a)"
      and t: "t = deposit_event (DelegationAdded a cand amount) (sort_proposed_candidates
        (modify_candidate cand (\<lambda>c. c\<lparr>total_stake := total_of (Some ds), last_updated := block_number s\<rparr>)
          (s\<lparr>bank := m, delegations := (delegations s)(cand := Some ds)\<rparr>)))"
      by blast
    from reserve_touches [OF res] org StakeCandidate show ?thesis
      by (auto simp: t intro!: changed_subset elim!: differs.elims split: if_splits)
  next
    case (UnstakeCandidate cand)
    with assms have "unstake_candidate cfg org cand s = (Inr u, t)" by simp
    from unstake_candidate_ok [OF this] UnstakeCandidate show ?thesis
      by (auto intro!: changed_subset elim!: differs.elims split: if_splits)
  next
    case (BondCorrection b)
    with assms have "bond_correction cfg org b s = (Inr u, t)" by simp
    from bond_correction_ok [OF this] BondCorrection show ?thesis
      by (auto intro!: changed_subset elim!: differs.elims)
  qed (use assms in \<open>auto dest!: set_commission_ok offline_candidate_ok online_candidate_ok
        leave_candidate_ok intro!: changed_subset elim!: differs.elims\<close>)
qed

end

lemma footprint_writes:
  "finite (footprint a call) \<and> card (footprint a call) \<le> declared_writes call +
    (if call \<in> range BondCandidate \<union> range (\<lambda>(c, v). StakeCandidate c v) \<union> range UnstakeCandidate
     then 1 else 0)"
  by (cases call) (auto simp: declared_writes_def card_insert_if)

section \<open>Properties\<close>

text \<open>C24: what a call may write, and how much of it its weight declares. A successful call of a
  signed account changes at most the registry, the delegations of the one candidate it
  names and the caller's own bank account; that is at most the number of writes its weight
  declares, and one more for \<open>bond_candidate\<close>, \<open>stake_candidate\<close> and
  \<open>unstake_candidate\<close>, which do not declare the write of the caller's account.\<close>

theorem calls_write_within_weight:
  assumes "reservable_currency (currency cfg)" and "call_body cfg org call s = (Inr u, t)"
  shows "(\<exists>a. org = System (Signed a) \<and> changed_items cfg s t \<subseteq> footprint a call) \<and>
    card (changed_items cfg s t) \<le> declared_writes call +
      (if call \<in> range BondCandidate \<union> range (\<lambda>(c, v). StakeCandidate c v) \<union> range UnstakeCandidate
       then 1 else 0)"
proof -
  have "staking_bank cfg" using assms(1) by (rule staking_bank.intro)
  from staking_bank.call_footprint [OF this assms(2)] obtain a where
    a: "org = System (Signed a)" "changed_items cfg s t \<subseteq> footprint a call" by blast
  with footprint_writes [of a call] card_mono [of "footprint a call" "changed_items cfg s t"]
  show ?thesis by fastforce
qed

theorem calls_write_within_weight_witness:
  "\<exists>t. call_body demo_config (System (Signed 2)) (BondCandidate 200000000000000)
      (demo_chain [1] [demo_candidate 2 0]) = (Inr (), t) \<and>
    card (changed_items demo_config (demo_chain [1] [demo_candidate 2 0]) t) \<le> 2 \<and>
    declared_writes (BondCandidate 200000000000000) = 1 \<and>
    {ProposedCandidates, BankAccount 2} \<subseteq>
      changed_items demo_config (demo_chain [1] [demo_candidate 2 0]) t"
proof -
  obtain t where t: "call_body demo_config (System (Signed 2)) (BondCandidate 200000000000000)
      (demo_chain [1] [demo_candidate 2 0]) = (Inr (), t)"
    "{ProposedCandidates, BankAccount 2} \<subseteq>
      changed_items demo_config (demo_chain [1] [demo_candidate 2 0]) t"
    by (auto simp: bond_candidate_def ensure_bond_allowed_def find_candidate_def adjust_reserve_def
        ledger_reserve_def sat_sub_def changed_items_def demo_simps)
  from calls_write_within_weight [OF ledger.reservable_currency_axioms [folded demo_config_sel(1)] t(1)] t
  show ?thesis by (auto simp: declared_writes_def)
qed

text \<open>The hook declares two reads and two writes, and changes at most two items.\<close>

lemma on_initialize_within_weight:
  "changed_items cfg s (on_initialize cfg author s) \<subseteq> {ProposedCandidates, ActualAuthors} \<and>
   on_initialize_weight count_ops count_writes = 2"
proof
  show "changed_items cfg s (on_initialize cfg author s) \<subseteq> {ProposedCandidates, ActualAuthors}"
    by (auto simp: on_initialize_def add_actual_author_def record_authored_block_def
        intro!: changed_subset elim!: differs.elims split: option.splits if_splits)
  show "on_initialize_weight count_ops count_writes = 2"
    by (simp add: on_initialize_weight_def count_ops_def count_writes_def)
qed

end
