(* ===== verification/Runtime_Calls.thy ===== *)
theory Runtime_Calls
  imports Staking_Solvency Governance
begin

text \<open>
  The two pallets of the repository together, over the one bank the runtime configures for
  both (\<open>StakingCurrency = Balances\<close> and \<open>Currency = Balances\<close> in
  \<open>runtime/src/configs/mod.rs\<close>), called through \<open>RuntimeCall\<close> (\<open>runtime/src/lib.rs\<close>).
  The locale \<open>runtime_currency\<close> joins the contracts of the two pallets and adds how the
  two views of the bank relate. Every step of the joint runtime is a step of each pallet,
  so the invariants of both hold together.
\<close>

section \<open>One bank behind both pallets\<close>

text \<open>
  The documented relation of reserving and freezing in \<open>pallet_balances\<close>: the two move
  different fields of an account, and a reserve of a positive amount leaves at least the
  frozen amount free (\<open>LiquidityRestrictions\<close> otherwise).
\<close>

locale runtime_currency = reservable_currency C + freezable_currency F
  for C :: "'c currency_ops" and F :: "('c, 'i) runtime_freezes" +
  assumes reserve_keeps_frozen: "reserve C m a v = Inr m' \<Longrightarrow>
      balance_frozen F m' i b = balance_frozen F m i b"
    and unreserve_keeps_frozen: "balance_frozen F (snd (unreserve C m a v)) i b = balance_frozen F m i b"
    and set_freeze_keeps_pots: "set_freeze F m i a v = Inr m' \<Longrightarrow>
      free_balance C m' b = free_balance C m b \<and> reserved_balance C m' b = reserved_balance C m b"
    and thaw_keeps_pots: "thaw F m i a = Inr m' \<Longrightarrow>
      free_balance C m' b = free_balance C m b \<and> reserved_balance C m' b = reserved_balance C m b"
    and reserve_leaves_frozen: "reserve C m a v = Inr m' \<Longrightarrow> v \<noteq> 0 \<Longrightarrow>
      balance_frozen F m i a \<le> free_balance C m' a"
begin

text \<open>An account with everything frozen cannot reserve anything.\<close>

lemma fully_frozen_reserve:
  assumes "reserve C m a v = Inr m'" "balance_frozen F m i a = - 1"
  shows "v = 0"
proof (rule ccontr)
  assume "v \<noteq> 0"
  then have "- 1 \<le> free_balance C m a - v"
    using reserve_leaves_frozen [OF assms(1), of i] assms(2) reserve_free [OF assms(1)] by simp
  then have "free_balance C m a - v = - 1"
    by (simp add: word_order.extremum_unique)
  moreover have "unat (free_balance C m a - v) = unat (free_balance C m a) - unat v"
    using reserve_covered [OF assms(1)] by (simp add: unat_sub word_le_nat_alt)
  ultimately have "2 ^ 128 - 1 = unat (free_balance C m a) - unat v"
    using unat_max_word [where ?'a = 128] by simp
  moreover have "unat v \<noteq> 0"
    using \<open>v \<noteq> 0\<close> by (simp add: unat_eq_zero)
  ultimately show False
    using unsigned_less [of "free_balance C m a", where ?'a = nat] by simp
qed

end

section \<open>A concrete bank with both views\<close>

record vault = ledger +
  v_frozen :: "freeze_reason \<Rightarrow> account_id \<Rightarrow> balance"

definition vault_reserve :: "vault \<Rightarrow> account_id \<Rightarrow> balance \<Rightarrow> nat + vault" where
  "vault_reserve m a v =
     (if v = 0 then Inr m
      else if l_free m a < v then Inl 0
      else if l_reserved m a + v < l_reserved m a then Inl 1
      else if l_free m a - v < v_frozen m AccountFrozen a then Inl 2
      else Inr (m\<lparr>l_free := (l_free m)(a := l_free m a - v),
                  l_reserved := (l_reserved m)(a := l_reserved m a + v)\<rparr>))"

definition vault_unreserve :: "vault \<Rightarrow> account_id \<Rightarrow> balance \<Rightarrow> balance \<times> vault" where
  "vault_unreserve m a v =
     (let moved = min v (l_reserved m a) in
      (v - moved,
       m\<lparr>l_free := (l_free m)(a := sat_add (l_free m a) moved),
         l_reserved := (l_reserved m)(a := l_reserved m a - moved)\<rparr>))"

definition vault_ops :: "vault currency_ops" where
  "vault_ops = \<lparr>free_balance = l_free, reserved_balance = l_reserved,
                reserve = vault_reserve, unreserve = vault_unreserve\<rparr>"

definition vault_freezes :: "(vault, freeze_reason) runtime_freezes" where
  "vault_freezes =
     \<lparr>balance_frozen = v_frozen,
      set_freeze = (\<lambda>m i a v. Inr (m\<lparr>v_frozen := (v_frozen m)(i := (v_frozen m i)(a := v))\<rparr>)),
      thaw = (\<lambda>m i a. Inr (m\<lparr>v_frozen := (v_frozen m)(i := (v_frozen m i)(a := 0))\<rparr>))\<rparr>"

lemma vault_sel [simp]:
  "free_balance vault_ops = l_free" "reserved_balance vault_ops = l_reserved"
  "reserve vault_ops = vault_reserve" "unreserve vault_ops = vault_unreserve"
  "balance_frozen vault_freezes = v_frozen"
  "set_freeze vault_freezes m i a v = Inr (m\<lparr>v_frozen := (v_frozen m)(i := (v_frozen m i)(a := v))\<rparr>)"
  "thaw vault_freezes m i a = Inr (m\<lparr>v_frozen := (v_frozen m)(i := (v_frozen m i)(a := 0))\<rparr>)"
  by (simp_all add: vault_ops_def vault_freezes_def)

lemma vault_reserve_ok:
  assumes "vault_reserve m a v = Inr m'"
  shows "v \<le> l_free m a \<and> unat (l_reserved m a + v) = unat (l_reserved m a) + unat v \<and>
    (v = 0 \<or> v_frozen m AccountFrozen a \<le> l_free m a - v) \<and>
    m' = m\<lparr>l_free := (l_free m)(a := l_free m a - v),
           l_reserved := (l_reserved m)(a := l_reserved m a + v)\<rparr>"
proof (cases "v = 0")
  case True
  with assms show ?thesis by (simp add: vault_reserve_def)
next
  case False
  with assms have "\<not> l_reserved m a + v < l_reserved m a"
    by (auto simp: vault_reserve_def split: if_splits)
  then have "unat (l_reserved m a + v) = unat (l_reserved m a) + unat v"
    by (simp add: add_overflow_iff unat_add_lem [symmetric] not_le)
  with False assms show ?thesis
    by (auto simp: vault_reserve_def split: if_splits)
qed

interpretation vault: runtime_currency vault_ops vault_freezes
proof unfold_locales
  fix m m' :: vault and a b :: account_id and v i
  assume "reserve vault_ops m a v = Inr m'"
  note r = vault_reserve_ok [OF this [simplified]]
  from r show "v \<le> free_balance vault_ops m a"
    and "free_balance vault_ops m' a = free_balance vault_ops m a - v"
    and "unat (reserved_balance vault_ops m' a) = unat (reserved_balance vault_ops m a) + unat v"
    and "b \<noteq> a \<Longrightarrow> free_balance vault_ops m' b = free_balance vault_ops m b \<and>
         reserved_balance vault_ops m' b = reserved_balance vault_ops m b"
    and "balance_frozen vault_freezes m' i b = balance_frozen vault_freezes m i b"
    and "v \<noteq> 0 \<Longrightarrow> balance_frozen vault_freezes m i a \<le> free_balance vault_ops m' a"
    by (auto, cases i, simp)
qed (auto simp: vault_unreserve_def Let_def sat_sub_def min_def)

section \<open>The runtime call\<close>

datatype runtime_call = XodeStakingCall staking_call | AccountFreezerCall runtime_freezer_call

text \<open>The two bytes a call is encoded with: the pallet's index in \<open>mod runtime\<close> and the
  call's index in the pallet.\<close>

fun runtime_call_index :: "runtime_call \<Rightarrow> nat \<times> nat" where
  "runtime_call_index (XodeStakingCall c) = (15, call_index c)"
| "runtime_call_index (AccountFreezerCall c) = (18, freezer_call_index c)"

datatype module_error = XodeStakingError staking_error | AccountFreezerError freezer_error

text \<open>The storage of the two pallets; the bank is the one of the staking chain.\<close>

record 'c runtime_storage =
  staking_part :: "'c chain"
  listed :: "account_id \<Rightarrow> unit option"
  freezing_events :: "(account_id, balance) freezer_event list"

definition freezer_part :: "'c runtime_storage \<Rightarrow> 'c runtime_freezer" where
  "freezer_part rs = \<lparr>frozen_map = listed rs, freezer_bank = bank (staking_part rs),
                      freezer_events = freezing_events rs\<rparr>"

definition put_freezer :: "'c runtime_freezer \<Rightarrow> 'c runtime_storage \<Rightarrow> 'c runtime_storage" where
  "put_freezer f rs =
     rs\<lparr>staking_part := (staking_part rs)\<lparr>bank := freezer_bank f\<rparr>, listed := frozen_map f,
        freezing_events := freezer_events f\<rparr>"

type_synonym 'c runtime_result = "(module_error dispatch_error, unit, 'c runtime_storage) outcome"

fun runtime_dispatch ::
    "'c staking_config \<Rightarrow> ('c, 'i) runtime_freezer_config \<Rightarrow> origin \<Rightarrow> runtime_call \<Rightarrow> 'c runtime_storage \<Rightarrow>
     'c runtime_result" where
  "runtime_dispatch cfg F org (XodeStakingCall c) rs =
     (case dispatch cfg org c (staking_part rs) of
        (r, t) \<Rightarrow> (map_sum (map_dispatch_error XodeStakingError) id r, rs\<lparr>staking_part := t\<rparr>))"
| "runtime_dispatch cfg F org (AccountFreezerCall c) rs =
     (case freezer_dispatch F org c (freezer_part rs) of
        (r, f) \<Rightarrow> (map_sum (map_dispatch_error AccountFreezerError) id r, put_freezer f rs))"

lemma runtime_storage_sel [simp]:
  "frozen_map (freezer_part rs) = listed rs"
  "freezer_bank (freezer_part rs) = bank (staking_part rs)"
  "freezer_events (freezer_part rs) = freezing_events rs"
  "freezer_part (put_freezer f rs) = f"
  "staking_part (put_freezer f rs) = (staking_part rs)\<lparr>bank := freezer_bank f\<rparr>"
  by (simp_all add: freezer_part_def put_freezer_def)

lemma freezer_part_staking [simp]:
  "freezer_part (rs\<lparr>staking_part := t\<rparr>) = (freezer_part rs)\<lparr>freezer_bank := bank t\<rparr>"
  by (simp add: freezer_part_def)

lemma map_sum_Inr [simp]: "map_sum f id r = Inr u \<longleftrightarrow> r = Inr u"
  by (cases r) simp_all

section \<open>Steps of the joint runtime\<close>

datatype 'c runtime_action =
    RuntimeExtrinsic origin runtime_call
  | Hook "'c action"
  | OtherPallets 'c

text \<open>Hooks are the steps of \<open>hook_action\<close>. Other pallets may move money, but the freezes under
  this pallet's reason are its own.\<close>

inductive runtime_step ::
    "'c staking_config \<Rightarrow> ('c, 'i) runtime_freezer_config \<Rightarrow> 'c runtime_action \<Rightarrow> 'c runtime_storage \<Rightarrow>
     'c runtime_storage \<Rightarrow> bool"
  for cfg :: "'c staking_config" and F :: "('c, 'i) runtime_freezer_config" where
  runtime_extrinsic: "runtime_dispatch cfg F org call rs = (r, rt) \<Longrightarrow>
    runtime_step cfg F (RuntimeExtrinsic org call) rs rt"
| runtime_hook: "hook_action act \<Longrightarrow> chain_step cfg act (staking_part rs) t \<Longrightarrow>
    runtime_step cfg F (Hook act) rs (rs\<lparr>staking_part := t\<rparr>)"
| runtime_others: "(\<And>a. balance_frozen (freeze_currency F) m (runtime_reason F AccountFrozen) a =
      balance_frozen (freeze_currency F) (bank (staking_part rs)) (runtime_reason F AccountFrozen) a) \<Longrightarrow>
    runtime_step cfg F (OtherPallets m) rs (rs\<lparr>staking_part := (staking_part rs)\<lparr>bank := m\<rparr>\<rparr>)"

text \<open>The steps under which the staking pallet's books stay backed: see \<open>admissible\<close>.\<close>

fun lawful_action :: "'c staking_config \<Rightarrow> 'c runtime_storage \<Rightarrow> 'c runtime_action \<Rightarrow> bool" where
  "lawful_action cfg rs (RuntimeExtrinsic org (XodeStakingCall c)) =
     admissible cfg (staking_part rs) (Extrinsic org c)"
| "lawful_action cfg rs (RuntimeExtrinsic org (AccountFreezerCall c)) = True"
| "lawful_action cfg rs (Hook act) = True"
| "lawful_action cfg rs (OtherPallets m) = admissible cfg (staking_part rs) (MoveMoney m)"

definition lawful_step ::
    "'c staking_config \<Rightarrow> ('c, 'i) runtime_freezer_config \<Rightarrow> 'c runtime_storage \<Rightarrow> 'c runtime_storage \<Rightarrow> bool" where
  "lawful_step cfg F rs rt \<longleftrightarrow> (\<exists>act. runtime_step cfg F act rs rt \<and> lawful_action cfg rs act)"

definition runtime_genesis ::
    "'c staking_config \<Rightarrow> ('c, 'i) runtime_freezer_config \<Rightarrow> account_id list \<Rightarrow> 'c runtime_storage \<Rightarrow> bool" where
  "runtime_genesis cfg F desired rs \<longleftrightarrow>
     at_genesis cfg desired (staking_part rs) \<and> freezer_genesis F (freezer_part rs)"

section \<open>Each step is a step of each pallet\<close>

locale joint_runtime =
  fixes cfg :: "'c staking_config" and F :: "('c, 'i) runtime_freezer_config"
  assumes bank_laws: "runtime_currency (currency cfg) (freeze_currency F)"

sublocale joint_runtime \<subseteq> runtime_currency "currency cfg" "freeze_currency F"
  by (rule bank_laws)

sublocale joint_runtime \<subseteq> staking_bank cfg
  by (rule staking_bank.intro) (rule reservable_currency_axioms)

sublocale joint_runtime \<subseteq> freezer_backend F
  by (rule freezer_backend.intro) (rule freezable_currency_axioms)

lemma freezer_bank_moves:
  assumes "freezer_body F org call s = (Inr u, t)"
  shows "(\<exists>i a v. set_freeze (freeze_currency F) (freezer_bank s) i a v = Inr (freezer_bank t)) \<or>
    (\<exists>i a. thaw (freeze_currency F) (freezer_bank s) i a = Inr (freezer_bank t))"
  using assms
  by (cases call) (auto simp: freezer_defs Let_def split: if_splits sum.splits)

lemma hook_bank:
  assumes "chain_step cfg act s t" "hook_action act"
  shows "bank t = bank s"
  using assms(1)
proof cases
  case (step_new_session vs)
  then show ?thesis using new_session_outside [of s] by (simp add: same_outside_def)
next
  case (step_initialize author)
  then show ?thesis using on_initialize_outside [of s cfg author] by (simp add: same_outside_def)
next
  case step_end_session
  then show ?thesis using end_session_outside [of cfg s t] by (simp add: same_outside_def)
qed (use assms(2) in auto)

context joint_runtime
begin

lemma dispatch_keeps_frozen:
  assumes "dispatch cfg org call s = (r, t)"
  shows "balance_frozen (freeze_currency F) (bank t) i b = balance_frozen (freeze_currency F) (bank s) i b"
proof (cases r)
  case (Inl e)
  with assms show ?thesis by (simp add: dispatch_def with_storage_layer_Inl)
next
  case (Inr u)
  with assms have "call_body cfg org call s = (Inr u, t)" by (simp add: dispatch_def)
  from call_bank [OF this] show ?thesis
    by (auto simp: reserve_keeps_frozen unreserve_keeps_frozen)
qed

lemma freezer_keeps_pots:
  assumes "freezer_dispatch F org call f = (r, g)"
  shows "free_balance (currency cfg) (freezer_bank g) b = free_balance (currency cfg) (freezer_bank f) b \<and>
    reserved_balance (currency cfg) (freezer_bank g) b = reserved_balance (currency cfg) (freezer_bank f) b"
proof (cases r)
  case (Inl e)
  with assms show ?thesis by (simp add: freezer_dispatch_def with_storage_layer_Inl)
next
  case (Inr u)
  with assms have "freezer_body F org call f = (Inr u, g)" by (simp add: freezer_dispatch_def)
  from freezer_bank_moves [OF this] show ?thesis
    by (auto dest: set_freeze_keeps_pots thaw_keeps_pots)
qed

text \<open>Seen from the staking pallet, a freezer call is another pallet touching the bank.\<close>

lemma lawful_step_staking:
  assumes "lawful_step cfg F rs rt"
  shows "admissible_step cfg (staking_part rs) (staking_part rt)"
proof -
  from assms obtain act where step: "runtime_step cfg F act rs rt" and law: "lawful_action cfg rs act"
    by (auto simp: lawful_step_def)
  from step show ?thesis
  proof cases
    case (runtime_extrinsic org call r)
    show ?thesis
    proof (cases call)
      case (XodeStakingCall c)
      with runtime_extrinsic obtain q t where "dispatch cfg org c (staking_part rs) = (q, t)"
        "rt = rs\<lparr>staking_part := t\<rparr>" by (auto split: prod.splits)
      then show ?thesis
        using step_extrinsic [of cfg org c "staking_part rs" q t] XodeStakingCall runtime_extrinsic law
        by (auto simp: admissible_step_def)
    next
      case (AccountFreezerCall c)
      with runtime_extrinsic obtain q f where f: "freezer_dispatch F org c (freezer_part rs) = (q, f)"
        "rt = put_freezer f rs" by (auto split: prod.splits)
      have "admissible cfg (staking_part rs) (MoveMoney (freezer_bank f))"
        using freezer_keeps_pots [OF f(1)] by (simp add: admissible_def)
      with f(2) show ?thesis
        using step_money [of cfg "freezer_bank f" "staking_part rs"]
        by (auto simp: admissible_step_def)
    qed
  next
    case (runtime_hook h t)
    then show ?thesis
      by (cases h) (auto simp: admissible_step_def admissible_def)
  next
    case (runtime_others m)
    with law show ?thesis
      using step_money [of cfg m "staking_part rs"] by (auto simp: admissible_step_def)
  qed
qed

text \<open>Seen from the freezer, a staking call or hook leaves all frozen amounts alone.\<close>

lemma runtime_step_freezer:
  assumes "runtime_step cfg F act rs rt"
  shows "freezer_step F (freezer_part rs) (freezer_part rt)"
  using assms
proof cases
  case (runtime_extrinsic org call r)
  show ?thesis
  proof (cases call)
    case (XodeStakingCall c)
    with runtime_extrinsic obtain q t where t: "dispatch cfg org c (staking_part rs) = (q, t)"
      "rt = rs\<lparr>staking_part := t\<rparr>" by (auto split: prod.splits)
    show ?thesis
      unfolding t(2) freezer_part_staking
      using dispatch_keeps_frozen [OF t(1)] by (intro freezer_outside) simp
  next
    case (AccountFreezerCall c)
    with runtime_extrinsic show ?thesis
      by (auto split: prod.splits intro: freezer_extrinsic)
  qed
next
  case (runtime_hook h t)
  show ?thesis
    unfolding runtime_hook freezer_part_staking
    using hook_bank [OF runtime_hook(4,3)] by (intro freezer_outside) simp
next
  case (runtime_others m)
  show ?thesis
    unfolding runtime_others freezer_part_staking
    using runtime_others by (intro freezer_outside) simp
qed

end

text \<open>Both components' invariants, and with them the solvency of the bank, are invariants of the
  joint runtime.\<close>

definition runtime_inv ::
    "'c staking_config \<Rightarrow> ('c, 'i) runtime_freezer_config \<Rightarrow> account_id list \<Rightarrow> 'c runtime_storage \<Rightarrow> bool" where
  "runtime_inv cfg F desired rs \<longleftrightarrow>
     staking_inv cfg desired (staking_part rs) \<and> backed cfg (staking_part rs) \<and>
     freezer_inv F (freezer_part rs)"

sublocale joint_runtime \<subseteq> joint: inductive_invariant
  "runtime_genesis cfg F desired" "lawful_step cfg F" "runtime_inv cfg F desired"
  for desired :: "account_id list"
proof unfold_locales
  show "runtime_genesis cfg F desired rs \<Longrightarrow> runtime_inv cfg F desired rs" for rs
    using genesis_backed by (auto simp: runtime_genesis_def runtime_inv_def genesis_staking_inv frozen.inv_init)
next
  fix rs rt
  assume inv: "runtime_inv cfg F desired rs" and step: "lawful_step cfg F rs rt"
  obtain act where "runtime_step cfg F act rs rt"
    using step by (auto simp: lawful_step_def)
  then have "freezer_inv F (freezer_part rt)"
    using inv runtime_step_freezer frozen.inv_step by (auto simp: runtime_inv_def)
  then show "runtime_inv cfg F desired rt"
    using inv solvency.both.inv_step [OF _ lawful_step_staking [OF step]]
    by (auto simp: runtime_inv_def)
qed

context joint_runtime
begin

lemma joint_reach:
  "reach (runtime_genesis cfg F desired) (lawful_step cfg F) rs \<Longrightarrow> runtime_inv cfg F desired rs"
  by (rule joint.inv_reach)

end

section \<open>Frozen accounts\<close>

fun thaws :: "account_id \<Rightarrow> 'c runtime_action \<Rightarrow> bool" where
  "thaws a (RuntimeExtrinsic _ (AccountFreezerCall (ThawAccount b))) = (b = a)"
| "thaws a (RuntimeExtrinsic _ (AccountFreezerCall (ThawAmount b _))) = (b = a)"
| "thaws _ _ = False"

definition unthawed_step ::
    "'c staking_config \<Rightarrow> ('c, 'i) runtime_freezer_config \<Rightarrow> account_id \<Rightarrow> 'c runtime_storage \<Rightarrow>
     'c runtime_storage \<Rightarrow> bool" where
  "unthawed_step cfg F a rs rt \<longleftrightarrow> (\<exists>act. runtime_step cfg F act rs rt \<and> \<not> thaws a act)"

text \<open>The account is listed with everything frozen.\<close>

definition locked :: "('c, 'i) runtime_freezer_config \<Rightarrow> account_id \<Rightarrow> 'c runtime_storage \<Rightarrow> bool" where
  "locked F a rs \<longleftrightarrow> listed rs a \<noteq> None \<and>
     balance_frozen (freeze_currency F) (bank (staking_part rs)) (runtime_reason F AccountFrozen) a = - 1"

context joint_runtime
begin

lemma freezer_keeps_locked:
  assumes "freezer_dispatch F org c f = (r, g)" "\<not> thaws a (RuntimeExtrinsic org (AccountFreezerCall c))"
    and "frozen_map f a \<noteq> None"
    and "balance_frozen (freeze_currency F) (freezer_bank f) (runtime_reason F AccountFrozen) a = - 1"
  shows "frozen_map g a \<noteq> None \<and>
    balance_frozen (freeze_currency F) (freezer_bank g) (runtime_reason F AccountFrozen) a = - 1"
proof (cases r)
  case (Inl e)
  with assms show ?thesis by (auto simp: freezer_dispatch_def with_storage_layer_Inl)
next
  case (Inr u)
  with assms have ok: "freezer_body F org c f = (Inr u, g)" by (simp add: freezer_dispatch_def)
  show ?thesis
  proof (cases c)
    case (ThawAmount b v)
    with ok assms(2-4) show ?thesis
      by (auto simp: thaw_amount_def Let_def set_freeze_at thaw_at contains_key_def split: if_splits sum.splits)
  qed (use ok assms(2-4) in \<open>auto simp: freezer_defs set_freeze_at thaw_at contains_key_def
        split: if_splits sum.splits\<close>)
qed

lemma unthawed_step_locked:
  assumes "unthawed_step cfg F a rs rt" "locked F a rs"
  shows "locked F a rt"
proof -
  from assms(1) obtain act where step: "runtime_step cfg F act rs rt" "\<not> thaws a act"
    by (auto simp: unthawed_step_def)
  from step(1) show ?thesis
  proof cases
    case (runtime_extrinsic org call r)
    show ?thesis
    proof (cases call)
      case (XodeStakingCall c)
      with runtime_extrinsic assms(2) show ?thesis
        by (auto simp: locked_def dispatch_keeps_frozen split: prod.splits)
    next
      case (AccountFreezerCall c)
      with runtime_extrinsic obtain q f where f: "freezer_dispatch F org c (freezer_part rs) = (q, f)"
        "rt = put_freezer f rs" by (auto split: prod.splits)
      from freezer_keeps_locked [OF f(1), of a] step(2) assms(2) AccountFreezerCall runtime_extrinsic(1)
      show ?thesis by (simp add: f(2) locked_def put_freezer_def)
    qed
  next
    case (runtime_hook h t)
    with assms(2) hook_bank [OF runtime_hook(4,3)] show ?thesis by (simp add: locked_def)
  next
    case (runtime_others m)
    with assms(2) show ?thesis by (simp add: locked_def)
  qed
qed

lemma unthawed_steps_locked: "(unthawed_step cfg F a)\<^sup>*\<^sup>* rs rt \<Longrightarrow> locked F a rs \<Longrightarrow> locked F a rt"
  by (induction rule: rtranclp_induct) (auto intro: unthawed_step_locked)

text \<open>No call, whoever makes it, raises a locked account's reserve.\<close>

lemma locked_reserve:
  assumes "runtime_dispatch cfg F org call rs = (r, rt)" "locked F a rs"
  shows "reserved_balance (currency cfg) (bank (staking_part rt)) a
    \<le> reserved_balance (currency cfg) (bank (staking_part rs)) a"
proof (cases call)
  case (XodeStakingCall c)
  with assms obtain q t where t: "dispatch cfg org c (staking_part rs) = (q, t)"
    "rt = rs\<lparr>staking_part := t\<rparr>" by (auto split: prod.splits)
  show ?thesis
  proof (cases q)
    case (Inl e)
    with t show ?thesis by (simp add: dispatch_def with_storage_layer_Inl)
  next
    case (Inr u)
    with t(1) have "call_body cfg org c (staking_part rs) = (Inr u, t)" by (simp add: dispatch_def)
    from call_bank [OF this] obtain b where
      "bank t = bank (staking_part rs) \<or>
       (\<exists>v. reserve (currency cfg) (bank (staking_part rs)) b v = Inr (bank t)) \<or>
       (\<exists>v. bank t = snd (unreserve (currency cfg) (bank (staking_part rs)) b v))" by auto
    moreover have zero: "unat v = 0" if "reserve (currency cfg) (bank (staking_part rs)) a v = Inr (bank t)" for v
      using fully_frozen_reserve [OF that, of "runtime_reason F AccountFrozen"] assms(2) by (simp add: locked_def)
    ultimately show ?thesis
      by (auto dest!: zero simp: t(2) locked_def word_le_nat_alt unreserve_reserved_at reserve_reserved_at)
  qed
next
  case (AccountFreezerCall c)
  with assms(1) obtain q f where "freezer_dispatch F org c (freezer_part rs) = (q, f)"
    "rt = put_freezer f rs" by (auto split: prod.splits)
  with freezer_keeps_pots show ?thesis by fastforce
qed

lemma freeze_account_locks:
  assumes "runtime_dispatch cfg F org (AccountFreezerCall (FreezeAccount a)) rs = (Inr (), rt)"
  shows "locked F a rt"
proof -
  from assms obtain f where "freezer_body F org (FreezeAccount a) (freezer_part rs) = (Inr (), f)"
    "rt = put_freezer f rs"
    by (auto simp: freezer_dispatch_def split: prod.splits)
  then show ?thesis
    by (auto simp: freeze_account_def locked_def put_freezer_def set_freeze_frozen split: if_splits sum.splits)
qed

end

section \<open>The runtime's configuration over a concrete bank\<close>

definition vault_config :: "vault staking_config" where
  "vault_config = xode_staking_config vault_ops account_bytes account_of_bytes"

definition vault_freezer_config :: "(vault, freeze_reason) runtime_freezer_config" where
  "vault_freezer_config = xode_freezer_config doc_gates vault_freezes (\<lambda>r. r)"

lemma vault_config_sel [simp]:
  "currency vault_config = vault_ops" "max_candidates vault_config = 50"
  "max_delegations vault_config = 100"
  "freeze_currency vault_freezer_config = vault_freezes"
  "runtime_reason vault_freezer_config = (\<lambda>r. r)"
  "freeze_origin vault_freezer_config = freezer_freeze_origin doc_gates"
  by (simp_all add: vault_config_def vault_freezer_config_def xode_freezer_config_def)

interpretation xode: joint_runtime vault_config vault_freezer_config
  by (rule joint_runtime.intro) (simp add: vault.runtime_currency_axioms)

text \<open>Account 1 is the genesis validator; account 2 has \<open>10 ^ 15\<close> base units.\<close>

definition vault_chain :: "candidate_info list \<Rightarrow> vault chain" where
  "vault_chain cs = (empty_chain \<lparr>l_free = (\<lambda>_. 1000000000000000), l_reserved = (\<lambda>_. 0),
       v_frozen = (\<lambda>_ _. 0)\<rparr>)\<lparr>desired_candidates := [1], invulnerables := [1],
       waiting_candidates := [1], proposed_candidates := cs\<rparr>"

definition vault_start :: "vault chain \<Rightarrow> vault runtime_storage" where
  "vault_start s = \<lparr>staking_part = s, listed = (\<lambda>_. None), freezing_events = []\<rparr>"

definition vault_frozen :: "account_id \<Rightarrow> vault chain \<Rightarrow> vault runtime_storage" where
  "vault_frozen a s = snd (runtime_dispatch vault_config vault_freezer_config (System Root)
     (AccountFreezerCall (FreezeAccount a)) (vault_start s))"

lemma vault_freezes_account:
  "runtime_dispatch vault_config vault_freezer_config (System Root)
     (AccountFreezerCall (FreezeAccount a)) (vault_start s) = (Inr (), vault_frozen a s)"
  by (simp add: vault_frozen_def freezer_dispatch_def with_storage_layer_def freeze_account_def
      contains_key_def vault_start_def freezer_freeze_origin_def RootOrTwoThirdsTechnicalCommittee_def
      doc_gates_def)

lemma vault_genesis_reach:
  "reach (runtime_genesis vault_config vault_freezer_config [1])
     (lawful_step vault_config vault_freezer_config) (vault_start (vault_chain []))"
  by (rule reach_init)
    (auto simp: runtime_genesis_def at_genesis_def genesis_build_def freezer_genesis_def
      vault_chain_def vault_start_def empty_chain_def)

lemma vault_frozen_reach:
  "reach (runtime_genesis vault_config vault_freezer_config [1])
     (lawful_step vault_config vault_freezer_config) (vault_frozen 2 (vault_chain []))"
  using vault_genesis_reach
  by (rule reach_step)
    (auto simp: lawful_step_def intro!: exI runtime_extrinsic [OF vault_freezes_account])

section \<open>Properties\<close>

text \<open>C6: the two pallets keep each other's invariants. Over one bank, in every state the
  joint runtime reaches by lawful steps in any order (no overdraft by \<open>bond_correction\<close>, other
  pallets release only what is reserved beyond the staking pallet's claims), the staking pallet's storage is well
  formed, every account's bond and stakes are covered by its reserve, and an account
  without an entry in \<open>Frozen\<close> has nothing frozen under the freezer's reason.\<close>

theorem joint_runtime_invariant:
  assumes "runtime_currency (currency cfg) (freeze_currency F)"
    and "reach (runtime_genesis cfg F desired) (lawful_step cfg F) rs"
  shows "staking_inv cfg desired (staking_part rs) \<and>
    claims (staking_part rs) a \<le> unat (reserved_balance (currency cfg) (bank (staking_part rs)) a) \<and>
    (listed rs a \<noteq> None \<or>
     balance_frozen (freeze_currency F) (bank (staking_part rs)) (runtime_reason F AccountFrozen) a = 0)"
proof -
  have j: "joint_runtime cfg F" using assms(1) by (rule joint_runtime.intro)
  show ?thesis
    using joint_runtime.joint_reach [OF j assms(2)]
    by (auto simp: runtime_inv_def backed_def freezer_inv_def contains_key_def)
qed

theorem joint_runtime_invariant_witness:
  "staking_inv vault_config [1] (staking_part (vault_frozen 2 (vault_chain []))) \<and>
   claims (staking_part (vault_frozen 2 (vault_chain []))) 3
     \<le> unat (l_reserved (bank (staking_part (vault_frozen 2 (vault_chain [])))) 3)"
  using joint_runtime_invariant [OF xode.bank_laws vault_frozen_reach, of 3] by simp

text \<open>C7: a frozen account cannot commit money. From a successful \<open>freeze_account\<close> on, through
  any steps of the runtime in any order, until a thaw names the account, no call of either
  pallet by anybody raises the account's reserved balance: it can neither raise its bond nor
  stake.\<close>

theorem frozen_account_cannot_commit:
  assumes "runtime_currency (currency cfg) (freeze_currency F)"
    and "runtime_dispatch cfg F org (AccountFreezerCall (FreezeAccount a)) rs = (Inr (), rt)"
    and "(unthawed_step cfg F a)\<^sup>*\<^sup>* rt ru"
    and "runtime_dispatch cfg F org' call ru = (r, rv)"
  shows "reserved_balance (currency cfg) (bank (staking_part rv)) a
    \<le> reserved_balance (currency cfg) (bank (staking_part ru)) a"
proof -
  have j: "joint_runtime cfg F" using assms(1) by (rule joint_runtime.intro)
  have "locked F a ru"
    by (rule joint_runtime.unthawed_steps_locked [OF j assms(3)])
      (rule joint_runtime.freeze_account_locks [OF j assms(2)])
  from joint_runtime.locked_reserve [OF j assms(4) this] show ?thesis .
qed

theorem frozen_account_cannot_commit_witness:
  "\<exists>r rt r' rv. runtime_dispatch vault_config vault_freezer_config (System Root)
       (AccountFreezerCall (FreezeAccount 2)) (vault_start (vault_chain [demo_candidate 3 0])) = (Inr (), rt) \<and>
     runtime_dispatch vault_config vault_freezer_config (System (Signed 2))
       (XodeStakingCall (StakeCandidate 3 500)) rt = (r, rv) \<and>
     l_reserved (bank (staking_part rv)) 2 \<le> l_reserved (bank (staking_part rt)) 2 \<and>
     runtime_dispatch vault_config vault_freezer_config (System (Signed 2))
       (XodeStakingCall (StakeCandidate 3 500)) (vault_start (vault_chain [demo_candidate 3 0])) = (Inr (), r') \<and>
     l_reserved (bank (staking_part r')) 2 = 500"
proof -
  obtain rt where rt: "runtime_dispatch vault_config vault_freezer_config (System Root)
      (AccountFreezerCall (FreezeAccount 2)) (vault_start (vault_chain [demo_candidate 3 0])) = (Inr (), rt)"
    using vault_freezes_account by blast
  obtain r rv where rv: "runtime_dispatch vault_config vault_freezer_config (System (Signed 2))
      (XodeStakingCall (StakeCandidate 3 500)) rt = (r, rv)"
    by fastforce
  have "\<exists>r'. runtime_dispatch vault_config vault_freezer_config (System (Signed 2))
      (XodeStakingCall (StakeCandidate 3 500)) (vault_start (vault_chain [demo_candidate 3 0])) = (Inr (), r') \<and>
      l_reserved (bank (staking_part r')) 2 = 500"
    by (simp add: dispatch_def with_storage_layer_def stake_candidate_def vault_start_def vault_chain_def Let_def
        vault_reserve_def add_delegation_def try_push_def recompute_total_stake_def find_candidate_def demo_simps
        empty_chain_def)
  with frozen_account_cannot_commit [OF xode.bank_laws rt rtranclp.rtrancl_refl rv] rt rv
  show ?thesis by auto
qed

end
