(* ===== verification/Runtime_Blocks.thy ===== *)
theory Runtime_Blocks
  imports Runtime_Calls Block_Theorems
begin

text \<open>
  Blocks of the whole runtime: the hooks of \<open>Block_Production\<close>, then extrinsics that call
  either pallet or a library pallet; a panic of either pallet's code fails the block. Read off on the staking storage such a block is a block
  of \<open>Block_Production\<close> in which the freezer's calls are moves of the bank, so everything shown
  of sessions there holds of the runtime with both pallets; read as a run it is a sequence of
  lawful steps of the joint runtime, so both pallets' invariants and the backing of all
  claims hold between any two blocks.
\<close>

section \<open>Blocks with calls of both pallets\<close>

record 'c runtime_node =
  storage :: "'c runtime_storage"
  queued_keys :: "account_id list"

text \<open>Of a library pallet's call only the effect on the bank is visible.\<close>

datatype 'c runtime_extrinsic = PalletExtrinsic origin runtime_call | LibraryExtrinsic "'c \<Rightarrow> 'c"

record 'c runtime_block =
  block_slot :: u64
  keys_set :: "account_id \<Rightarrow> bool"
  body :: "'c runtime_extrinsic list"

definition put_chain :: "'c chain \<Rightarrow> 'c runtime_storage \<Rightarrow> 'c runtime_storage" where
  "put_chain s rs = rs\<lparr>staking_part := s\<rparr>"

fun run_runtime_extrinsic ::
    "'c staking_config \<Rightarrow> ('c, 'i) runtime_freezer_config \<Rightarrow> 'c runtime_extrinsic \<Rightarrow>
     'c runtime_storage \<Rightarrow> 'c runtime_storage option" where
  "run_runtime_extrinsic cfg F (PalletExtrinsic org call) rs =
     (case runtime_dispatch cfg F org call rs of (Inl Panic, _) \<Rightarrow> None | (_, rt) \<Rightarrow> Some rt)"
| "run_runtime_extrinsic cfg F (LibraryExtrinsic f) rs =
     Some (put_chain ((staking_part rs)\<lparr>bank := f (bank (staking_part rs))\<rparr>) rs)"

fun run_runtime_extrinsics ::
    "'c staking_config \<Rightarrow> ('c, 'i) runtime_freezer_config \<Rightarrow> 'c runtime_extrinsic list \<Rightarrow>
     'c runtime_storage \<Rightarrow> 'c runtime_storage option" where
  "run_runtime_extrinsics cfg F [] rs = Some rs"
| "run_runtime_extrinsics cfg F (x # xs) rs =
     Option.bind (run_runtime_extrinsic cfg F x rs) (run_runtime_extrinsics cfg F xs)"

lemma map_sum_panic [simp]: "map_sum (map_dispatch_error h) id r = Inl Panic \<longleftrightarrow> r = Inl Panic"
proof (cases r)
  case (Inl e)
  then show ?thesis by (cases e) simp_all
qed simp

lemma run_runtime_pallet:
  "run_runtime_extrinsic cfg F (PalletExtrinsic org call) rs = Some rt \<longleftrightarrow>
     (\<exists>r. runtime_dispatch cfg F org call rs = (r, rt) \<and> r \<noteq> Inl Panic)"
  by (auto split: prod.split sum.split dispatch_error.split)

declare run_runtime_extrinsic.simps(1) [simp del]

text \<open>The staking pallet's view of a node, and of the extrinsics of a block run from \<open>rs\<close>.\<close>

definition staking_node :: "'c runtime_node \<Rightarrow> 'c node_state" where
  "staking_node st = \<lparr>on_chain = staking_part (storage st), queued = queued_keys st\<rparr>"

fun staking_view ::
    "'c staking_config \<Rightarrow> ('c, 'i) runtime_freezer_config \<Rightarrow> 'c runtime_extrinsic list \<Rightarrow>
     'c runtime_storage \<Rightarrow> 'c extrinsic list" where
  "staking_view cfg F [] rs = []"
| "staking_view cfg F (x # xs) rs =
     (case run_runtime_extrinsic cfg F x rs of
        None \<Rightarrow> []
      | Some rt \<Rightarrow>
          (case x of
             PalletExtrinsic org (XodeStakingCall c) \<Rightarrow> StakingExtrinsic org c
           | PalletExtrinsic org (AccountFreezerCall c) \<Rightarrow> OtherExtrinsic (\<lambda>_. bank (staking_part rt))
           | LibraryExtrinsic f \<Rightarrow> OtherExtrinsic f) #
          staking_view cfg F xs rt)"

definition staking_block :: "'c runtime_block \<Rightarrow> 'c extrinsic list \<Rightarrow> 'c block" where
  "staking_block b xs = \<lparr>slot = block_slot b, keyed = keys_set b, extrinsics = xs\<rparr>"

text \<open>The hooks run first and touch only the staking storage; \<open>AccountFreezer\<close> has none.\<close>

definition produce_runtime ::
    "'c staking_config \<Rightarrow> ('c, 'i) runtime_freezer_config \<Rightarrow> session_lib \<Rightarrow> 'c runtime_block \<Rightarrow>
     'c runtime_node \<Rightarrow> 'c runtime_node option" where
  "produce_runtime cfg F L b st =
     (case begin_block cfg L (staking_block b []) (staking_node st) of
        None \<Rightarrow> None
      | Some t \<Rightarrow>
          map_option (\<lambda>rs. \<lparr>storage = rs, queued_keys = queued t\<rparr>)
            (run_runtime_extrinsics cfg F (body b) (put_chain (on_chain t) (storage st))))"

lemma put_chain_sel [simp]:
  "staking_part (put_chain s rs) = s" "listed (put_chain s rs) = listed rs"
  "freezing_events (put_chain s rs) = freezing_events rs"
  "put_chain s (put_chain t rs) = put_chain s rs"
  by (simp_all add: put_chain_def)

lemma staking_node_sel [simp]:
  "on_chain (staking_node st) = staking_part (storage st)" "queued (staking_node st) = queued_keys st"
  by (simp_all add: staking_node_def)

lemma staking_block_sel [simp]:
  "slot (staking_block b xs) = block_slot b" "keyed (staking_block b xs) = keys_set b"
  "extrinsics (staking_block b xs) = xs"
  by (simp_all add: staking_block_def)

section \<open>A block of the runtime is a block of the staking pallet\<close>

lemma staking_view_run:
  "run_runtime_extrinsics cfg F xs rs = Some rt \<Longrightarrow>
   run_extrinsics cfg (staking_view cfg F xs rs) (staking_part rs) = Some (staking_part rt)"
proof (induction xs arbitrary: rs)
  case (Cons x xs)
  from Cons.prems obtain ru where u: "run_runtime_extrinsic cfg F x rs = Some ru"
    "run_runtime_extrinsics cfg F xs ru = Some rt"
    by (auto simp: bind_eq_Some_conv)
  have "run_extrinsic cfg (hd (staking_view cfg F (x # xs) rs)) (staking_part rs) = Some (staking_part ru)"
  proof (cases x)
    case (PalletExtrinsic org call)
    with u(1) obtain r where r: "runtime_dispatch cfg F org call rs = (r, ru)" "r \<noteq> Inl Panic"
      by (auto simp: run_runtime_pallet)
    show ?thesis
    proof (cases call)
      case (XodeStakingCall c)
      with r obtain q t where "dispatch cfg org c (staking_part rs) = (q, t)"
        "r = map_sum (map_dispatch_error XodeStakingError) id q" "ru = rs\<lparr>staking_part := t\<rparr>"
        by (auto split: prod.splits)
      with XodeStakingCall PalletExtrinsic u(1) r(2) show ?thesis
        by (auto simp: run_extrinsic_staking)
    next
      case (AccountFreezerCall c)
      with r PalletExtrinsic u(1) show ?thesis
        by (auto simp: put_freezer_def split: prod.splits)
    qed
  qed (use u(1) in auto)
  with Cons.IH [OF u(2)] u(1) show ?case by simp
qed simp

lemma begin_block_body:
  "begin_block cfg L (staking_block b xs) st = begin_block cfg L (staking_block b ys) st"
  by (simp add: begin_block_eq record_author_def Let_def)

lemma produce_runtime_view:
  assumes "produce_runtime cfg F L b st = Some u"
  shows "\<exists>b'. produce cfg L b' (staking_node st) = Some (staking_node u)"
proof -
  from assms obtain t rs where t: "begin_block cfg L (staking_block b []) (staking_node st) = Some t"
    "run_runtime_extrinsics cfg F (body b) (put_chain (on_chain t) (storage st)) = Some rs"
    "u = \<lparr>storage = rs, queued_keys = queued t\<rparr>"
    by (auto simp: produce_runtime_def split: option.splits)
  let ?xs = "staking_view cfg F (body b) (put_chain (on_chain t) (storage st))"
  have "begin_block cfg L (staking_block b ?xs) (staking_node st) = Some t"
    unfolding begin_block_body [of cfg L b ?xs _ "[]"] by (rule t(1))
  then have "produce cfg L (staking_block b ?xs) (staking_node st) = Some (staking_node u)"
    using staking_view_run [OF t(2)] by (simp add: produce_def t(3) staking_node_def)
  then show ?thesis by blast
qed

text \<open>The freezer's calls never panic, and the staking pallet's do not under a lawful codec: the
  body of a block runs to its end.\<close>

lemma freezer_no_panic: "freezer_dispatch F org call f \<noteq> (Inl Panic, g)"
  by (cases call) (auto simp: freezer_dispatch_def with_storage_layer_Inl freezer_defs Let_def split: if_splits sum.splits)

lemma runtime_body_total:
  "lawful_codec cfg \<Longrightarrow> \<exists>rt. run_runtime_extrinsics cfg F xs rs = Some rt"
proof (induction xs arbitrary: rs)
  case (Cons x xs)
  have "\<exists>ru. run_runtime_extrinsic cfg F x rs = Some ru"
  proof (cases x)
    case (PalletExtrinsic org call)
    obtain r rt where r: "runtime_dispatch cfg F org call rs = (r, rt)" by fastforce
    have "r \<noteq> Inl Panic"
      using r by (cases call)
        (auto simp: dispatch_no_panic [OF Cons.prems] freezer_no_panic split: prod.splits)
    with r PalletExtrinsic show ?thesis by (auto simp: run_runtime_pallet)
  qed simp
  then obtain ru where "run_runtime_extrinsic cfg F x rs = Some ru" ..
  with Cons.IH [OF Cons.prems, of ru] show ?case by simp
qed simp

section \<open>Lawful blocks\<close>

text \<open>An extrinsic is lawful as in \<open>lawful_action\<close>: a \<open>bond_correction\<close> stays within the bond, and
  a library pallet neither releases what the staking pallet has reserved nor touches the
  freezes under this pallet's reason. In a lawful block each extrinsic is lawful where it
  runs.\<close>

fun lawful_extrinsic ::
    "'c staking_config \<Rightarrow> ('c, 'i) runtime_freezer_config \<Rightarrow> 'c runtime_extrinsic \<Rightarrow>
     'c runtime_storage \<Rightarrow> bool" where
  "lawful_extrinsic cfg F (PalletExtrinsic org call) rs = lawful_action cfg rs (RuntimeExtrinsic org call)"
| "lawful_extrinsic cfg F (LibraryExtrinsic f) rs =
     (let m = bank (staking_part rs) in
      lawful_action cfg rs (OtherPallets (f m)) \<and>
      (\<forall>a. balance_frozen (freeze_currency F) (f m) (runtime_reason F AccountFrozen) a =
           balance_frozen (freeze_currency F) m (runtime_reason F AccountFrozen) a))"

fun lawful_body ::
    "'c staking_config \<Rightarrow> ('c, 'i) runtime_freezer_config \<Rightarrow> 'c runtime_extrinsic list \<Rightarrow>
     'c runtime_storage \<Rightarrow> bool" where
  "lawful_body cfg F [] rs = True"
| "lawful_body cfg F (x # xs) rs =
     (lawful_extrinsic cfg F x rs \<and>
      (case run_runtime_extrinsic cfg F x rs of None \<Rightarrow> True | Some rt \<Rightarrow> lawful_body cfg F xs rt))"

definition lawful_block ::
    "'c staking_config \<Rightarrow> ('c, 'i) runtime_freezer_config \<Rightarrow> session_lib \<Rightarrow> 'c runtime_block \<Rightarrow>
     'c runtime_node \<Rightarrow> bool" where
  "lawful_block cfg F L b st =
     (case begin_block cfg L (staking_block b []) (staking_node st) of
        None \<Rightarrow> True
      | Some t \<Rightarrow> lawful_body cfg F (body b) (put_chain (on_chain t) (storage st)))"

definition lawful_block_step ::
    "'c staking_config \<Rightarrow> ('c, 'i) runtime_freezer_config \<Rightarrow> session_lib \<Rightarrow> 'c runtime_node \<Rightarrow>
     'c runtime_node \<Rightarrow> bool" where
  "lawful_block_step cfg F L st u \<longleftrightarrow>
     (\<exists>b. produce_runtime cfg F L b st = Some u \<and> lawful_block cfg F L b st)"

definition runtime_node_at_genesis ::
    "'c staking_config \<Rightarrow> ('c, 'i) runtime_freezer_config \<Rightarrow> account_id list \<Rightarrow> 'c runtime_node \<Rightarrow> bool" where
  "runtime_node_at_genesis cfg F desired st \<longleftrightarrow>
     queued_keys st = desired \<and>
     (\<exists>rs. runtime_genesis cfg F desired rs \<and>
        storage st = put_chain ((staking_part rs)\<lparr>validators := desired\<rparr>) rs)"

abbreviation runtime_node_reachable ::
    "'c staking_config \<Rightarrow> ('c, 'i) runtime_freezer_config \<Rightarrow> session_lib \<Rightarrow> account_id list \<Rightarrow>
     'c runtime_node \<Rightarrow> bool" where
  "runtime_node_reachable cfg F L desired \<equiv>
     reach (runtime_node_at_genesis cfg F desired) (lawful_block_step cfg F L)"

section \<open>A lawful block is a run of lawful steps\<close>

lemma hooks_lawful:
  "(hook_step cfg)\<^sup>*\<^sup>* s t \<Longrightarrow> (lawful_step cfg F)\<^sup>*\<^sup>* (put_chain s rs) (put_chain t rs)"
proof (induction rule: rtranclp_induct)
  case (step t u)
  then obtain act where act: "hook_action act" "chain_step cfg act t u" by (auto simp: hook_step_def)
  have "runtime_step cfg F (Hook act) (put_chain t rs) (put_chain u rs)"
    using runtime_hook [OF act(1), of cfg "put_chain t rs" u F] act(2) by (simp add: put_chain_def)
  then have "lawful_step cfg F (put_chain t rs) (put_chain u rs)"
    by (auto simp: lawful_step_def intro: exI [of _ "Hook act"])
  with step.IH show ?case by (rule rtranclp.rtrancl_into_rtrancl)
qed simp

lemma extrinsic_lawful:
  assumes "lawful_extrinsic cfg F x rs" and run: "run_runtime_extrinsic cfg F x rs = Some rt"
  shows "lawful_step cfg F rs rt"
proof (cases x)
  case (PalletExtrinsic org call)
  with run obtain r where "runtime_dispatch cfg F org call rs = (r, rt)"
    by (auto simp: run_runtime_pallet)
  then have "runtime_step cfg F (RuntimeExtrinsic org call) rs rt" by (rule runtime_extrinsic)
  with assms PalletExtrinsic show ?thesis by (auto simp: lawful_step_def)
next
  case (LibraryExtrinsic f)
  have "runtime_step cfg F (OtherPallets (f (bank (staking_part rs)))) rs rt"
    using assms LibraryExtrinsic runtime_others [of F "f (bank (staking_part rs))" rs cfg]
    by (auto simp: Let_def put_chain_def)
  with assms LibraryExtrinsic show ?thesis by (auto simp: lawful_step_def Let_def)
qed

lemma body_lawful:
  "run_runtime_extrinsics cfg F xs rs = Some rt \<Longrightarrow> lawful_body cfg F xs rs \<Longrightarrow>
   (lawful_step cfg F)\<^sup>*\<^sup>* rs rt"
proof (induction xs arbitrary: rs)
  case (Cons x xs)
  from Cons.prems(1) obtain ru where u: "run_runtime_extrinsic cfg F x rs = Some ru"
    "run_runtime_extrinsics cfg F xs ru = Some rt"
    by (auto simp: bind_eq_Some_conv)
  with Cons.prems(2) Cons.IH [OF u(2)] extrinsic_lawful [OF _ u(1)] show ?case
    by (auto intro: converse_rtranclp_into_rtranclp)
qed simp

lemma block_lawful:
  assumes "lawful_block_step cfg F L st u"
  shows "(lawful_step cfg F)\<^sup>*\<^sup>* (storage st) (storage u)"
proof -
  from assms obtain b t where t: "begin_block cfg L (staking_block b []) (staking_node st) = Some t"
    "run_runtime_extrinsics cfg F (body b) (put_chain (on_chain t) (storage st)) = Some (storage u)"
    "lawful_body cfg F (body b) (put_chain (on_chain t) (storage st))"
    by (auto simp: lawful_block_step_def produce_runtime_def lawful_block_def split: option.splits)
  have "(lawful_step cfg F)\<^sup>*\<^sup>* (put_chain (staking_part (storage st)) (storage st))
      (put_chain (on_chain t) (storage st))"
    using hooks_lawful [OF begin_block_steps [OF t(1)]] by simp
  then have "(lawful_step cfg F)\<^sup>*\<^sup>* (storage st) (put_chain (on_chain t) (storage st))"
    by (simp add: put_chain_def)
  then show ?thesis using body_lawful [OF t(2,3)] by (rule rtranclp_trans)
qed

lemma runtime_node_joint:
  "runtime_node_reachable cfg F L desired st \<Longrightarrow>
   reach (runtime_genesis cfg F desired) (lawful_step cfg F) (storage st)"
proof (induction rule: reach.induct)
  case (reach_init st)
  then obtain rs where rs: "runtime_genesis cfg F desired rs"
    "storage st = put_chain ((staking_part rs)\<lparr>validators := desired\<rparr>) rs"
    by (auto simp: runtime_node_at_genesis_def)
  have "(lawful_step cfg F)\<^sup>*\<^sup>* (put_chain (staking_part rs) rs) (storage st)"
    unfolding rs(2) by (rule hooks_lawful) (rule hook_steps [OF _ step_validators], simp)
  then have "(lawful_step cfg F)\<^sup>*\<^sup>* rs (storage st)" by (simp add: put_chain_def)
  with reach.reach_init [where init = "runtime_genesis cfg F desired", OF rs(1)] show ?case
    by (rule reach_steps)
next
  case (reach_step st u)
  then show ?case by (blast intro: reach_steps block_lawful)
qed

lemma runtime_node_staking:
  "runtime_node_reachable cfg F L desired st \<Longrightarrow> node_reachable cfg L desired (staking_node st)"
proof (induction rule: reach.induct)
  case (reach_init st)
  then have "node_at_genesis cfg desired (staking_node st)"
    by (auto simp: runtime_node_at_genesis_def node_at_genesis_def runtime_genesis_def)
  then show ?case by (rule reach.reach_init)
next
  case (reach_step st u)
  then obtain b where "produce_runtime cfg F L b st = Some u" by (auto simp: lawful_block_step_def)
  then obtain b' where "produce cfg L b' (staking_node st) = Some (staking_node u)"
    using produce_runtime_view by blast
  with reach_step.IH show ?case by (rule produce_node_reach)
qed

section \<open>Properties\<close>

text \<open>A node of the runtime over the concrete bank, and a block with calls of both pallets.\<close>

definition vault_node :: "vault runtime_node" where
  "vault_node = \<lparr>storage = put_chain ((vault_chain [])\<lparr>validators := [1]\<rparr>) (vault_start (vault_chain [])),
     queued_keys = [1]\<rparr>"

definition vault_block :: "vault runtime_block" where
  "vault_block = \<lparr>block_slot = 1, keys_set = (\<lambda>_. True),
     body = [PalletExtrinsic (System (Signed 2)) (XodeStakingCall RegisterCandidate),
             PalletExtrinsic (System Root) (AccountFreezerCall (FreezeAccount 2)),
             PalletExtrinsic (System (Signed 2)) (XodeStakingCall (BondCandidate 100000000000000)),
             LibraryExtrinsic (\<lambda>m. m)]\<rparr>"

lemma vault_node_reachable: "runtime_node_reachable vault_config vault_freezer_config L [1] vault_node"
proof (rule reach_init)
  have "runtime_genesis vault_config vault_freezer_config [1] (vault_start (vault_chain []))"
    by (auto simp: runtime_genesis_def at_genesis_def genesis_build_def freezer_genesis_def
        vault_chain_def vault_start_def empty_chain_def)
  then show "runtime_node_at_genesis vault_config vault_freezer_config [1] vault_node"
    unfolding runtime_node_at_genesis_def vault_node_def
    by (intro conjI exI [of _ "vault_start (vault_chain [])"]) (simp_all add: vault_start_def)
qed

lemma vault_block_lawful: "lawful_block vault_config vault_freezer_config L vault_block vault_node"
  by (simp add: lawful_block_def vault_block_def admissible_def Let_def split: option.split)

lemma vault_lib: "lawful_codec vault_config"
  "lawful_session_lib runtime_session_config (periodic_lib SessionPeriod)"
  using runtime_codec periodic_lawful [of SessionPeriod] by (simp_all add: vault_config_def runtime_sessions)

lemma vault_node_number: "block_number (staking_part (storage vault_node)) = 0"
  by (simp add: vault_node_def vault_chain_def empty_chain_def)

text \<open>C5: blocks of the whole runtime are safe. From every node that lawful blocks reach, a
  lawful block does not fail, and after it the staking storage is well formed, every
  account's bond and stakes are covered by its reserve, and an account without an entry in
  \<open>Frozen\<close> has nothing frozen under the freezer's reason.\<close>

theorem runtime_blocks_sound:
  assumes "runtime_currency (currency cfg) (freeze_currency F)"
    and "lawful_codec cfg" and "lawful_session_lib K L"
    and "runtime_node_reachable cfg F L desired st"
    and "lawful_block cfg F L b st" and "block_number (staking_part (storage st)) + 1 \<noteq> 0"
  shows "\<exists>u. produce_runtime cfg F L b st = Some u \<and> staking_inv cfg desired (staking_part (storage u)) \<and>
    (\<forall>a. claims (staking_part (storage u)) a
         \<le> unat (reserved_balance (currency cfg) (bank (staking_part (storage u))) a) \<and>
       (listed (storage u) a \<noteq> None \<or>
        balance_frozen (freeze_currency F) (bank (staking_part (storage u)))
          (runtime_reason F AccountFrozen) a = 0))"
proof -
  have prod: "block_production cfg K L" and joint: "joint_runtime cfg F"
    using assms(1-3) by (auto intro: block_production.intro joint_runtime.intro)
  obtain t where t: "begin_block cfg L (staking_block b []) (staking_node st) = Some t"
    using block_production.begin_block_total [OF prod block_production.node_inv_reach
        [OF prod runtime_node_staking [OF assms(4)]], of "staking_block b []"] assms(6)
    by auto
  obtain rs where "run_runtime_extrinsics cfg F (body b) (put_chain (on_chain t) (storage st)) = Some rs"
    using runtime_body_total [OF assms(2)] by blast
  with t obtain u where u: "produce_runtime cfg F L b st = Some u"
    by (simp add: produce_runtime_def)
  have "runtime_node_reachable cfg F L desired u"
    using assms(4) by (rule reach_step) (use u assms(5) in \<open>auto simp: lawful_block_step_def\<close>)
  from joint_runtime.joint_reach [OF joint runtime_node_joint [OF this]] u show ?thesis
    by (auto simp: runtime_inv_def backed_def freezer_inv_def contains_key_def)
qed

theorem runtime_blocks_sound_witness:
  "\<exists>u. produce_runtime vault_config vault_freezer_config (periodic_lib SessionPeriod) vault_block vault_node = Some u \<and>
     staking_inv vault_config [1] (staking_part (storage u)) \<and>
     claims (staking_part (storage u)) 2 \<le> unat (l_reserved (bank (staking_part (storage u))) 2)"
proof -
  have "block_number (staking_part (storage vault_node)) + 1 \<noteq> 0" by (simp add: vault_node_number)
  from runtime_blocks_sound [OF xode.bank_laws vault_lib vault_node_reachable vault_block_lawful this]
  show ?thesis by auto
qed

end
