(* ===== verification/Fallible.thy ===== *)
theory Fallible
  imports Prelude
begin

text \<open>
  Rust's \<open>Result\<close> in the node's straight-line code: the \<open>?\<close> operator, which returns the
  first error, and the conversions \<open>ok_or_else\<close>, \<open>transpose\<close> and \<open>expect\<close>. The
  lemmas say when a chain of \<open>?\<close> succeeds and which error it returns.
\<close>

definition and_then :: "'e + 'a \<Rightarrow> ('a \<Rightarrow> 'e + 'b) \<Rightarrow> 'e + 'b" where
  "and_then r f = (case r of Inl e \<Rightarrow> Inl e | Inr x \<Rightarrow> f x)"

definition ok_or :: "'e \<Rightarrow> 'a option \<Rightarrow> 'e + 'a" where
  "ok_or e x = (case x of None \<Rightarrow> Inl e | Some y \<Rightarrow> Inr y)"

text \<open>\<open>Option<Result<T, E>>::transpose\<close>.\<close>

definition transpose_result :: "('e + 'a) option \<Rightarrow> 'e + 'a option" where
  "transpose_result x = (case x of None \<Rightarrow> Inr None | Some r \<Rightarrow> map_sum id Some r)"

text \<open>\<open>result.ok()\<close>.\<close>

definition ok :: "'e + 'a \<Rightarrow> 'a option" where
  "ok r = (case r of Inl _ \<Rightarrow> None | Inr x \<Rightarrow> Some x)"

lemma and_then_simps [simp]: "and_then (Inl e) f = Inl e" "and_then (Inr x) f = f x"
  by (simp_all add: and_then_def)

lemma and_then_Inr: "and_then r f = Inr y \<longleftrightarrow> (\<exists>x. r = Inr x \<and> f x = Inr y)"
  by (cases r) simp_all

lemma and_then_Inl: "and_then r f = Inl e \<longleftrightarrow> r = Inl e \<or> (\<exists>x. r = Inr x \<and> f x = Inl e)"
  by (cases r) simp_all

lemma and_then_assoc: "and_then (and_then r f) g = and_then r (\<lambda>x. and_then (f x) g)"
  by (cases r) simp_all

lemma and_then_cong [fundef_cong]:
  "r = r' \<Longrightarrow> (\<And>x. r' = Inr x \<Longrightarrow> f x = g x) \<Longrightarrow> and_then r f = and_then r' g"
  by (cases r') simp_all

lemma ok_or_Inr [simp]: "ok_or e x = Inr y \<longleftrightarrow> x = Some y"
  by (cases x) (auto simp: ok_or_def)

lemma ok_or_simps [simp]: "ok_or e None = Inl e" "ok_or e (Some y) = Inr y"
  by (simp_all add: ok_or_def)

lemma transpose_result_simps [simp]:
  "transpose_result None = Inr None"
  "transpose_result (Some (Inl e)) = Inl e"
  "transpose_result (Some (Inr x)) = Inr (Some x)"
  by (simp_all add: transpose_result_def)

lemma transpose_result_Inr:
  "transpose_result x = Inr y \<longleftrightarrow> (x = None \<and> y = None) \<or> (\<exists>z. x = Some (Inr z) \<and> y = Some z)"
  by (cases x; cases "the x") (auto simp: transpose_result_def)

lemma ok_simps [simp]: "ok (Inl e) = None" "ok (Inr x) = Some x"
  by (simp_all add: ok_def)

lemma isl_and_then: "isl (and_then r f) \<longleftrightarrow> isl r \<or> isl (f (projr r))"
  by (cases r) simp_all

end
