(* ===== verification/Runtime_Api.thy ===== *)
theory Runtime_Api
  imports Runtime_Library Fallible
begin

text \<open>
  The runtime APIs (\<open>runtime/src/apis.rs\<close>): what the node may ask the runtime. Most
  functions forward to a pallet or to the executive, which are a record of library
  functions over the storage \<open>'s\<close>; blocks, headers, extrinsics and other opaque data are
  of type \<open>'h\<close>. What this repository decides is which function answers which question, the
  two equivocation reports that are never made, the benchmarks that are offered, and the
  genesis presets. \<open>None\<close> as the outcome of a state change is a panic.
\<close>

section \<open>The library behind the APIs\<close>

record ('s, 'h) api_lib =
  exec_execute_block :: "'h \<Rightarrow> 's \<Rightarrow> 's option"
  exec_initialize_block :: "'h \<Rightarrow> 's \<Rightarrow> 'h \<times> 's"
  exec_apply_extrinsic :: "'h \<Rightarrow> 's \<Rightarrow> 'h \<times> 's"
  exec_finalize_block :: "'s \<Rightarrow> 'h \<times> 's"
  exec_validate_transaction :: "'h \<Rightarrow> 'h \<Rightarrow> 'h \<Rightarrow> 's \<Rightarrow> 'h"
  exec_offchain_worker :: "'h \<Rightarrow> 's \<Rightarrow> 's"
  exec_try_runtime_upgrade :: "'h \<Rightarrow> 's \<Rightarrow> 'h option"
  exec_try_execute_block :: "'h \<Rightarrow> bool \<Rightarrow> bool \<Rightarrow> 'h \<Rightarrow> 's \<Rightarrow> 'h option"
  metadata_prefixed :: 'h
  opaque_metadata :: "'h \<Rightarrow> 'h"
  runtime_metadata_at_version :: "u32 \<Rightarrow> 'h option"
  runtime_metadata_versions :: "u32 list"
  runtime_execute_view_function :: "'h \<Rightarrow> u8 list \<Rightarrow> 's \<Rightarrow> 'h + u8 list"
  create_extrinsics :: "'h \<Rightarrow> 'h list"
  check_extrinsics :: "'h \<Rightarrow> 'h \<Rightarrow> 'h"
  aura_authorities :: "'s \<Rightarrow> 'h list"
  session_keys_generate :: "u8 list option \<Rightarrow> u8 list"
  session_keys_decode :: "u8 list \<Rightarrow> (u8 list \<times> u32) list option"
  pallet_grandpa_authorities :: "'s \<Rightarrow> 'h list"
  grandpa_current_set_id :: "'s \<Rightarrow> u64"
  system_account_nonce :: "account_id \<Rightarrow> 's \<Rightarrow> u32"
  payment_query_info :: "'h \<Rightarrow> u32 \<Rightarrow> 's \<Rightarrow> 'h"
  payment_query_fee_details :: "'h \<Rightarrow> u32 \<Rightarrow> 's \<Rightarrow> 'h"
  payment_query_call_info :: "'h \<Rightarrow> u32 \<Rightarrow> 's \<Rightarrow> 'h"
  payment_query_call_fee_details :: "'h \<Rightarrow> u32 \<Rightarrow> 's \<Rightarrow> 'h"
  payment_weight_to_fee :: "'h \<Rightarrow> balance"
  payment_length_to_fee :: "u32 \<Rightarrow> balance"
  list_benchmark :: "bool \<Rightarrow> string \<times> string \<Rightarrow> 'h"
  all_storage_info :: "'h list"
  whitelisted_storage_keys :: "'h list"
  run_benchmark :: "'h \<Rightarrow> 'h list \<Rightarrow> string \<times> string \<Rightarrow> 's \<Rightarrow> string + 'h list"
  genesis_build_state :: "u8 list \<Rightarrow> 's \<Rightarrow> string + 's"
  genesis_default :: "u8 list"

section \<open>Core and metadata\<close>

definition version :: "'api \<Rightarrow> 'api runtime_version" where
  "version apis = VERSION apis"

definition execute_block :: "('s, 'h) api_lib \<Rightarrow> 'h \<Rightarrow> 's \<Rightarrow> 's option" where
  "execute_block A block = exec_execute_block A block"

definition initialize_block :: "('s, 'h) api_lib \<Rightarrow> 'h \<Rightarrow> 's \<Rightarrow> 'h \<times> 's" where
  "initialize_block A header = exec_initialize_block A header"

definition metadata :: "('s, 'h) api_lib \<Rightarrow> 'h" where
  "metadata A = opaque_metadata A (metadata_prefixed A)"

definition metadata_at_version :: "('s, 'h) api_lib \<Rightarrow> u32 \<Rightarrow> 'h option" where
  "metadata_at_version A v = runtime_metadata_at_version A v"

definition metadata_versions :: "('s, 'h) api_lib \<Rightarrow> u32 list" where
  "metadata_versions A = runtime_metadata_versions A"

definition execute_view_function :: "('s, 'h) api_lib \<Rightarrow> 'h \<Rightarrow> u8 list \<Rightarrow> 's \<Rightarrow> 'h + u8 list" where
  "execute_view_function A i input = runtime_execute_view_function A i input"

section \<open>Blocks and transactions\<close>

definition apply_extrinsic :: "('s, 'h) api_lib \<Rightarrow> 'h \<Rightarrow> 's \<Rightarrow> 'h \<times> 's" where
  "apply_extrinsic A xt = exec_apply_extrinsic A xt"

definition finalize_block :: "('s, 'h) api_lib \<Rightarrow> 's \<Rightarrow> 'h \<times> 's" where
  "finalize_block A = exec_finalize_block A"

definition inherent_extrinsics :: "('s, 'h) api_lib \<Rightarrow> 'h \<Rightarrow> 'h list" where
  "inherent_extrinsics A data = create_extrinsics A data"

definition check_inherents :: "('s, 'h) api_lib \<Rightarrow> 'h \<Rightarrow> 'h \<Rightarrow> 'h" where
  "check_inherents A block data = check_extrinsics A data block"

definition validate_transaction :: "('s, 'h) api_lib \<Rightarrow> 'h \<Rightarrow> 'h \<Rightarrow> 'h \<Rightarrow> 's \<Rightarrow> 'h" where
  "validate_transaction A source tx block_hash = exec_validate_transaction A source tx block_hash"

definition offchain_worker :: "('s, 'h) api_lib \<Rightarrow> 'h \<Rightarrow> 's \<Rightarrow> 's" where
  "offchain_worker A header = exec_offchain_worker A header"

section \<open>Consensus and session keys\<close>

definition slot_duration :: u64 where
  "slot_duration = aura_slot_millis runtime_aura"

definition authorities :: "('s, 'h) api_lib \<Rightarrow> 's \<Rightarrow> 'h list" where
  "authorities A s = aura_authorities A s"

definition generate_session_keys :: "('s, 'h) api_lib \<Rightarrow> u8 list option \<Rightarrow> u8 list" where
  "generate_session_keys A seed = session_keys_generate A seed"

definition decode_session_keys ::
    "('s, 'h) api_lib \<Rightarrow> u8 list \<Rightarrow> (u8 list \<times> u32) list option" where
  "decode_session_keys A encoded = session_keys_decode A encoded"

definition grandpa_authorities :: "('s, 'h) api_lib \<Rightarrow> 's \<Rightarrow> 'h list" where
  "grandpa_authorities A s = pallet_grandpa_authorities A s"

definition current_set_id :: "('s, 'h) api_lib \<Rightarrow> 's \<Rightarrow> u64" where
  "current_set_id A s = grandpa_current_set_id A s"

definition submit_report_equivocation_unsigned_extrinsic :: "'h \<Rightarrow> 'h \<Rightarrow> unit option" where
  "submit_report_equivocation_unsigned_extrinsic equivocation_proof key_owner_proof = None"

definition generate_key_ownership_proof :: "u64 \<Rightarrow> 'h \<Rightarrow> 'h option" where
  "generate_key_ownership_proof set_id authority_id = None"

section \<open>Accounts and fees\<close>

definition account_nonce :: "('s, 'h) api_lib \<Rightarrow> account_id \<Rightarrow> 's \<Rightarrow> u32" where
  "account_nonce A account = system_account_nonce A account"

definition query_info :: "('s, 'h) api_lib \<Rightarrow> 'h \<Rightarrow> u32 \<Rightarrow> 's \<Rightarrow> 'h" where
  "query_info A uxt len = payment_query_info A uxt len"

definition query_fee_details :: "('s, 'h) api_lib \<Rightarrow> 'h \<Rightarrow> u32 \<Rightarrow> 's \<Rightarrow> 'h" where
  "query_fee_details A uxt len = payment_query_fee_details A uxt len"

definition query_weight_to_fee :: "('s, 'h) api_lib \<Rightarrow> 'h \<Rightarrow> balance" where
  "query_weight_to_fee A weight = payment_weight_to_fee A weight"

definition query_length_to_fee :: "('s, 'h) api_lib \<Rightarrow> u32 \<Rightarrow> balance" where
  "query_length_to_fee A len = payment_length_to_fee A len"

definition query_call_info :: "('s, 'h) api_lib \<Rightarrow> 'h \<Rightarrow> u32 \<Rightarrow> 's \<Rightarrow> 'h" where
  "query_call_info A call len = payment_query_call_info A call len"

definition query_call_fee_details :: "('s, 'h) api_lib \<Rightarrow> 'h \<Rightarrow> u32 \<Rightarrow> 's \<Rightarrow> 'h" where
  "query_call_fee_details A call len = payment_query_call_fee_details A call len"

text \<open>The API of fees for calls answers the two questions about weight and length again.\<close>

definition call_query_weight_to_fee :: "('s, 'h) api_lib \<Rightarrow> 'h \<Rightarrow> balance" where
  "call_query_weight_to_fee A weight = payment_weight_to_fee A weight"

definition call_query_length_to_fee :: "('s, 'h) api_lib \<Rightarrow> u32 \<Rightarrow> balance" where
  "call_query_length_to_fee A len = payment_length_to_fee A len"

section \<open>Benchmarks and try-runtime\<close>

text \<open>\<open>define_benchmarks!\<close> (\<open>runtime/src/benchmarks.rs\<close>): the benchmarked crates with the
  type that implements them.\<close>

definition benchmarks :: "(string \<times> string) list" where
  "benchmarks =
     [(''frame_benchmarking'', ''BaselineBench::<Runtime>''),
      (''frame_system'', ''SystemBench::<Runtime>''),
      (''frame_system_extensions'', ''SystemExtensionsBench::<Runtime>''),
      (''pallet_balances'', ''Balances''), (''pallet_timestamp'', ''Timestamp''),
      (''pallet_sudo'', ''Sudo''), (''pallet_xode_account_freezer'', ''AccountFreezer''),
      (''pallet_collective'', ''TechnicalCommittee''),
      (''pallet_membership'', ''TechnicalCommitteeMembership''), (''pallet_whitelist'', ''Whitelist'')]"

definition benchmark_metadata :: "('s, 'h) api_lib \<Rightarrow> bool \<Rightarrow> 'h list \<times> 'h list" where
  "benchmark_metadata A extra = (map (list_benchmark A extra) benchmarks, all_storage_info A)"

fun add_benchmarks ::
    "('s, 'h) api_lib \<Rightarrow> 'h \<Rightarrow> 'h list \<Rightarrow> (string \<times> string) list \<Rightarrow> 's \<Rightarrow> string + 'h list" where
  "add_benchmarks A config whitelist [] s = Inr []"
| "add_benchmarks A config whitelist (b # bs) s =
     and_then (run_benchmark A config whitelist b s) (\<lambda>batch.
     and_then (add_benchmarks A config whitelist bs s) (\<lambda>batches. Inr (batch @ batches)))"

definition dispatch_benchmark :: "('s, 'h) api_lib \<Rightarrow> 'h \<Rightarrow> 's \<Rightarrow> string + 'h list" where
  "dispatch_benchmark A config s =
     add_benchmarks A config (whitelisted_storage_keys A) benchmarks s"

text \<open>The two unwraps of try-runtime panic: \<open>None\<close>.\<close>

definition on_runtime_upgrade ::
    "('s, 'h) api_lib \<Rightarrow> ('h, 'b, 'l) limits_lib \<Rightarrow> 'h \<Rightarrow> 's \<Rightarrow> ('h \<times> 'h) option" where
  "on_runtime_upgrade A L checks s =
     map_option (\<lambda>weight. (weight, max_block L (RuntimeBlockWeights L)))
       (exec_try_runtime_upgrade A checks s)"

definition try_execute_block ::
    "('s, 'h) api_lib \<Rightarrow> 'h \<Rightarrow> bool \<Rightarrow> bool \<Rightarrow> 'h \<Rightarrow> 's \<Rightarrow> 'h option" where
  "try_execute_block A block state_root_check signature_check select s =
     exec_try_execute_block A block state_root_check signature_check select s"

section \<open>Genesis\<close>

definition build_state :: "('s, 'h) api_lib \<Rightarrow> u8 list \<Rightarrow> 's \<Rightarrow> string + 's" where
  "build_state A config s = genesis_build_state A config s"

text \<open>The library's \<open>get_preset\<close> helper answers the default configuration when no preset is
  named, and the given function otherwise. The outer \<open>None\<close> is a panic.\<close>

definition api_get_preset ::
    "('s, 'h) api_lib \<Rightarrow> ('a, 'g) preset_env \<Rightarrow> ('k, 'a, 'g) keyring \<Rightarrow> string option \<Rightarrow>
     u8 list option option" where
  "api_get_preset A E K i =
     (case i of None \<Rightarrow> Some (Some (genesis_default A)) | Some name \<Rightarrow> get_preset E K name)"

definition api_preset_names :: "('a, 'g) preset_env \<Rightarrow> string list" where
  "api_preset_names E = preset_names E"

section \<open>Facts\<close>

text \<open>A block's slot is its time in units of two seconds.\<close>

lemma slot_duration_two_seconds: "slot_duration = 2000"
  by (simp add: slot_duration_def runtime_aura_def constant_defs)

text \<open>Both fee APIs answer the same.\<close>

lemma fee_apis_agree:
  "call_query_weight_to_fee A = query_weight_to_fee A"
  "call_query_length_to_fee A = query_length_to_fee A"
  by (simp_all add: fun_eq_iff call_query_weight_to_fee_def query_weight_to_fee_def
      call_query_length_to_fee_def query_length_to_fee_def)

text \<open>Every listed preset name resolves.\<close>

lemma listed_preset_resolves:
  assumes "name \<in> set (api_preset_names E)"
  shows "\<exists>json. api_get_preset A E K (Some name) = Some (Some json)"
proof -
  have "\<exists>dev loc. development_config_genesis K = Some dev \<and> local_config_genesis K = Some loc"
    by (simp add: development_config_genesis_def local_config_genesis_def testnet_genesis_def Let_def)
  with assms show ?thesis
    by (auto simp: api_get_preset_def api_preset_names_def preset_names_def get_preset_def)
qed

end
