(* ===== verification/Freezer_Benchmarks.thy ===== *)
theory Freezer_Benchmarks
  imports Governance
begin

text \<open>
  The benchmarks of the freezer pallet (\<open>pallets/account-freezer/src/benchmarking.rs\<close>):
  each prepares the storage and then makes the measured call as Root. \<open>None\<close> is the panic
  of an \<open>unwrap\<close> or of a measured call that fails. The lemmas show that the four
  benchmarks run to their end, and on which branch of the pallet.
\<close>

definition completes :: "('a, 'b, 'c) freezer_result \<Rightarrow> ('a, 'b, 'c) freezer option" where
  "completes r = (case r of (Inl _, _) \<Rightarrow> None | (Inr _, s) \<Rightarrow> Some s)"

definition bench_freeze_account ::
    "('c, 'i) runtime_freezer_config \<Rightarrow> account_id \<Rightarrow> 'c runtime_freezer \<Rightarrow> 'c runtime_freezer option" where
  "bench_freeze_account cfg caller s =
     completes (freezer_dispatch cfg (System Root) (FreezeAccount caller) s)"

definition bench_freeze_amount ::
    "('c, 'i) runtime_freezer_config \<Rightarrow> account_id \<Rightarrow> 'c runtime_freezer \<Rightarrow> 'c runtime_freezer option" where
  "bench_freeze_amount cfg caller s =
     (let amount = - 1 in completes (freezer_dispatch cfg (System Root) (FreezeAmount caller amount) s))"

definition bench_thaw_account ::
    "('c, 'i) runtime_freezer_config \<Rightarrow> account_id \<Rightarrow> 'c runtime_freezer \<Rightarrow> 'c runtime_freezer option" where
  "bench_thaw_account cfg caller s =
     Option.bind (completes (freezer_dispatch cfg (System Root) (FreezeAccount caller) s)) (\<lambda>t.
       completes (freezer_dispatch cfg (System Root) (ThawAccount caller) t))"

definition bench_thaw_amount ::
    "('c, 'i) runtime_freezer_config \<Rightarrow> account_id \<Rightarrow> 'c runtime_freezer \<Rightarrow> 'c runtime_freezer option" where
  "bench_thaw_amount cfg caller s =
     (let amount = - 1 in
      Option.bind (completes (freezer_dispatch cfg (System Root) (FreezeAmount caller amount) s)) (\<lambda>t.
        completes (freezer_dispatch cfg (System Root) (ThawAmount caller amount) t)))"

lemma completes_Inr [simp]: "completes r = Some s \<longleftrightarrow> (\<exists>u. r = (Inr u, s))"
  by (cases r; cases "fst r") (auto simp: completes_def)

text \<open>With Root allowed and a currency that does not refuse, a freeze of an unlisted account and
  a thaw of a listed one succeed.\<close>

locale willing_backend = freezer_backend cfg
  for cfg :: "('c, 'i) runtime_freezer_config" +
  assumes root_allowed: "freeze_origin cfg (System Root)"
    and freezes: "\<exists>m'. set_freeze (freeze_currency cfg) m i a v = Inr m'"
    and thaws: "\<exists>m'. thaw (freeze_currency cfg) m i a = Inr m'"
begin

lemma freeze_succeeds:
  assumes "\<not> contains_key a s"
  shows "\<exists>t. freezer_dispatch cfg (System Root) (FreezeAmount a v) s = (Inr (), t) \<and>
      book_of cfg t = (book_of cfg s)(a := Some v)"
    and "\<exists>t. freezer_dispatch cfg (System Root) (FreezeAccount a) s = (Inr (), t) \<and>
      book_of cfg t = (book_of cfg s)(a := Some (- 1))"
proof -
  have absent: "book_of cfg s a = None" using assms by (simp add: book_of_def)
  obtain t where t: "freezer_dispatch cfg (System Root) (FreezeAmount a v) s = (Inr (), t)"
    using assms root_allowed freezes [of "freezer_bank s" "runtime_reason cfg AccountFrozen" a v]
    by (auto simp: freezer_dispatch_def freeze_amount_def)
  from dispatch_book [OF this] t absent
  show "\<exists>t. freezer_dispatch cfg (System Root) (FreezeAmount a v) s = (Inr (), t) \<and>
      book_of cfg t = (book_of cfg s)(a := Some v)" by auto
  obtain t where t: "freezer_dispatch cfg (System Root) (FreezeAccount a) s = (Inr (), t)"
    using assms root_allowed freezes [of "freezer_bank s" "runtime_reason cfg AccountFrozen" a "- 1"]
    by (auto simp: freezer_dispatch_def freeze_account_def)
  from dispatch_book [OF this] t absent
  show "\<exists>t. freezer_dispatch cfg (System Root) (FreezeAccount a) s = (Inr (), t) \<and>
      book_of cfg t = (book_of cfg s)(a := Some (- 1))" by auto
qed

lemma thaw_succeeds:
  assumes "book_of cfg s a = Some v"
  shows "\<exists>t. freezer_dispatch cfg (System Root) (ThawAmount a v) s = (Inr (), t) \<and>
      book_of cfg t = (book_of cfg s)(a := None)"
    and "\<exists>t. freezer_dispatch cfg (System Root) (ThawAccount a) s = (Inr (), t) \<and>
      book_of cfg t = (book_of cfg s)(a := None)"
proof -
  have listed: "contains_key a s" "balance_frozen (freeze_currency cfg) (freezer_bank s)
      (runtime_reason cfg AccountFrozen) a = v"
    using assms by (auto simp: book_of_def split: if_splits)
  note refuse = thaws [of "freezer_bank s" "runtime_reason cfg AccountFrozen" a]
  obtain t where t: "freezer_dispatch cfg (System Root) (ThawAmount a v) s = (Inr (), t)"
    using listed root_allowed refuse
    by (auto simp: freezer_dispatch_def thaw_amount_def Let_def)
  from dispatch_book [OF this] t assms
  show "\<exists>t. freezer_dispatch cfg (System Root) (ThawAmount a v) s = (Inr (), t) \<and>
      book_of cfg t = (book_of cfg s)(a := None)" by auto
  obtain t where t: "freezer_dispatch cfg (System Root) (ThawAccount a) s = (Inr (), t)"
    using listed root_allowed refuse by (auto simp: freezer_dispatch_def thaw_account_def)
  from dispatch_book [OF this] t assms
  show "\<exists>t. freezer_dispatch cfg (System Root) (ThawAccount a) s = (Inr (), t) \<and>
      book_of cfg t = (book_of cfg s)(a := None)" by auto
qed

text \<open>All four benchmarks complete on an unlisted caller; the two thaws leave the account book
  as they found it.\<close>

lemma benchmarks_complete:
  assumes "\<not> contains_key a s"
  shows "(\<exists>t. bench_freeze_account cfg a s = Some t) \<and> (\<exists>t. bench_freeze_amount cfg a s = Some t) \<and>
    (\<exists>t. bench_thaw_account cfg a s = Some t \<and> book_of cfg t = book_of cfg s) \<and>
    (\<exists>t. bench_thaw_amount cfg a s = Some t \<and> book_of cfg t = book_of cfg s)"
proof -
  have absent: "book_of cfg s a = None" using assms by (simp add: book_of_def)
  obtain t where t: "freezer_dispatch cfg (System Root) (FreezeAmount a (- 1)) s = (Inr (), t)"
    "book_of cfg t = (book_of cfg s)(a := Some (- 1))" using freeze_succeeds(1) [OF assms] by blast
  obtain u where u: "freezer_dispatch cfg (System Root) (FreezeAccount a) s = (Inr (), u)"
    "book_of cfg u = (book_of cfg s)(a := Some (- 1))" using freeze_succeeds(2) [OF assms] by blast
  from t(2) u(2) absent thaw_succeeds(1) [of t a "- 1"] thaw_succeeds(2) [of u a "- 1"]
  show ?thesis
    by (auto simp: bench_freeze_account_def bench_freeze_amount_def bench_thaw_account_def
        bench_thaw_amount_def t(1) u(1) completes_def fun_upd_idem)
qed

end

text \<open>The runtime's configuration of the freezer, over the documented gates and a freeze book.\<close>

interpretation runtime_benches: willing_backend "xode_freezer_config doc_gates book_ops reason"
  for reason :: "freeze_reason \<Rightarrow> 'i"
  by unfold_locales
    (simp_all add: xode_freezer_config_def freezer_freeze_origin_def RootOrTwoThirdsTechnicalCommittee_def
      doc_gates_def)

end
