(* ===== verification/Freezer_Mock.thy ===== *)
theory Freezer_Mock
  imports Freezer Genesis
begin

text \<open>
  The mock runtime of the freezer's tests (\<open>pallets/account-freezer/src/mock.rs\<close>): three
  pallets over 64-bit accounts and balances, their configurations, and the genesis state
  \<open>new_test_ext\<close>. The mock's balances pallet is a library: it is a record of the operations
  the tests use, whose documented behaviour is the locale \<open>balances_pallet\<close>; \<open>purse_lib\<close> is
  a concrete bank that satisfies it.
\<close>

section \<open>The mock's pallets and configurations\<close>

definition test_pallets :: "(nat \<times> pallet) list" where
  "test_pallets = [(0, SystemPallet), (1, BalancesPallet), (2, AccountFreezerPallet)]"

text \<open>\<open>RuntimeFreezeReason\<close> is derived from the pallets above: of the three only the freezer
  contributes a reason. \<open>VariantCountOf\<close> counts its variants.\<close>

datatype test_freeze_reason = AccountFreezerReason freeze_reason

definition test_freeze_reasons :: "test_freeze_reason list" where
  "test_freeze_reasons = [AccountFreezerReason AccountFrozen]"

record mock_balances_config =
  mock_account_store :: pallet
  mock_max_freezes :: u32

definition test_balances :: mock_balances_config where
  "test_balances = \<lparr>mock_account_store = SystemPallet,
     mock_max_freezes = of_nat (length test_freeze_reasons)\<rparr>"

lemma test_balances_sel [simp]:
  "mock_account_store test_balances = SystemPallet" "mock_max_freezes test_balances = 1"
  by (simp_all add: test_balances_def test_freeze_reasons_def)

lemma all_test_reasons: "r = AccountFreezerReason AccountFrozen"
  by (cases r, rename_tac f, case_tac f) simp

section \<open>The library's balances pallet\<close>

text \<open>\<open>Preservation\<close> and \<open>TokenError\<close> of the library. \<open>transfer_funds\<close> is \<open>Mutate::transfer\<close>;
  \<open>freezes_with\<close> are the freeze operations under a bound \<open>MaxFreezes\<close>.\<close>

datatype preservation = Expendable | Protect | Preserve

datatype token_error =
    FundsUnavailable | OnlyProvider | BelowMinimum | CannotCreate | UnknownAsset | Frozen
  | Unsupported | CannotCreateHold | NotExpendable | Blocked

datatype transfer_error = TokenError token_error | OtherTransferError nat

record 'c balances_lib =
  minimum_balance :: u64
  funds :: "'c \<Rightarrow> u64 \<Rightarrow> u64"
  on_hold :: "'c \<Rightarrow> u64 \<Rightarrow> u64"
  freezes_with :: "u32 \<Rightarrow> (u64, u64, 'c, test_freeze_reason) freeze_ops"
  transfer_funds :: "'c \<Rightarrow> u64 \<Rightarrow> u64 \<Rightarrow> u64 \<Rightarrow> preservation \<Rightarrow> transfer_error + 'c"
  genesis_balances :: "(u64 \<times> u64) list \<Rightarrow> 'c"

text \<open>The documented contract. A freeze is accepted on an existing account as long as the other
  reasons leave room under \<open>MaxFreezes\<close>. Freezes apply to the total balance and each other's
  maximum counts: a transfer that would leave an account without holds less than one of its
  freezes is refused as \<open>Frozen\<close>, and one that leaves all of them, keeps the source alive and
  goes to an existing account that can take it, is accepted. An accepted transfer moves money
  the source has and nothing else; with an existential deposit of one it leaves no dust.
  Genesis endows the accounts it lists and freezes nothing.\<close>

locale balances_pallet =
  fixes B :: "'c balances_lib" and n :: u32
  assumes freezing: "freezable_currency (freezes_with B n)"
    and existential_deposit: "minimum_balance B = 1"
    and freeze_has_room: "minimum_balance B \<le> funds B m a \<Longrightarrow>
      length (filter (\<lambda>j. j \<noteq> i \<and> balance_frozen (freezes_with B n) m j a \<noteq> 0) test_freeze_reasons)
        < unat n \<Longrightarrow>
      \<exists>m'. set_freeze (freezes_with B n) m i a v = Inr m'"
    and thaw_succeeds: "minimum_balance B \<le> funds B m a \<Longrightarrow>
      \<exists>m'. thaw (freezes_with B n) m i a = Inr m'"
    and freeze_keeps_funds: "set_freeze (freezes_with B n) m i a v = Inr m' \<Longrightarrow>
      funds B m' = funds B m \<and> on_hold B m' = on_hold B m"
    and thaw_keeps_funds: "thaw (freezes_with B n) m i a = Inr m' \<Longrightarrow>
      funds B m' = funds B m \<and> on_hold B m' = on_hold B m"
    and transfer_frozen: "v \<noteq> 0 \<Longrightarrow> v \<le> funds B m a \<Longrightarrow> on_hold B m a = 0 \<Longrightarrow>
      funds B m a - v < balance_frozen (freezes_with B n) m i a \<Longrightarrow>
      transfer_funds B m a b v keep = Inl (TokenError Frozen)"
    and transfer_accepted: "a \<noteq> b \<Longrightarrow> v \<le> funds B m a \<Longrightarrow> on_hold B m a = 0 \<Longrightarrow>
      minimum_balance B \<le> funds B m a - v \<Longrightarrow>
      (\<And>i. balance_frozen (freezes_with B n) m i a \<le> funds B m a - v) \<Longrightarrow>
      minimum_balance B \<le> funds B m b \<Longrightarrow> unat (funds B m b) + unat v < 2 ^ 64 \<Longrightarrow>
      \<exists>m'. transfer_funds B m a b v keep = Inr m'"
    and transfer_effect: "transfer_funds B m a b v keep = Inr m' \<Longrightarrow>
      v \<le> funds B m a \<and> (a \<noteq> b \<longrightarrow> unat (funds B m b) + unat v < 2 ^ 64) \<and>
      funds B m' = (if a = b then funds B m
        else (funds B m)(a := funds B m a - v, b := funds B m b + v))"
    and transfer_keeps_freezes: "transfer_funds B m a b v keep = Inr m' \<Longrightarrow>
      balance_frozen (freezes_with B n) m' i c = balance_frozen (freezes_with B n) m i c \<and>
      on_hold B m' c = on_hold B m c"
    and genesis_funds: "distinct (map fst bs) \<Longrightarrow> list_all (\<lambda>(a, v). minimum_balance B \<le> v) bs \<Longrightarrow>
      sum_list (map (unat \<circ> snd) bs) < 2 ^ 64 \<Longrightarrow>
      funds B (genesis_balances B bs) a = (case map_of bs a of None \<Rightarrow> 0 | Some v \<Rightarrow> v)"
    and genesis_unfrozen: "balance_frozen (freezes_with B n) (genesis_balances B bs) i a = 0 \<and>
      on_hold B (genesis_balances B bs) a = 0"

sublocale balances_pallet \<subseteq> freezable_currency "freezes_with B n"
  by (rule freezing)

section \<open>The freezer in the mock runtime\<close>

type_synonym 'c test_freezer_config =
  "(u64 raw_origin, u64, u64, 'c, test_freeze_reason) freezer_config"
type_synonym 'c test_storage = "(u64, u64, 'c) freezer"

definition test_freezer_config :: "'c balances_lib \<Rightarrow> 'c test_freezer_config" where
  "test_freezer_config B =
     \<lparr>freeze_currency = freezes_with B (mock_max_freezes test_balances),
      runtime_reason = AccountFreezerReason,
      freeze_origin = (\<lambda>org. org = Root)\<rparr>"

definition new_test_ext :: "'c balances_lib \<Rightarrow> 'c test_storage" where
  "new_test_ext B =
     \<lparr>frozen_map = (\<lambda>_. None),
      freezer_bank = genesis_balances B [(1, 1000000), (2, 1000000)],
      freezer_events = []\<rparr>"

lemma test_freezer_config_sel [simp]:
  "freeze_currency (test_freezer_config B) = freezes_with B 1"
  "runtime_reason (test_freezer_config B) = AccountFreezerReason"
  "freeze_origin (test_freezer_config B) org \<longleftrightarrow> org = Root"
  by (simp_all add: test_freezer_config_def)

section \<open>A concrete bank\<close>

record purse =
  p_funds :: "u64 \<Rightarrow> u64"
  p_frozen :: "test_freeze_reason \<Rightarrow> u64 \<Rightarrow> u64"

definition purse_freezes :: "u32 \<Rightarrow> (u64, u64, purse, test_freeze_reason) freeze_ops" where
  "purse_freezes n =
     \<lparr>balance_frozen = p_frozen,
      set_freeze = (\<lambda>m i a v.
        if unat n \<le> length (filter (\<lambda>j. j \<noteq> i \<and> p_frozen m j a \<noteq> 0) test_freeze_reasons) then Inl 0
        else Inr (m\<lparr>p_frozen := (p_frozen m)(i := (p_frozen m i)(a := v))\<rparr>)),
      thaw = (\<lambda>m i a. Inr (m\<lparr>p_frozen := (p_frozen m)(i := (p_frozen m i)(a := 0))\<rparr>))\<rparr>"

definition purse_transfer :: "purse \<Rightarrow> u64 \<Rightarrow> u64 \<Rightarrow> u64 \<Rightarrow> preservation \<Rightarrow> transfer_error + purse" where
  "purse_transfer m a b v keep =
     (if v = 0 then Inr m
      else if p_funds m a < v then Inl (TokenError FundsUnavailable)
      else if list_ex (\<lambda>i. p_funds m a - v < p_frozen m i a) test_freeze_reasons
        then Inl (TokenError Frozen)
      else if p_funds m a - v = 0 then Inl (TokenError NotExpendable)
      else if p_funds m b + v < v then Inl (OtherTransferError 0)
      else if a = b then Inr m
      else Inr (m\<lparr>p_funds := (p_funds m)(a := p_funds m a - v, b := p_funds m b + v)\<rparr>))"

definition purse_lib :: "purse balances_lib" where
  "purse_lib =
     \<lparr>minimum_balance = 1, funds = p_funds, on_hold = (\<lambda>_ _. 0), freezes_with = purse_freezes,
      transfer_funds = purse_transfer,
      genesis_balances = (\<lambda>bs. \<lparr>p_funds = (\<lambda>a. case map_of bs a of None \<Rightarrow> 0 | Some v \<Rightarrow> v),
                                 p_frozen = (\<lambda>_ _. 0)\<rparr>)\<rparr>"

lemma purse_sel [simp]:
  "minimum_balance purse_lib = 1" "funds purse_lib = p_funds" "on_hold purse_lib = (\<lambda>_ _. 0)"
  "freezes_with purse_lib = purse_freezes" "transfer_funds purse_lib = purse_transfer"
  "balance_frozen (purse_freezes n) = p_frozen"
  "thaw (purse_freezes n) m i a = Inr (m\<lparr>p_frozen := (p_frozen m)(i := (p_frozen m i)(a := 0))\<rparr>)"
  "p_funds (genesis_balances purse_lib bs) = (\<lambda>a. case map_of bs a of None \<Rightarrow> 0 | Some v \<Rightarrow> v)"
  "p_frozen (genesis_balances purse_lib bs) = (\<lambda>_ _. 0)"
  by (simp_all add: purse_lib_def purse_freezes_def)

lemma purse_set_freeze:
  "set_freeze (purse_freezes n) m i a v = Inr m' \<longleftrightarrow>
   length (filter (\<lambda>j. j \<noteq> i \<and> p_frozen m j a \<noteq> 0) test_freeze_reasons) < unat n \<and>
   m' = m\<lparr>p_frozen := (p_frozen m)(i := (p_frozen m i)(a := v))\<rparr>"
  by (auto simp: purse_freezes_def)

lemma purse_frozen_any:
  "list_ex (\<lambda>i. x < p_frozen m i a) test_freeze_reasons \<longleftrightarrow> (\<exists>i. x < p_frozen m i a)"
  using all_test_reasons by (metis (mono_tags, lifting) list.set_intros(1) list_ex_iff test_freeze_reasons_def)

lemma purse_transfer_frozen: "purse_transfer m a b v keep = Inr m' \<Longrightarrow> p_frozen m' = p_frozen m"
  by (simp add: purse_transfer_def split: if_splits) auto

lemma purse_freezable: "freezable_currency (purse_freezes n)"
  by unfold_locales (auto simp: purse_set_freeze)

lemma purse_transfer_refused:
  assumes "v \<noteq> 0" "v \<le> p_funds m a" "p_funds m a - v < p_frozen m i a"
  shows "purse_transfer m a b v keep = Inl (TokenError Frozen)"
proof -
  have "list_ex (\<lambda>i. p_funds m a - v < p_frozen m i a) test_freeze_reasons"
    unfolding purse_frozen_any using assms(3) by blast
  with assms(1,2) show ?thesis by (simp add: purse_transfer_def leD)
qed

lemma purse_transfer_accepted:
  assumes "a \<noteq> b" "v \<le> p_funds m a" "1 \<le> p_funds m a - v"
    and "\<And>i. p_frozen m i a \<le> p_funds m a - v" and "unat (p_funds m b) + unat v < 2 ^ 64"
  shows "\<exists>m'. purse_transfer m a b v keep = Inr m'"
proof (cases "v = 0")
  case True
  then show ?thesis by (simp add: purse_transfer_def)
next
  case False
  have "\<not> list_ex (\<lambda>i. p_funds m a - v < p_frozen m i a) test_freeze_reasons"
    unfolding purse_frozen_any using assms(4) leD by blast
  moreover have "p_funds m a - v \<noteq> 0" using assms(3) by auto
  moreover have "\<not> p_funds m b + v < v"
    using assms(5) add_overflow_iff [of v "p_funds m b"] by (simp add: add.commute [of _ v])
  moreover have "\<not> p_funds m a < v" using assms(2) by (simp only: not_less)
  ultimately have "purse_transfer m a b v keep =
      Inr (m\<lparr>p_funds := (p_funds m)(a := p_funds m a - v, b := p_funds m b + v)\<rparr>)"
    using False assms(1) by (simp only: purse_transfer_def if_False)
  then show ?thesis by simp
qed

lemma purse_transfer_effect:
  assumes "purse_transfer m a b v keep = Inr m'"
  shows "v \<le> p_funds m a \<and> (a \<noteq> b \<longrightarrow> unat (p_funds m b) + unat v < 2 ^ 64) \<and>
    p_funds m' = (if a = b then p_funds m else (p_funds m)(a := p_funds m a - v, b := p_funds m b + v))"
proof (cases "v = 0")
  case True
  with assms show ?thesis
    using unsigned_less [of "p_funds m b"] by (auto simp: purse_transfer_def fun_upd_idem)
next
  case False
  with assms have ok: "\<not> p_funds m a < v" "\<not> p_funds m b + v < v"
    "m' = (if a = b then m else m\<lparr>p_funds := (p_funds m)(a := p_funds m a - v, b := p_funds m b + v)\<rparr>)"
    unfolding purse_transfer_def by (simp_all split: if_split_asm)
  have "unat (p_funds m b) + unat v < 2 ^ 64"
    using ok(2) add_overflow_iff [of v "p_funds m b"] by (simp add: add.commute [of _ v] not_le)
  with ok(1,3) show ?thesis by (simp add: not_less)
qed

interpretation purse: balances_pallet purse_lib n
proof
  show "\<exists>m'. transfer_funds purse_lib m a b v keep = Inr m'"
    if "a \<noteq> b" "v \<le> funds purse_lib m a" "minimum_balance purse_lib \<le> funds purse_lib m a - v"
      "\<And>i. balance_frozen (freezes_with purse_lib n) m i a \<le> funds purse_lib m a - v"
      "unat (funds purse_lib m b) + unat v < 2 ^ 64" for m a b v keep
    using that unfolding purse_sel by (rule purse_transfer_accepted)
  show "v \<le> funds purse_lib m a \<and> (a \<noteq> b \<longrightarrow> unat (funds purse_lib m b) + unat v < 2 ^ 64) \<and>
      funds purse_lib m' = (if a = b then funds purse_lib m
        else (funds purse_lib m)(a := funds purse_lib m a - v, b := funds purse_lib m b + v))"
    if "transfer_funds purse_lib m a b v keep = Inr m'" for m m' a b v keep
    using that unfolding purse_sel by (rule purse_transfer_effect)
qed (auto simp: purse_freezable purse_set_freeze purse_transfer_frozen purse_transfer_refused)

end
