(* ===== verification/Freezer_Tests.thy ===== *)
theory Freezer_Tests
  imports Freezer_Mock
begin

text \<open>
  The freezer's test suite (\<open>pallets/account-freezer/src/tests.rs\<close>) as lists of assertions run
  against the mock runtime. \<open>view_passes\<close> runs the same assertions on what they depend on
  alone, the account book and the balances, and is shown to be sound: a test that passes on
  that view passes on the runtime, whatever lawful balances pallet is behind it.
\<close>

section \<open>Assertions\<close>

datatype test_call =
    FreezerCall "u64 raw_origin" "(u64, u64) freezer_call"
  | Transfer u64 u64 u64 preservation

datatype test_failure = FreezerFailure freezer_failure | TransferFailure transfer_error

text \<open>\<open>AccountFreezer::freeze_account(...)\<close> and \<open>Mutate::transfer(...)\<close> on the test storage.\<close>

fun run_call ::
    "'c balances_lib \<Rightarrow> test_call \<Rightarrow> 'c test_storage \<Rightarrow> (test_failure, unit, 'c test_storage) outcome" where
  "run_call B (FreezerCall org c) s =
     (case freezer_dispatch (test_freezer_config B) org c s of
        (Inl e, t) \<Rightarrow> (Inl (FreezerFailure e), t)
      | (Inr _, t) \<Rightarrow> (Inr (), t))"
| "run_call B (Transfer a b v keep) s =
     (case transfer_funds B (freezer_bank s) a b v keep of
        Inl e \<Rightarrow> (Inl (TransferFailure e), s)
      | Inr m \<Rightarrow> (Inr (), s\<lparr>freezer_bank := m\<rparr>))"

fun test_thaws :: "u64 \<Rightarrow> test_call \<Rightarrow> bool" where
  "test_thaws a (FreezerCall _ (ThawAccount b)) \<longleftrightarrow> b = a"
| "test_thaws a (FreezerCall _ (ThawAmount b _)) \<longleftrightarrow> b = a"
| "test_thaws a _ \<longleftrightarrow> False"

definition run_calls :: "'c balances_lib \<Rightarrow> test_call list \<Rightarrow> 'c test_storage \<Rightarrow> 'c test_storage" where
  "run_calls B calls s = foldl (\<lambda>t c. snd (run_call B c t)) s calls"

datatype assertion = AssertOk test_call | AssertNoop test_call test_failure

text \<open>\<open>assert_ok!\<close> keeps what the call wrote; \<open>assert_noop!\<close> demands the error and an unchanged
  storage.\<close>

fun passes :: "'c balances_lib \<Rightarrow> assertion list \<Rightarrow> 'c test_storage \<Rightarrow> bool" where
  "passes B [] s = True"
| "passes B (AssertOk c # as) s =
     (case run_call B c s of (Inl _, _) \<Rightarrow> False | (Inr _, t) \<Rightarrow> passes B as t)"
| "passes B (AssertNoop c e # as) s = (run_call B c s = (Inl e, s) \<and> passes B as s)"

section \<open>The nine tests\<close>

abbreviation frozen_funds :: test_failure where
  "frozen_funds \<equiv> TransferFailure (TokenError Frozen)"

abbreviation refusal :: "freezer_error \<Rightarrow> test_failure" where
  "refusal e \<equiv> FreezerFailure (PalletError e)"

definition freeze_blocks_transfer_and_thaw_lifts_it :: "assertion list" where
  "freeze_blocks_transfer_and_thaw_lifts_it =
     [AssertOk (FreezerCall Root (FreezeAccount 1)),
      AssertNoop (Transfer 1 2 100 Preserve) frozen_funds,
      AssertOk (FreezerCall Root (ThawAccount 1)),
      AssertOk (Transfer 1 2 100 Preserve)]"

definition freeze_amount_blocks_only_that_amount :: "assertion list" where
  "freeze_amount_blocks_only_that_amount =
     [AssertOk (FreezerCall Root (FreezeAmount 1 900000)),
      AssertNoop (Transfer 1 2 200000 Preserve) frozen_funds,
      AssertOk (Transfer 1 2 50000 Preserve),
      AssertOk (FreezerCall Root (ThawAccount 1))]"

definition cannot_double_freeze :: "assertion list" where
  "cannot_double_freeze =
     [AssertOk (FreezerCall Root (FreezeAccount 1)),
      AssertNoop (FreezerCall Root (FreezeAccount 1)) (refusal AlreadyFrozen),
      AssertNoop (FreezerCall Root (FreezeAmount 1 100)) (refusal AlreadyFrozen)]"

definition non_root_cannot_freeze :: "assertion list" where
  "non_root_cannot_freeze =
     [AssertNoop (FreezerCall (Signed 2) (FreezeAccount 1)) (FreezerFailure BadOrigin),
      AssertNoop (FreezerCall (Signed 2) (FreezeAmount 1 100)) (FreezerFailure BadOrigin)]"

definition force_origin_can_thaw :: "assertion list" where
  "force_origin_can_thaw =
     [AssertOk (FreezerCall Root (FreezeAccount 1)),
      AssertOk (FreezerCall Root (ThawAccount 1)),
      AssertNoop (FreezerCall Root (ThawAccount 1)) (refusal NotFrozen)]"

definition thaw_amount_releases_only_part_of_the_freeze :: "assertion list" where
  "thaw_amount_releases_only_part_of_the_freeze =
     [AssertOk (FreezerCall Root (FreezeAmount 1 900000)),
      AssertOk (FreezerCall Root (ThawAmount 1 400000)),
      AssertNoop (Transfer 1 2 600000 Preserve) frozen_funds,
      AssertOk (Transfer 1 2 450000 Preserve)]"

definition thaw_amount_covering_the_whole_freeze_fully_thaws :: "assertion list" where
  "thaw_amount_covering_the_whole_freeze_fully_thaws =
     [AssertOk (FreezerCall Root (FreezeAmount 1 900000)),
      AssertOk (FreezerCall Root (ThawAmount 1 900000)),
      AssertOk (FreezerCall Root (FreezeAccount 1))]"

definition thaw_amount_more_than_frozen_fails :: "assertion list" where
  "thaw_amount_more_than_frozen_fails =
     [AssertOk (FreezerCall Root (FreezeAmount 1 100)),
      AssertNoop (FreezerCall Root (ThawAmount 1 200)) (refusal AmountExceedsFrozen)]"

definition thaw_amount_on_unfrozen_account_fails :: "assertion list" where
  "thaw_amount_on_unfrozen_account_fails =
     [AssertNoop (FreezerCall Root (ThawAmount 1 100)) (refusal NotFrozen)]"

definition freezer_tests :: "assertion list list" where
  "freezer_tests =
     [freeze_blocks_transfer_and_thaw_lifts_it, freeze_amount_blocks_only_that_amount,
      cannot_double_freeze, non_root_cannot_freeze, force_origin_can_thaw,
      thaw_amount_releases_only_part_of_the_freeze,
      thaw_amount_covering_the_whole_freeze_fully_thaws, thaw_amount_more_than_frozen_fails,
      thaw_amount_on_unfrozen_account_fails]"

lemmas freezer_test_defs =
  freeze_blocks_transfer_and_thaw_lifts_it_def freeze_amount_blocks_only_that_amount_def
  cannot_double_freeze_def non_root_cannot_freeze_def force_origin_can_thaw_def
  thaw_amount_releases_only_part_of_the_freeze_def
  thaw_amount_covering_the_whole_freeze_fully_thaws_def thaw_amount_more_than_frozen_fails_def
  thaw_amount_on_unfrozen_account_fails_def

section \<open>The tests on books and balances\<close>

definition limit :: "(u64, u64) freeze_book \<Rightarrow> u64 \<Rightarrow> u64" where
  "limit b a = (case b a of None \<Rightarrow> 0 | Some v \<Rightarrow> v)"

fun freezer_target :: "('a, 'b) freezer_call \<Rightarrow> 'a" where
  "freezer_target (FreezeAccount a) = a"
| "freezer_target (FreezeAmount a _) = a"
| "freezer_target (ThawAccount a) = a"
| "freezer_target (ThawAmount a _) = a"

fun view_passes :: "assertion list \<Rightarrow> (u64, u64) freeze_book \<Rightarrow> (u64 \<Rightarrow> u64) \<Rightarrow> bool" where
  "view_passes [] b f = True"
| "view_passes (AssertOk (FreezerCall org c) # as) b f =
     (org = Root \<and> f (freezer_target c) \<noteq> 0 \<and>
      (case book_call c b of Inl _ \<Rightarrow> False | Inr b' \<Rightarrow> view_passes as b' f))"
| "view_passes (AssertOk (Transfer a a' v _) # as) b f =
     (a \<noteq> a' \<and> v < f a \<and> limit b a \<le> f a - v \<and> f a' \<noteq> 0 \<and> unat (f a') + unat v < 2 ^ 64 \<and>
      view_passes as b (f(a := f a - v, a' := f a' + v)))"
| "view_passes (AssertNoop (FreezerCall org c) e # as) b f =
     ((if org = Root then (case book_call c b of Inl x \<Rightarrow> e = refusal x | Inr _ \<Rightarrow> False)
       else e = FreezerFailure BadOrigin) \<and>
      view_passes as b f)"
| "view_passes (AssertNoop (Transfer a _ v _) e # as) b f =
     (v \<noteq> 0 \<and> v \<le> f a \<and> f a - v < limit b a \<and> e = frozen_funds \<and> view_passes as b f)"

lemma view_passes_freezer_tests:
  "as \<in> set freezer_tests \<Longrightarrow>
   view_passes as (\<lambda>_. None) (\<lambda>a. if a = 1 \<or> a = 2 then 1000000 else 0)"
  by (auto simp: freezer_tests_def freezer_test_defs limit_def)

section \<open>Soundness of the view\<close>

locale mock_runtime = balances_pallet B 1
  for B :: "'c balances_lib"

sublocale mock_runtime \<subseteq> freezer_backend "test_freezer_config B"
  by (rule freezer_backend.intro) (simp add: freezing)

text \<open>What every state of a test satisfies.\<close>

definition test_inv :: "'c balances_lib \<Rightarrow> 'c test_storage \<Rightarrow> bool" where
  "test_inv B s \<longleftrightarrow> freezer_inv (test_freezer_config B) s \<and>
     (\<forall>a. on_hold B (freezer_bank s) a = 0)"

abbreviation test_book :: "'c balances_lib \<Rightarrow> 'c test_storage \<Rightarrow> (u64, u64) freeze_book" where
  "test_book B \<equiv> book_of (test_freezer_config B)"

context mock_runtime
begin

lemma start_inv: "test_inv B (new_test_ext B)"
  and start_book: "test_book B (new_test_ext B) = (\<lambda>_. None)"
  and start_funds: "funds B (freezer_bank (new_test_ext B)) =
    (\<lambda>a. if a = 1 \<or> a = 2 then 1000000 else 0)"
  by (auto simp: test_inv_def freezer_inv_def new_test_ext_def book_of_def contains_key_def
      genesis_unfrozen genesis_funds existential_deposit fun_eq_iff)

lemma book_limit:
  assumes "test_inv B s"
  shows "balance_frozen (freezes_with B 1) (freezer_bank s) i a = limit (test_book B s) a"
  using assms all_test_reasons [of i]
  by (auto simp: test_inv_def freezer_inv_def book_of_def limit_def)

lemma dispatch_keeps_funds:
  assumes "freezer_dispatch (test_freezer_config B) org c s = (r, t)"
  shows "funds B (freezer_bank t) = funds B (freezer_bank s) \<and>
    on_hold B (freezer_bank t) = on_hold B (freezer_bank s)"
proof (cases r)
  case (Inl e)
  with assms show ?thesis by (auto simp: freezer_dispatch_def with_storage_layer_Inl)
next
  case (Inr u)
  with assms show ?thesis
    by (cases c) (auto simp: freezer_dispatch_def freezer_defs Let_def
        dest: freeze_keeps_funds thaw_keeps_funds split: if_splits sum.splits)
qed

lemma dispatch_inv:
  assumes "freezer_dispatch (test_freezer_config B) org c s = (r, t)" "test_inv B s"
  shows "test_inv B t"
proof -
  have "freezer_inv (test_freezer_config B) t"
    using freezer_extrinsic [OF assms(1)] assms(2) by (auto simp: test_inv_def intro: step_inv)
  with assms(2) dispatch_keeps_funds [OF assms(1)] show ?thesis by (simp add: test_inv_def)
qed

lemma room: "length (filter (\<lambda>j. j \<noteq> i \<and> P j) test_freeze_reasons) < unat (1 :: u32)"
  using all_test_reasons [of i] by (simp add: test_freeze_reasons_def)

text \<open>Where the account exists, a call the book defines succeeds.\<close>

lemma dispatch_succeeds:
  assumes "book_call c (test_book B s) = Inr b" "funds B (freezer_bank s) (freezer_target c) \<noteq> 0"
  shows "\<exists>t. freezer_dispatch (test_freezer_config B) Root c s = (Inr (), t) \<and> test_book B t = b"
proof -
  let ?a = "freezer_target c"
  have alive: "minimum_balance B \<le> funds B (freezer_bank s) ?a"
    using assms(2) by (simp add: existential_deposit word_le_nat_alt Suc_le_eq unat_gt_0)
  obtain m where thaw: "thaw (freezes_with B 1) (freezer_bank s) (AccountFreezerReason AccountFrozen) ?a = Inr m"
    using thaw_succeeds [OF alive] by blast
  have set_freeze: "\<exists>m. set_freeze (freezes_with B 1) (freezer_bank s)
      (AccountFreezerReason AccountFrozen) ?a v = Inr m" for v
    using freeze_has_room [OF alive room] by blast
  have "\<exists>t. freezer_dispatch (test_freezer_config B) Root c s = (Inr (), t)"
  proof (cases c)
    case (FreezeAccount a)
    with set_freeze [of "- 1"] assms(1) show ?thesis
      by (auto simp: freezer_dispatch_def freezer_defs book_of_def split: if_splits)
  next
    case (FreezeAmount a v)
    with set_freeze [of v] assms(1) show ?thesis
      by (auto simp: freezer_dispatch_def freezer_defs book_of_def split: if_splits)
  next
    case (ThawAccount a)
    with thaw assms(1) show ?thesis
      by (auto simp: freezer_dispatch_def freezer_defs book_of_def split: if_splits)
  next
    case (ThawAmount a v)
    let ?f = "balance_frozen (freezes_with B 1) (freezer_bank s) (AccountFreezerReason AccountFrozen) a"
    from ThawAmount thaw set_freeze [of "?f - v"] assms(1) show ?thesis
      by (auto simp: freezer_dispatch_def freezer_defs book_of_def Let_def not_less split: if_splits)
  qed
  then obtain t where t: "freezer_dispatch (test_freezer_config B) Root c s = (Inr (), t)" by blast
  with dispatch_book [OF t] assms(1) show ?thesis by simp
qed

lemma dispatch_refused:
  assumes "book_call c (test_book B s) = Inl e"
  shows "freezer_dispatch (test_freezer_config B) Root c s = (Inl (PalletError e), s)"
  using assms
  by (cases c)
    (auto simp: freezer_dispatch_def with_storage_layer_Inl freezer_defs book_of_def Let_def not_le
      split: if_splits)

lemma transfer_inv:
  assumes "transfer_funds B (freezer_bank s) a a' v keep = Inr m" "test_inv B s"
  shows "test_inv B (s\<lparr>freezer_bank := m\<rparr>)" "test_book B (s\<lparr>freezer_bank := m\<rparr>) = test_book B s"
  using assms(2) transfer_keeps_freezes [OF assms(1)]
  by (auto simp: test_inv_def freezer_inv_def book_of_def contains_key_def fun_eq_iff)

lemma transfer_runs:
  assumes "test_inv B s" "a \<noteq> a'" "v < funds B (freezer_bank s) a"
    and "limit (test_book B s) a \<le> funds B (freezer_bank s) a - v"
    and "funds B (freezer_bank s) a' \<noteq> 0" "unat (funds B (freezer_bank s) a') + unat v < 2 ^ 64"
  shows "\<exists>m. transfer_funds B (freezer_bank s) a a' v keep = Inr m \<and>
    funds B m = (funds B (freezer_bank s))
      (a := funds B (freezer_bank s) a - v, a' := funds B (freezer_bank s) a' + v)"
proof -
  have pos: "0 < x \<Longrightarrow> 1 \<le> x" for x :: u64
    by (simp add: word_le_nat_alt Suc_le_eq unat_gt_0 word_less_nat_alt)
  have "\<exists>m. transfer_funds B (freezer_bank s) a a' v keep = Inr m"
  proof (rule transfer_accepted)
    show "minimum_balance B \<le> funds B (freezer_bank s) a - v"
      using assms(3) by (simp add: existential_deposit pos word_less_nat_alt unat_sub_if')
    show "minimum_balance B \<le> funds B (freezer_bank s) a'"
      using assms(5) by (simp add: existential_deposit pos word_greater_zero_iff)
    show "on_hold B (freezer_bank s) a = 0" using assms(1) by (simp add: test_inv_def)
  qed (use assms in \<open>auto simp: book_limit\<close>)
  with transfer_effect assms(2) show ?thesis by fastforce
qed

lemma transfer_refused:
  assumes "test_inv B s" "v \<noteq> 0" "v \<le> funds B (freezer_bank s) a"
    and "funds B (freezer_bank s) a - v < limit (test_book B s) a"
  shows "transfer_funds B (freezer_bank s) a a' v keep = Inl (TokenError Frozen)"
proof (rule transfer_frozen)
  show "funds B (freezer_bank s) a - v <
      balance_frozen (freezes_with B 1) (freezer_bank s) (AccountFreezerReason AccountFrozen) a"
    using assms(1,4) by (simp add: book_limit)
  show "on_hold B (freezer_bank s) a = 0" using assms(1) by (simp add: test_inv_def)
qed (use assms in auto)

lemma view_sound:
  "test_inv B s \<Longrightarrow> view_passes as (test_book B s) (funds B (freezer_bank s)) \<Longrightarrow> passes B as s"
proof (induction as arbitrary: s)
  case Nil
  then show ?case by simp
next
  case (Cons x as)
  show ?case
  proof (cases x)
    case (AssertOk call)
    show ?thesis
    proof (cases call)
      case (FreezerCall org c)
      with AssertOk Cons.prems(2) obtain b where b: "org = Root" "book_call c (test_book B s) = Inr b"
        "funds B (freezer_bank s) (freezer_target c) \<noteq> 0" "view_passes as b (funds B (freezer_bank s))"
        by (auto split: sum.splits)
      obtain t where t: "freezer_dispatch (test_freezer_config B) Root c s = (Inr (), t)" "test_book B t = b"
        using dispatch_succeeds [OF b(2,3)] by blast
      have "passes B as t"
        using Cons.IH [OF dispatch_inv [OF t(1) Cons.prems(1)]] b(4) t(2) dispatch_keeps_funds [OF t(1)]
        by simp
      with FreezerCall AssertOk b(1) t(1) show ?thesis by simp
    next
      case (Transfer a a' v keep)
      with AssertOk Cons.prems(2) have v: "a \<noteq> a'" "v < funds B (freezer_bank s) a"
        "limit (test_book B s) a \<le> funds B (freezer_bank s) a - v"
        "funds B (freezer_bank s) a' \<noteq> 0" "unat (funds B (freezer_bank s) a') + unat v < 2 ^ 64"
        by simp_all
      obtain m where m: "transfer_funds B (freezer_bank s) a a' v keep = Inr m"
        "funds B m = (funds B (freezer_bank s))
          (a := funds B (freezer_bank s) a - v, a' := funds B (freezer_bank s) a' + v)"
        using transfer_runs [OF Cons.prems(1) v] by blast
      have "view_passes as (test_book B s) (funds B m)"
        using Cons.prems(2) Transfer AssertOk by (simp only: m(2) view_passes.simps)
      then have "passes B as (s\<lparr>freezer_bank := m\<rparr>)"
        using Cons.IH [OF transfer_inv(1) [OF m(1) Cons.prems(1)]] transfer_inv(2) [OF m(1) Cons.prems(1)]
        by simp
      with Transfer AssertOk m(1) show ?thesis by simp
    qed
  next
    case (AssertNoop call e)
    show ?thesis
    proof (cases call)
      case (FreezerCall org c)
      have "freezer_dispatch (test_freezer_config B) org c s = (Inl BadOrigin, s)" if "org \<noteq> Root"
        using that by (simp add: freezer_dispatch_denied)
      with FreezerCall AssertNoop Cons show ?thesis
        by (auto simp: dispatch_refused split: if_splits sum.splits)
    next
      case (Transfer a a' v keep)
      with AssertNoop Cons transfer_refused [OF Cons.prems(1)] show ?thesis by simp
    qed
  qed
qed

lemma run_call_inv: "test_inv B s \<Longrightarrow> test_inv B (snd (run_call B call s))"
proof (cases call)
  case (FreezerCall org c)
  moreover obtain r t where "freezer_dispatch (test_freezer_config B) org c s = (r, t)" by fastforce
  ultimately show "test_inv B s \<Longrightarrow> ?thesis"
    using dispatch_inv by (cases r) auto
next
  case (Transfer a a' v keep)
  then show "test_inv B s \<Longrightarrow> ?thesis"
    by (cases "transfer_funds B (freezer_bank s) a a' v keep") (auto dest: transfer_inv(1))
qed

lemma run_calls_inv: "test_inv B s \<Longrightarrow> test_inv B (run_calls B calls s)"
  by (induction calls arbitrary: s) (simp_all add: run_calls_def run_call_inv)

text \<open>A frozen account keeps what is frozen, or what it had if that was less.\<close>

definition keeps_back :: "u64 \<Rightarrow> u64 \<Rightarrow> u64 \<Rightarrow> 'c test_storage \<Rightarrow> bool" where
  "keeps_back a w had s \<longleftrightarrow> test_inv B s \<and> test_book B s a = Some w \<and>
     min w had \<le> funds B (freezer_bank s) a"

lemma transfer_keeps_back:
  assumes "transfer_funds B (freezer_bank s) x y v keep = Inr m" "keeps_back a w had s"
  shows "min w had \<le> funds B m a"
proof -
  let ?f = "funds B (freezer_bank s)"
  note eff = transfer_effect [OF assms(1)]
  have inv: "test_inv B s" and w: "limit (test_book B s) a = w" and had: "min w had \<le> ?f a"
    using assms(2) by (auto simp: keeps_back_def limit_def)
  consider "x = y \<or> v = 0" | "x \<noteq> y" "v \<noteq> 0" "a = x" | "x \<noteq> y" "a \<noteq> x" "a = y" | "a \<noteq> x" "a \<noteq> y" by blast
  then show ?thesis
  proof cases
    case 2
    have "\<not> ?f a - v < w"
      using transfer_refused [OF inv 2(2), of a y keep] assms(1) eff 2(3) w by auto
    with eff 2 show ?thesis by (simp add: min_le_iff_disj not_less)
  next
    case 3
    then have "unat (?f a) + unat v < 2 ^ LENGTH(64)" using eff by auto
    then have "unat (?f a + v) = unat (?f a) + unat v" by (rule unat_add_lem [THEN iffD1])
    then have "?f a \<le> ?f a + v" by (simp add: word_le_nat_alt)
    with eff 3 had show ?thesis by (auto intro: order_trans)
  qed (use eff had in \<open>auto split: if_splits\<close>)
qed

lemma book_call_keeps_entry:
  assumes "book_call c b = Inr b'" "b a = Some w" "\<not> test_thaws a (FreezerCall org c)"
  shows "b' a = Some w"
  using assms by (cases c) (auto split: option.splits if_splits)

lemma call_keeps_back:
  assumes "keeps_back a w had s" "\<not> test_thaws a call"
  shows "keeps_back a w had (snd (run_call B call s))"
proof (cases call)
  case (FreezerCall org c)
  obtain r t where d: "freezer_dispatch (test_freezer_config B) org c s = (r, t)" by fastforce
  have "test_book B t a = Some w"
  proof (cases r)
    case (Inl e)
    with d assms(1) show ?thesis
      by (auto simp: freezer_dispatch_def with_storage_layer_Inl keeps_back_def)
  next
    case (Inr u)
    with dispatch_book [of org c s u t] d assms FreezerCall show ?thesis
      by (auto simp: keeps_back_def intro: book_call_keeps_entry)
  qed
  with dispatch_inv [OF d] dispatch_keeps_funds [OF d] assms(1) FreezerCall d show ?thesis
    by (cases r) (simp_all add: keeps_back_def)
next
  case (Transfer x y v keep)
  show ?thesis
  proof (cases "transfer_funds B (freezer_bank s) x y v keep")
    case (Inl e)
    with Transfer assms(1) show ?thesis by simp
  next
    case (Inr m)
    have "test_inv B s" using assms(1) by (simp add: keeps_back_def)
    from transfer_inv [OF Inr this] transfer_keeps_back [OF Inr assms(1)] assms(1) Transfer Inr
    show ?thesis by (simp add: keeps_back_def)
  qed
qed

lemma calls_keep_back:
  "keeps_back a w had s \<Longrightarrow> list_all (\<lambda>c. \<not> test_thaws a c) calls \<Longrightarrow>
   keeps_back a w had (run_calls B calls s)"
  by (induction calls arbitrary: s) (simp_all add: run_calls_def call_keeps_back)

end

text \<open>The concrete bank's mock runtime.\<close>

interpretation purse_runtime: mock_runtime purse_lib
  by (simp add: mock_runtime_def purse.balances_pallet_axioms)

section \<open>Properties\<close>

text \<open>The nine tests of the freezer's test suite pass on the model of the pallet in the
  mock runtime, over any balances pallet that behaves as documented.\<close>

theorem freezer_tests_pass:
  assumes "balances_pallet B (mock_max_freezes test_balances)" and "test \<in> set freezer_tests"
  shows "passes B test (new_test_ext B)"
proof -
  have lib: "mock_runtime B" using assms(1) by (simp add: mock_runtime_def)
  show ?thesis
    by (rule mock_runtime.view_sound [OF lib mock_runtime.start_inv [OF lib]])
      (simp add: mock_runtime.start_book [OF lib] mock_runtime.start_funds [OF lib]
        view_passes_freezer_tests [OF assms(2)])
qed

theorem freezer_tests_pass_witness:
  "passes purse_lib thaw_amount_releases_only_part_of_the_freeze (new_test_ext purse_lib)"
proof -
  have "thaw_amount_releases_only_part_of_the_freeze \<in> set freezer_tests" by (simp add: freezer_tests_def)
  with freezer_tests_pass [OF purse.balances_pallet_axioms] show ?thesis by blast
qed

text \<open>A freeze limits transfers exactly. Whatever calls and transfers were made in the mock
  runtime, a transfer that leaves the source alive and that the target can take goes through
  unless it would leave the source with less than its entry in the account book, and then it
  is refused as frozen.\<close>

theorem freeze_limits_transfers:
  fixes B :: "'c balances_lib" and calls :: "test_call list"
  assumes "balances_pallet B (mock_max_freezes test_balances)"
  defines "s \<equiv> run_calls B calls (new_test_ext B)"
  defines "f \<equiv> funds B (freezer_bank s)"
  assumes "a \<noteq> a'" "v \<noteq> 0" "v < f a" "f a' \<noteq> 0" "unat (f a') + unat v < 2 ^ 64"
  shows "fst (run_call B (Transfer a a' v keep) s) =
    (if f a - v < limit (test_book B s) a then Inl frozen_funds else Inr ())"
proof -
  have lib: "mock_runtime B" using assms(1) by (simp add: mock_runtime_def)
  have inv: "test_inv B s"
    unfolding s_def by (intro mock_runtime.run_calls_inv [OF lib] mock_runtime.start_inv [OF lib])
  show ?thesis
  proof (cases "f a - v < limit (test_book B s) a")
    case True
    have "v \<le> f a" using assms(6) by simp
    from mock_runtime.transfer_refused [OF lib inv assms(5) this [unfolded f_def] True [unfolded f_def]]
    show ?thesis using True by simp
  next
    case False
    then have "limit (test_book B s) a \<le> f a - v" by simp
    with mock_runtime.transfer_runs [OF lib inv assms(4)] assms(6-8)
    have "\<exists>m. transfer_funds B (freezer_bank s) a a' v keep = Inr m" unfolding f_def by blast
    with False show ?thesis by auto
  qed
qed

theorem freeze_limits_transfers_witness:
  "fst (run_call purse_lib (Transfer 1 2 200000 Preserve)
     (run_calls purse_lib [FreezerCall Root (FreezeAmount 1 900000)] (new_test_ext purse_lib))) =
   Inl frozen_funds"
proof -
  let ?s = "run_calls purse_lib [FreezerCall Root (FreezeAmount 1 900000)] (new_test_ext purse_lib)"
  obtain t where t: "freezer_dispatch (test_freezer_config purse_lib) Root (FreezeAmount 1 900000)
      (new_test_ext purse_lib) = (Inr (), t)" "test_book purse_lib t = [1 \<mapsto> 900000]"
    using purse_runtime.dispatch_succeeds [of "FreezeAmount 1 900000" "new_test_ext purse_lib"]
    by (auto simp: purse_runtime.start_book purse_runtime.start_funds simp del: purse_sel)
  have s: "?s = t" by (simp add: run_calls_def t(1))
  have f: "funds purse_lib (freezer_bank t) = (\<lambda>a. if a = 1 \<or> a = 2 then 1000000 else 0)"
    using purse_runtime.dispatch_keeps_funds [OF t(1)] by (simp only: purse_runtime.start_funds)
  show ?thesis
    using freeze_limits_transfers [OF purse.balances_pallet_axioms, where a = 1 and a' = 2 and v = 200000
        and calls = "[FreezerCall Root (FreezeAmount 1 900000)]" and keep = Preserve]
    unfolding s f t(2) by (simp add: limit_def del: run_call.simps)
qed

text \<open>C35: frozen money stays. From a successful \<open>freeze_amount\<close> on, whatever freezer calls and
  transfers are made by anybody, until a thaw names the account its balance never falls below
  the frozen amount, or below what it had at the freeze if that was less; after
  \<open>freeze_account\<close> it does not fall at all.\<close>

theorem frozen_funds_stay:
  fixes B :: "'c balances_lib" and calls before :: "test_call list"
  assumes "balances_pallet B (mock_max_freezes test_balances)"
  defines "s \<equiv> run_calls B before (new_test_ext B)"
  assumes freeze: "freezer_dispatch (test_freezer_config B) org freeze s = (Inr (), t)"
    and kind: "freeze = FreezeAccount a \<and> w = - 1 \<or> freeze = FreezeAmount a w"
    and quiet: "list_all (\<lambda>c. \<not> test_thaws a c) calls"
  shows "min w (funds B (freezer_bank s) a) \<le> funds B (freezer_bank (run_calls B calls t)) a"
proof -
  have lib: "mock_runtime B" using assms(1) by (simp add: mock_runtime_def)
  have inv: "test_inv B s"
    unfolding s_def by (intro mock_runtime.run_calls_inv [OF lib] mock_runtime.start_inv [OF lib])
  have "freezer_backend (test_freezer_config B)"
    using assms(1) by (intro freezer_backend.intro) (simp add: balances_pallet.freezing)
  from freezer_backend.dispatch_book [OF this freeze] kind
  have "test_book B t = (test_book B s)(a := Some w)" by (auto split: option.splits)
  then have book: "test_book B t a = Some w" by simp
  have "mock_runtime.keeps_back B a w (funds B (freezer_bank s) a) t"
    using mock_runtime.dispatch_inv [OF lib freeze inv] mock_runtime.dispatch_keeps_funds [OF lib freeze]
      book by (simp add: mock_runtime.keeps_back_def [OF lib])
  from mock_runtime.calls_keep_back [OF lib this quiet] show ?thesis
    by (simp add: mock_runtime.keeps_back_def [OF lib])
qed

theorem frozen_funds_stay_witness:
  "\<exists>t. freezer_dispatch (test_freezer_config purse_lib) Root (FreezeAmount 1 900000)
       (new_test_ext purse_lib) = (Inr (), t) \<and>
     900000 \<le> p_funds (freezer_bank (run_calls purse_lib
       [Transfer 1 2 50000 Preserve, Transfer 1 2 60000 Expendable] t)) 1"
proof -
  obtain t where t: "freezer_dispatch (test_freezer_config purse_lib) Root (FreezeAmount 1 900000)
      (run_calls purse_lib [] (new_test_ext purse_lib)) = (Inr (), t)"
    using purse_runtime.dispatch_succeeds [of "FreezeAmount 1 900000" "new_test_ext purse_lib"]
    by (auto simp: run_calls_def purse_runtime.start_book purse_runtime.start_funds simp del: purse_sel)
  have "funds purse_lib (freezer_bank (run_calls purse_lib [] (new_test_ext purse_lib))) 1 = 1000000"
    by (simp add: run_calls_def purse_runtime.start_funds del: purse_sel)
  with frozen_funds_stay [OF purse.balances_pallet_axioms t, where a = 1 and w = 900000
      and calls = "[Transfer 1 2 50000 Preserve, Transfer 1 2 60000 Expendable]"] t
  show ?thesis by (simp add: run_calls_def min_def del: run_call.simps)
qed

end
