(* ===== verification/Node_Rpc.thy ===== *)
theory Node_Rpc
  imports Fallible
begin

text \<open>
  The node's RPC methods (\<open>node/src/rpc.rs\<close>): \<open>create_full\<close> merges the system and the
  transaction payment methods into an empty module. Modules are opaque values of type
  \<open>'m\<close>; the RPC library is a record of functions.
\<close>

record 'h full_deps =
  deps_client :: 'h
  deps_pool :: 'h

record ('e, 'h, 'm) rpc_lib =
  empty_module :: 'm
  system_rpc :: "'h \<Rightarrow> 'h \<Rightarrow> 'm"
  payment_rpc :: "'h \<Rightarrow> 'm"
  merge :: "'m \<Rightarrow> 'm \<Rightarrow> 'e + 'm"

definition create_full :: "('e, 'h, 'm) rpc_lib \<Rightarrow> 'h full_deps \<Rightarrow> 'e + 'm" where
  "create_full R deps =
     and_then (merge R (empty_module R) (system_rpc R (deps_client deps) (deps_pool deps)))
       (\<lambda>m. merge R m (payment_rpc R (deps_client deps)))"

text \<open>
  The documented contract of a merge: it fails when a method name of the other module is
  taken, and otherwise the module has the methods of both.
\<close>

locale rpc_modules =
  fixes R :: "('e, 'h, 'm) rpc_lib" and methods :: "'m \<Rightarrow> string set"
  assumes merge_taken: "methods a \<inter> methods b \<noteq> {} \<Longrightarrow> \<exists>e. merge R a b = Inl e"
    and merge_free: "methods a \<inter> methods b = {} \<Longrightarrow>
      \<exists>m. merge R a b = Inr m \<and> methods m = methods a \<union> methods b"
    and empty_methods: "methods (empty_module R) = {}"
begin

text \<open>The RPC server comes up exactly when the two method sets do not overlap, and then serves
  both.\<close>

lemma create_full_iff:
  "(\<exists>m. create_full R deps = Inr m \<and>
      methods m = methods (system_rpc R (deps_client deps) (deps_pool deps)) \<union>
        methods (payment_rpc R (deps_client deps))) \<longleftrightarrow>
   methods (system_rpc R (deps_client deps) (deps_pool deps)) \<inter>
     methods (payment_rpc R (deps_client deps)) = {}"
proof -
  let ?s = "system_rpc R (deps_client deps) (deps_pool deps)"
  obtain m where m: "merge R (empty_module R) ?s = Inr m" "methods m = methods ?s"
    using merge_free [of "empty_module R" ?s] by (auto simp: empty_methods)
  show ?thesis
  proof (cases "methods ?s \<inter> methods (payment_rpc R (deps_client deps)) = {}")
    case True
    with m merge_free [of m "payment_rpc R (deps_client deps)"] show ?thesis
      by (auto simp: create_full_def)
  next
    case False
    with m merge_taken [of m "payment_rpc R (deps_client deps)"] show ?thesis
      by (auto simp: create_full_def)
  qed
qed

end

text \<open>Modules as lists of method names, with the methods the two crates document.\<close>

definition name_rpc :: "(string, unit, string list) rpc_lib" where
  "name_rpc =
     \<lparr>empty_module = [],
      system_rpc = (\<lambda>_ _. [''system_accountNextIndex'', ''system_dryRun'']),
      payment_rpc = (\<lambda>_. [''payment_queryInfo'', ''payment_queryFeeDetails'']),
      merge = (\<lambda>a b. if set a \<inter> set b = {} then Inr (a @ b) else Inl ''taken'')\<rparr>"

interpretation names: rpc_modules name_rpc set
  by unfold_locales (auto simp: name_rpc_def)

end
