(* ===== verification/Node_Service.thy ===== *)
theory Node_Service
  imports Node_Rpc
begin

text \<open>
  The node's service (\<open>node/src/service.rs\<close>): \<open>new_partial\<close>, which opens the client and
  the import queue, and \<open>new_full\<close>, which starts the network, the workers and the two
  consensus tasks. Everything the two functions call is library code, so the libraries are
  a record of functions; the model is what this repository decides: the order of the calls,
  what is passed where, which steps depend on the configuration, which errors end the
  start-up, and which tasks are spawned how. Objects of the libraries are opaque handles of
  type \<open>'h\<close>; a \<open>ServiceError\<close> is of type \<open>'e\<close>.
\<close>

section \<open>Configuration and tasks\<close>

datatype role = Full | Authority

definition is_authority :: "role \<Rightarrow> bool" where
  "is_authority r \<longleftrightarrow> r = Authority"

datatype network_backend = Libp2p | Litep2p

record 'h configuration =
  telemetry_endpoints :: "string list option"
  executor_config :: 'h
  node_role :: role
  pool_options :: 'h
  prometheus_registry :: "'h option"
  network_config :: 'h
  network_backend_choice :: "network_backend option"
  node_name :: string
  config_chain_spec :: 'h
  config_database :: 'h
  offchain_enabled :: bool
  force_authoring :: bool
  disable_grandpa :: bool

text \<open>A task of the task manager: its name and group, whether it blocks a thread, whether the
  node goes down with it, and the future it runs.\<close>

record 'h task =
  task_name :: string
  task_group :: "string option"
  blocking :: bool
  essential :: bool
  future :: 'h

definition GRANDPA_JUSTIFICATION_PERIOD :: u32 where
  "GRANDPA_JUSTIFICATION_PERIOD = 512"

section \<open>The library\<close>

text \<open>Arguments the code hands to the larger library calls, as the code names them. A closure
  for the inherent data is a function from the parent and the system time to the slot and
  the timestamp.\<close>

type_synonym ('e, 'h) inherents = "'h \<Rightarrow> u64 \<Rightarrow> 'e + (u64 \<times> u64)"

record 'h parts =
  p_client :: 'h
  p_backend :: 'h
  p_keystore :: 'h

record ('e, 'h) import_queue_params =
  iq_block_import :: 'h
  iq_justification_import :: "'h option"
  iq_client :: 'h
  iq_inherents :: "('e, 'h) inherents"
  iq_registry :: "'h option"
  iq_telemetry :: "'h option"

record 'h network_params =
  np_config :: "'h configuration"
  np_net_config :: 'h
  np_client :: 'h
  np_pool :: 'h
  np_import_queue :: 'h
  np_warp_sync :: "'h option"
  np_metrics :: 'h

record 'h network_parts =
  n_network :: 'h
  n_system_rpc_tx :: 'h
  n_tx_handler :: 'h
  n_sync :: 'h

record 'h offchain_options =
  oo_client :: 'h
  oo_is_validator :: bool
  oo_keystore :: "'h option"
  oo_offchain_db :: "'h option"
  oo_pool :: "'h option"
  oo_network :: 'h
  oo_http :: bool

record ('e, 'h) spawn_params =
  sp_config :: "'h configuration"
  sp_network :: 'h
  sp_client :: 'h
  sp_keystore :: 'h
  sp_pool :: 'h
  sp_backend :: 'h
  sp_system_rpc_tx :: 'h
  sp_tx_handler :: 'h
  sp_sync :: 'h
  sp_telemetry :: "'h option"
  sp_rpc_builder :: "'e + 'h"

record ('e, 'h) aura_params =
  a_slot_duration :: u64
  a_client :: 'h
  a_select_chain :: 'h
  a_block_import :: 'h
  a_proposer :: 'h
  a_inherents :: "u64 \<Rightarrow> 'e + (u64 \<times> u64)"
  a_force_authoring :: bool
  a_backoff :: "unit option"
  a_keystore :: 'h
  a_sync_oracle :: 'h
  a_justification_link :: 'h
  a_slot_portion :: "nat \<times> nat"
  a_max_slot_portion :: "(nat \<times> nat) option"
  a_telemetry :: "'h option"

record 'h grandpa_config =
  g_gossip_millis :: u64
  g_justification_period :: u32
  g_name :: "string option"
  g_observer :: bool
  g_keystore :: "'h option"
  g_role :: role
  g_config_telemetry :: "'h option"
  g_protocol_name :: 'h

record 'h grandpa_params =
  v_config :: "'h grandpa_config"
  v_link :: 'h
  v_network :: 'h
  v_sync :: 'h
  v_notification :: 'h
  v_registry :: "'h option"
  v_telemetry :: "'h option"
  v_pool :: 'h

text \<open>
  The library functions the two constructors call, in the order of the source. Those that get
  a spawn handle also answer the tasks they spawn themselves.
\<close>

record ('e, 'h) node_lib =
  telemetry_worker_new :: "nat \<Rightarrow> 'e + 'h"
  new_telemetry :: "'h \<Rightarrow> string list \<Rightarrow> 'h"
  telemetry_handle :: "'h \<Rightarrow> 'h"
  worker_run :: "'h \<Rightarrow> 'h"
  new_wasm_executor :: "'h \<Rightarrow> 'h"
  new_full_parts :: "'h configuration \<Rightarrow> 'h option \<Rightarrow> 'h \<Rightarrow> 'e + ('h parts \<times> 'h task list)"
  longest_chain :: "'h \<Rightarrow> 'h"
  build_pool :: "'h \<Rightarrow> bool \<Rightarrow> 'h \<Rightarrow> 'h option \<Rightarrow> 'h \<times> 'h task list"
  grandpa_block_import :: "'h \<Rightarrow> u32 \<Rightarrow> 'h \<Rightarrow> 'h option \<Rightarrow> 'e + ('h \<times> 'h)"
  slot_duration_at :: "'h \<Rightarrow> 'h \<Rightarrow> 'e + u64"
  slot_from_timestamp :: "u64 \<Rightarrow> u64 \<Rightarrow> u64"
  aura_import_queue :: "('e, 'h) import_queue_params \<Rightarrow> 'e + ('h \<times> 'h task list)"
  full_network_config :: "network_backend \<Rightarrow> 'h \<Rightarrow> 'h option \<Rightarrow> 'h"
  notification_metrics :: "network_backend \<Rightarrow> 'h option \<Rightarrow> 'h"
  peer_store_handle :: "'h \<Rightarrow> 'h"
  block_hash :: "'h \<Rightarrow> u32 \<Rightarrow> 'e + 'h option"
  protocol_standard_name :: "'h \<Rightarrow> 'h \<Rightarrow> 'h"
  grandpa_peers_set_config :: "network_backend \<Rightarrow> 'h \<Rightarrow> 'h \<Rightarrow> 'h \<Rightarrow> 'h \<times> 'h"
  add_notification_protocol :: "'h \<Rightarrow> 'h \<Rightarrow> 'h"
  shared_authority_set :: "'h \<Rightarrow> 'h"
  warp_provider :: "'h \<Rightarrow> 'h \<Rightarrow> 'h"
  build_network :: "'h network_params \<Rightarrow> 'e + ('h network_parts \<times> 'h task list)"
  keystore_of :: "'h \<Rightarrow> 'h"
  offchain_storage :: "'h \<Rightarrow> 'h option"
  offchain_pool_factory :: "'h \<Rightarrow> 'h"
  offchain_workers_new :: "'h offchain_options \<Rightarrow> 'e + 'h"
  offchain_workers_run :: "'h \<Rightarrow> 'h \<Rightarrow> 'h"
  spawn_tasks :: "('e, 'h) spawn_params \<Rightarrow> 'e + 'h task list"
  proposer_factory :: "'h \<Rightarrow> 'h \<Rightarrow> 'h option \<Rightarrow> 'h option \<Rightarrow> 'h"
  aura_slot_duration :: "'h \<Rightarrow> 'e + u64"
  start_aura :: "('e, 'h) aura_params \<Rightarrow> 'e + 'h"
  run_grandpa_voter :: "'h grandpa_params \<Rightarrow> 'e + 'h"
  rpc :: "('e, 'h, 'h) rpc_lib"

text \<open>A start-up ends in a library error or in a panic of the one \<open>expect\<close>.\<close>

datatype 'e startup_error = ServiceError 'e | GenesisMissing

abbreviation lift_error :: "'e + 'a \<Rightarrow> 'e startup_error + 'a" where
  "lift_error \<equiv> map_sum ServiceError id"

section \<open>\<open>new_partial\<close>\<close>

text \<open>Telemetry is set up only for a non-empty list of endpoints; the result keeps the worker
  and the telemetry.\<close>

definition set_up_telemetry ::
    "('e, 'h) node_lib \<Rightarrow> 'h configuration \<Rightarrow> 'e + ('h \<times> 'h) option" where
  "set_up_telemetry L cfg =
     transpose_result
       (map_option
         (\<lambda>endpoints.
            and_then (telemetry_worker_new L 16) (\<lambda>worker.
              Inr (worker, new_telemetry L worker endpoints)))
         (case telemetry_endpoints cfg of
            None \<Rightarrow> None
          | Some x \<Rightarrow> if x \<noteq> [] then Some x else None))"

text \<open>The inherent data the import queue checks blocks against: the slot duration is the one of
  the runtime at the parent.\<close>

definition import_inherents :: "('e, 'h) node_lib \<Rightarrow> 'h \<Rightarrow> ('e, 'h) inherents" where
  "import_inherents L client = (\<lambda>parent_hash timestamp.
     and_then (slot_duration_at L client parent_hash) (\<lambda>slot_duration.
       let slot = slot_from_timestamp L timestamp slot_duration
       in Inr (slot, timestamp)))"

record 'h partial_components =
  client :: 'h
  backend :: 'h
  task_manager :: "'h task list"
  import_queue :: 'h
  keystore_container :: 'h
  select_chain :: 'h
  transaction_pool :: 'h
  block_import :: 'h
  grandpa_link :: 'h
  telemetry :: "'h option"

definition telemetry_task :: "('e, 'h) node_lib \<Rightarrow> 'h \<Rightarrow> 'h task" where
  "telemetry_task L worker =
     \<lparr>task_name = ''telemetry'', task_group = None, blocking = False, essential = False,
      future = worker_run L worker\<rparr>"

definition new_partial ::
    "('e, 'h) node_lib \<Rightarrow> 'h configuration \<Rightarrow> 'e startup_error + 'h partial_components" where
  "new_partial L cfg =
     and_then (lift_error (set_up_telemetry L cfg)) (\<lambda>worker_telemetry.
     let executor = new_wasm_executor L (executor_config cfg) in
     and_then (lift_error (new_full_parts L cfg
         (map_option (\<lambda>(_, t). telemetry_handle L t) worker_telemetry) executor))
       (\<lambda>(parts, tasks0).
     let tasks1 = tasks0 @ (case worker_telemetry of None \<Rightarrow> [] | Some (worker, _) \<Rightarrow> [telemetry_task L worker]);
         tele = map_option snd worker_telemetry;
         chain = longest_chain L (p_backend parts);
         (pool, pool_tasks) = build_pool L (p_client parts) (is_authority (node_role cfg))
           (pool_options cfg) (prometheus_registry cfg) in
     and_then (lift_error (grandpa_block_import L (p_client parts) GRANDPA_JUSTIFICATION_PERIOD chain
         (map_option (telemetry_handle L) tele)))
       (\<lambda>(gimport, link).
     and_then (lift_error (aura_import_queue L
         \<lparr>iq_block_import = gimport, iq_justification_import = Some gimport,
          iq_client = p_client parts, iq_inherents = import_inherents L (p_client parts),
          iq_registry = prometheus_registry cfg,
          iq_telemetry = map_option (telemetry_handle L) tele\<rparr>))
       (\<lambda>(queue, queue_tasks).
     Inr \<lparr>client = p_client parts, backend = p_backend parts,
          task_manager = tasks1 @ pool_tasks @ queue_tasks, import_queue = queue,
          keystore_container = p_keystore parts, select_chain = chain, transaction_pool = pool,
          block_import = gimport, grandpa_link = link, telemetry = tele\<rparr>))))"

section \<open>\<open>new_full\<close>\<close>

text \<open>The network: GRANDPA's protocol is named after the genesis block and added to the network
  configuration before the network is built. The result keeps what the later steps use.\<close>

record 'h networking =
  net_parts :: "'h network_parts"
  net_protocol_name :: 'h
  net_notification :: 'h
  net_tasks :: "'h task list"

definition start_network ::
    "('e, 'h) node_lib \<Rightarrow> network_backend \<Rightarrow> 'h configuration \<Rightarrow> 'h partial_components \<Rightarrow>
     'e startup_error + 'h networking" where
  "start_network L N cfg pc =
     (let net_config = full_network_config L N (network_config cfg) (prometheus_registry cfg);
          metrics = notification_metrics L N (prometheus_registry cfg);
          peer_store = peer_store_handle L net_config in
      and_then (ok_or GenesisMissing (Option.bind (ok (block_hash L (client pc) 0)) (\<lambda>h. h))) (\<lambda>genesis.
      let protocol_name = protocol_standard_name L genesis (config_chain_spec cfg);
          (protocol_config, notification) =
            grandpa_peers_set_config L N protocol_name metrics peer_store;
          net_config' = add_notification_protocol L net_config protocol_config;
          warp_sync = warp_provider L (backend pc) (shared_authority_set L (grandpa_link pc)) in
      and_then (lift_error (build_network L
          \<lparr>np_config = cfg, np_net_config = net_config', np_client = client pc, np_pool = transaction_pool pc,
           np_import_queue = import_queue pc, np_warp_sync = Some warp_sync, np_metrics = metrics\<rparr>))
        (\<lambda>(parts, tasks).
      Inr \<lparr>net_parts = parts, net_protocol_name = protocol_name, net_notification = notification,
           net_tasks = tasks\<rparr>)))"

definition start_offchain_workers ::
    "('e, 'h) node_lib \<Rightarrow> 'h configuration \<Rightarrow> 'h partial_components \<Rightarrow> 'h networking \<Rightarrow>
     'e startup_error + 'h task list" where
  "start_offchain_workers L cfg pc net =
     (if offchain_enabled cfg then
        and_then (lift_error (offchain_workers_new L
            \<lparr>oo_client = client pc, oo_is_validator = is_authority (node_role cfg),
             oo_keystore = Some (keystore_of L (keystore_container pc)),
             oo_offchain_db = offchain_storage L (backend pc),
             oo_pool = Some (offchain_pool_factory L (transaction_pool pc)),
             oo_network = n_network (net_parts net), oo_http = True\<rparr>))
          (\<lambda>workers.
        Inr [\<lparr>task_name = ''offchain-workers-runner'', task_group = Some ''offchain-worker'',
              blocking = False, essential = False,
              future = offchain_workers_run L workers (client pc)\<rparr>])
      else Inr [])"

definition rpc_extensions_builder ::
    "('e, 'h) node_lib \<Rightarrow> 'h partial_components \<Rightarrow> 'e + 'h" where
  "rpc_extensions_builder L pc =
     create_full (rpc L) \<lparr>deps_client = client pc, deps_pool = transaction_pool pc\<rparr>"

definition start_rpc_and_tasks ::
    "('e, 'h) node_lib \<Rightarrow> 'h configuration \<Rightarrow> 'h partial_components \<Rightarrow> 'h networking \<Rightarrow>
     'e startup_error + 'h task list" where
  "start_rpc_and_tasks L cfg pc net =
     lift_error (spawn_tasks L
       \<lparr>sp_config = cfg, sp_network = n_network (net_parts net), sp_client = client pc,
        sp_keystore = keystore_of L (keystore_container pc), sp_pool = transaction_pool pc,
        sp_backend = backend pc, sp_system_rpc_tx = n_system_rpc_tx (net_parts net),
        sp_tx_handler = n_tx_handler (net_parts net), sp_sync = n_sync (net_parts net),
        sp_telemetry = telemetry pc, sp_rpc_builder = rpc_extensions_builder L pc\<rparr>)"

text \<open>The inherent data of a block the node authors: the slot duration is the one read at start-up.\<close>

definition authoring_inherents ::
    "('e, 'h) node_lib \<Rightarrow> u64 \<Rightarrow> u64 \<Rightarrow> 'e + (u64 \<times> u64)" where
  "authoring_inherents L slot_duration = (\<lambda>timestamp.
     let slot = slot_from_timestamp L timestamp slot_duration in Inr (slot, timestamp))"

definition start_authoring ::
    "('e, 'h) node_lib \<Rightarrow> 'h configuration \<Rightarrow> 'h partial_components \<Rightarrow> 'h networking \<Rightarrow>
     'e startup_error + 'h task list" where
  "start_authoring L cfg pc net =
     (if is_authority (node_role cfg) then
        let proposer = proposer_factory L (client pc) (transaction_pool pc) (prometheus_registry cfg)
              (map_option (telemetry_handle L) (telemetry pc)) in
        and_then (lift_error (aura_slot_duration L (client pc))) (\<lambda>slot_duration.
        and_then (lift_error (start_aura L
            \<lparr>a_slot_duration = slot_duration, a_client = client pc, a_select_chain = select_chain pc,
             a_block_import = block_import pc, a_proposer = proposer,
             a_inherents = authoring_inherents L slot_duration,
             a_force_authoring = force_authoring cfg, a_backoff = None,
             a_keystore = keystore_of L (keystore_container pc),
             a_sync_oracle = n_sync (net_parts net), a_justification_link = n_sync (net_parts net),
             a_slot_portion = (2, 3), a_max_slot_portion = None,
             a_telemetry = map_option (telemetry_handle L) (telemetry pc)\<rparr>))
          (\<lambda>aura.
        Inr [\<lparr>task_name = ''aura'', task_group = Some ''block-authoring'',
              blocking = True, essential = True, future = aura\<rparr>]))
      else Inr [])"

definition voter_params ::
    "('e, 'h) node_lib \<Rightarrow> 'h configuration \<Rightarrow> 'h partial_components \<Rightarrow> 'h networking \<Rightarrow> 'h grandpa_params" where
  "voter_params L cfg pc net =
     (let keystore = (if is_authority (node_role cfg)
                      then Some (keystore_of L (keystore_container pc)) else None);
          tele = map_option (telemetry_handle L) (telemetry pc) in
      \<lparr>v_config = \<lparr>g_gossip_millis = 333,
         g_justification_period = GRANDPA_JUSTIFICATION_PERIOD, g_name = Some (node_name cfg),
         g_observer = False, g_keystore = keystore, g_role = node_role cfg,
         g_config_telemetry = tele, g_protocol_name = net_protocol_name net\<rparr>,
       v_link = grandpa_link pc, v_network = n_network (net_parts net),
       v_sync = n_sync (net_parts net), v_notification = net_notification net,
       v_registry = prometheus_registry cfg, v_telemetry = tele,
       v_pool = offchain_pool_factory L (transaction_pool pc)\<rparr>)"

definition start_finality ::
    "('e, 'h) node_lib \<Rightarrow> 'h configuration \<Rightarrow> 'h partial_components \<Rightarrow> 'h networking \<Rightarrow>
     'e startup_error + 'h task list" where
  "start_finality L cfg pc net =
     (if \<not> disable_grandpa cfg then
        and_then (lift_error (run_grandpa_voter L (voter_params L cfg pc net))) (\<lambda>voter.
        Inr [\<lparr>task_name = ''grandpa-voter'', task_group = None, blocking = True, essential = True,
              future = voter\<rparr>])
      else Inr [])"

text \<open>The tasks of the running node, in the order they were spawned.\<close>

definition new_full ::
    "('e, 'h) node_lib \<Rightarrow> network_backend \<Rightarrow> 'h configuration \<Rightarrow> 'e startup_error + 'h task list" where
  "new_full L N cfg =
     and_then (new_partial L cfg) (\<lambda>pc.
     and_then (start_network L N cfg pc) (\<lambda>net.
     and_then (start_offchain_workers L cfg pc net) (\<lambda>offchain.
     and_then (start_rpc_and_tasks L cfg pc net) (\<lambda>services.
     and_then (start_authoring L cfg pc net) (\<lambda>authoring.
     and_then (start_finality L cfg pc net) (\<lambda>finality.
     Inr (task_manager pc @ net_tasks net @ offchain @ services @ authoring @ finality)))))))"

lemmas start_defs = start_network_def start_offchain_workers_def start_rpc_and_tasks_def
  start_authoring_def start_finality_def

section \<open>What the start-up needs\<close>

definition wants_telemetry :: "'h configuration \<Rightarrow> bool" where
  "wants_telemetry cfg \<longleftrightarrow> (\<exists>e es. telemetry_endpoints cfg = Some (e # es))"

lemma set_up_telemetry_eq:
  "set_up_telemetry L cfg =
     (if wants_telemetry cfg
      then and_then (telemetry_worker_new L 16) (\<lambda>w.
        Inr (Some (w, new_telemetry L w (the (telemetry_endpoints cfg)))))
      else Inr None)"
  by (cases "telemetry_worker_new L 16")
    (auto simp: set_up_telemetry_def wants_telemetry_def neq_Nil_conv split: option.split)

lemma lift_error_simps [simp]:
  "lift_error r = Inr x \<longleftrightarrow> r = Inr x" "lift_error r = Inl (ServiceError e) \<longleftrightarrow> r = Inl e"
  "lift_error r \<noteq> Inl GenesisMissing"
  by (cases r; simp)+

text \<open>What an observer of the task manager sees of a task.\<close>

definition task_kind :: "'h task \<Rightarrow> string \<times> string option \<times> bool \<times> bool" where
  "task_kind t = (task_name t, task_group t, blocking t, essential t)"

definition own_names :: "string set" where
  "own_names = {''telemetry'', ''offchain-workers-runner'', ''aura'', ''grandpa-voter''}"

definition own_tasks :: "'h task list \<Rightarrow> 'h task list" where
  "own_tasks ts = filter (\<lambda>t. task_name t \<in> own_names) ts"

text \<open>The tasks the libraries spawn for themselves have other names.\<close>

definition foreign :: "'h task list \<Rightarrow> bool" where
  "foreign ts \<longleftrightarrow> (\<forall>t\<in>set ts. task_name t \<notin> own_names)"

definition foreign_libraries :: "('e, 'h) node_lib \<Rightarrow> bool" where
  "foreign_libraries L \<longleftrightarrow>
     (\<forall>cfg t x p ts. new_full_parts L cfg t x = Inr (p, ts) \<longrightarrow> foreign ts) \<and>
     (\<forall>c a pl r. foreign (snd (build_pool L c a pl r))) \<and>
     (\<forall>p q ts. aura_import_queue L p = Inr (q, ts) \<longrightarrow> foreign ts) \<and>
     (\<forall>p q ts. build_network L p = Inr (q, ts) \<longrightarrow> foreign ts) \<and>
     (\<forall>p ts. spawn_tasks L p = Inr ts \<longrightarrow> foreign ts)"

lemma own_tasks_append [simp]: "own_tasks (xs @ ys) = own_tasks xs @ own_tasks ys"
  by (simp add: own_tasks_def)

lemma own_tasks_Nil [simp]: "own_tasks [] = []"
  by (simp add: own_tasks_def)

lemma own_tasks_foreign [simp]: "foreign ts \<Longrightarrow> own_tasks ts = []"
  by (auto simp: own_tasks_def foreign_def filter_empty_conv)

lemma new_partial_ok:
  assumes "new_partial L cfg = Inr pc"
  shows "\<exists>wt t x parts tasks0 queue queue_tasks q.
    set_up_telemetry L cfg = Inr wt \<and> new_full_parts L cfg t x = Inr (parts, tasks0) \<and>
    aura_import_queue L q = Inr (queue, queue_tasks) \<and> telemetry pc = map_option snd wt \<and>
    task_manager pc = tasks0 @ (case wt of None \<Rightarrow> [] | Some (w, _) \<Rightarrow> [telemetry_task L w]) @
      snd (build_pool L (p_client parts) (is_authority (node_role cfg)) (pool_options cfg)
        (prometheus_registry cfg)) @ queue_tasks"
  using assms
  by (auto simp: new_partial_def and_then_Inr Let_def case_prod_beta) blast+

lemma new_partial_own:
  assumes "foreign_libraries L" "new_partial L cfg = Inr pc"
  shows "map task_kind (own_tasks (task_manager pc)) =
      (if wants_telemetry cfg then [(''telemetry'', None, False, False)] else []) \<and>
    (telemetry pc \<noteq> None \<longleftrightarrow> wants_telemetry cfg)"
proof -
  have tele: "map task_kind (own_tasks [telemetry_task L w]) = [(''telemetry'', None, False, False)]" for w
    by (simp add: own_tasks_def own_names_def telemetry_task_def task_kind_def)
  from new_partial_ok [OF assms(2)] obtain wt t x parts tasks0 queue queue_tasks q where
    parts: "set_up_telemetry L cfg = Inr wt" "new_full_parts L cfg t x = Inr (parts, tasks0)"
      "aura_import_queue L q = Inr (queue, queue_tasks)" "telemetry pc = map_option snd wt"
    and tasks: "task_manager pc = tasks0 @ (case wt of None \<Rightarrow> [] | Some (w, _) \<Rightarrow> [telemetry_task L w]) @
      snd (build_pool L (p_client parts) (is_authority (node_role cfg)) (pool_options cfg)
        (prometheus_registry cfg)) @ queue_tasks"
    by blast
  have "foreign tasks0" "foreign queue_tasks" "\<And>c a pl r. foreign (snd (build_pool L c a pl r))"
    using assms(1) parts(2,3) by (auto simp: foreign_libraries_def)
  then have own: "own_tasks (task_manager pc) =
      own_tasks (case wt of None \<Rightarrow> [] | Some (w, _) \<Rightarrow> [telemetry_task L w])"
    by (simp add: tasks)
  show ?thesis
  proof (cases "wants_telemetry cfg")
    case True
    with parts(1) obtain w u where "wt = Some (w, u)"
      by (auto simp: set_up_telemetry_eq and_then_Inr)
    with True parts(4) own show ?thesis by (simp add: tele)
  next
    case False
    with parts(1,4) own show ?thesis by (simp add: set_up_telemetry_eq)
  qed
qed

lemma start_own:
  assumes "foreign_libraries L"
  shows "start_network L N cfg pc = Inr net \<Longrightarrow> own_tasks (net_tasks net) = []"
    and "start_rpc_and_tasks L cfg pc net = Inr svc \<Longrightarrow> own_tasks svc = []"
    and "start_offchain_workers L cfg pc net = Inr off \<Longrightarrow> map task_kind (own_tasks off) =
      (if offchain_enabled cfg then [(''offchain-workers-runner'', Some ''offchain-worker'', False, False)] else [])"
    and "start_authoring L cfg pc net = Inr aura \<Longrightarrow> map task_kind (own_tasks aura) =
      (if is_authority (node_role cfg) then [(''aura'', Some ''block-authoring'', True, True)] else [])"
    and "start_finality L cfg pc net = Inr fin \<Longrightarrow> map task_kind (own_tasks fin) =
      (if disable_grandpa cfg then [] else [(''grandpa-voter'', None, True, True)])"
  using assms
  by (auto simp: start_defs and_then_Inr Let_def case_prod_beta foreign_libraries_def
      own_tasks_def [of "[_]"] own_names_def task_kind_def split: if_splits)

lemma new_full_ok:
  assumes "new_full L N cfg = Inr tasks"
  obtains pc net off svc aura fin where
    "new_partial L cfg = Inr pc" "start_network L N cfg pc = Inr net"
    "start_offchain_workers L cfg pc net = Inr off" "start_rpc_and_tasks L cfg pc net = Inr svc"
    "start_authoring L cfg pc net = Inr aura" "start_finality L cfg pc net = Inr fin"
    "tasks = task_manager pc @ net_tasks net @ off @ svc @ aura @ fin"
  using assms by (auto simp: new_full_def and_then_Inr)

text \<open>The voter is started with the authority keys only on an authority, and generates
  justifications at the period at which they are imported.\<close>

lemma start_finality_voter:
  assumes "start_finality L cfg pc net = Inr fin" "t \<in> set fin"
  shows "\<exists>p. run_grandpa_voter L p = Inr (future t) \<and>
    (g_keystore (v_config p) \<noteq> None \<longleftrightarrow> is_authority (node_role cfg)) \<and>
    g_justification_period (v_config p) = 512 \<and> v_link p = grandpa_link pc"
  using assms
  by (auto simp: start_finality_def and_then_Inr voter_params_def Let_def GRANDPA_JUSTIFICATION_PERIOD_def
      split: if_splits)

section \<open>A concrete library\<close>

text \<open>Handles are natural numbers; every fallible call succeeds, except those named in \<open>broken\<close>.\<close>

definition demo_lib :: "string set \<Rightarrow> (string, nat) node_lib" where
  "demo_lib broken =
     (\<lparr>telemetry_worker_new = (\<lambda>_. if ''telemetry'' \<in> broken then Inl ''telemetry'' else Inr 1),
       new_telemetry = (\<lambda>w _. w + 1), telemetry_handle = (\<lambda>t. t), worker_run = (\<lambda>w. w),
       new_wasm_executor = (\<lambda>x. x),
       new_full_parts = (\<lambda>_ _ _. if ''parts'' \<in> broken then Inl ''parts''
         else Inr (\<lparr>p_client = 3, p_backend = 4, p_keystore = 5\<rparr>, [])),
       longest_chain = (\<lambda>b. b), build_pool = (\<lambda>c _ _ _. (c + 1, [])),
       grandpa_block_import = (\<lambda>_ _ _ _. if ''import'' \<in> broken then Inl ''import'' else Inr (6, 7)),
       slot_duration_at = (\<lambda>_ _. Inr 2000), slot_from_timestamp = (\<lambda>t d. t div d),
       aura_import_queue = (\<lambda>_. if ''queue'' \<in> broken then Inl ''queue'' else Inr (8, [])),
       full_network_config = (\<lambda>_ n _. n), notification_metrics = (\<lambda>_ _. 0),
       peer_store_handle = (\<lambda>n. n),
       block_hash = (\<lambda>_ n. if ''genesis'' \<in> broken then Inr None else Inr (Some (unat n))),
       protocol_standard_name = (\<lambda>g _. g), grandpa_peers_set_config = (\<lambda>_ n _ _. (n, n)),
       add_notification_protocol = (\<lambda>n _. n), shared_authority_set = (\<lambda>l. l),
       warp_provider = (\<lambda>b _. b),
       build_network = (\<lambda>_. if ''network'' \<in> broken then Inl ''network''
         else Inr (\<lparr>n_network = 9, n_system_rpc_tx = 10, n_tx_handler = 11, n_sync = 12\<rparr>, [])),
       keystore_of = (\<lambda>k. k), offchain_storage = Some, offchain_pool_factory = (\<lambda>p. p),
       offchain_workers_new = (\<lambda>_. if ''offchain'' \<in> broken then Inl ''offchain'' else Inr 13),
       offchain_workers_run = (\<lambda>w _. w),
       spawn_tasks = (\<lambda>_. if ''tasks'' \<in> broken then Inl ''tasks'' else Inr []),
       proposer_factory = (\<lambda>_ _ _ _. 14),
       aura_slot_duration = (\<lambda>_. if ''slot'' \<in> broken then Inl ''slot'' else Inr 2000),
       start_aura = (\<lambda>_. if ''aura'' \<in> broken then Inl ''aura'' else Inr 15),
       run_grandpa_voter = (\<lambda>_. if ''voter'' \<in> broken then Inl ''voter'' else Inr 16),
       rpc = \<lparr>empty_module = 0, system_rpc = (\<lambda>_ _. 1), payment_rpc = (\<lambda>_. 2),
              merge = (\<lambda>a b. Inr (a + b))\<rparr>\<rparr>)"

lemma demo_lib_foreign: "foreign_libraries (demo_lib broken)"
  by (auto simp: foreign_libraries_def demo_lib_def foreign_def split: if_splits)

definition demo_node :: "role \<Rightarrow> bool \<Rightarrow> nat configuration" where
  "demo_node r finality =
     \<lparr>telemetry_endpoints = Some [], executor_config = 0, node_role = r, pool_options = 0,
      prometheus_registry = None, network_config = 0, network_backend_choice = None,
      node_name = ''demo'', config_chain_spec = 0, config_database = 0, offchain_enabled = True,
      force_authoring = False, disable_grandpa = \<not> finality\<rparr>"

section \<open>Properties\<close>

text \<open>C20: the tasks of a running node. Whenever the start-up succeeds, the tasks this code
  spawned are exactly these, in this order: telemetry if endpoints are configured, the
  offchain worker if it is enabled, block authoring on an authority, and the finality voter
  unless it is disabled. Authoring and voting are essential blocking tasks, the others are
  not. The voter holds the authority keys only on an authority, and justifies every 512
  blocks, the period of the block import.\<close>

theorem node_tasks_exact:
  assumes "foreign_libraries L" and "new_full L N cfg = Inr tasks"
  shows "map task_kind (own_tasks tasks) =
      (if wants_telemetry cfg then [(''telemetry'', None, False, False)] else []) @
      (if offchain_enabled cfg
       then [(''offchain-workers-runner'', Some ''offchain-worker'', False, False)] else []) @
      (if node_role cfg = Authority then [(''aura'', Some ''block-authoring'', True, True)] else []) @
      (if disable_grandpa cfg then [] else [(''grandpa-voter'', None, True, True)]) \<and>
    (\<forall>t\<in>set (own_tasks tasks). task_name t = ''grandpa-voter'' \<longrightarrow>
      (\<exists>p. run_grandpa_voter L p = Inr (future t) \<and>
        (g_keystore (v_config p) \<noteq> None \<longleftrightarrow> node_role cfg = Authority) \<and>
        g_justification_period (v_config p) = 512))"
proof -
  obtain pc net off svc aura fin where ok:
    "new_partial L cfg = Inr pc" "start_network L N cfg pc = Inr net"
    "start_offchain_workers L cfg pc net = Inr off" "start_rpc_and_tasks L cfg pc net = Inr svc"
    "start_authoring L cfg pc net = Inr aura" "start_finality L cfg pc net = Inr fin"
    and tasks: "tasks = task_manager pc @ net_tasks net @ off @ svc @ aura @ fin"
    using assms(2) by (rule new_full_ok)
  note kinds = new_partial_own [OF assms(1) ok(1)] start_own(3) [OF assms(1) ok(3)]
    start_own(4) [OF assms(1) ok(5)] start_own(5) [OF assms(1) ok(6)]
  have own: "own_tasks tasks = own_tasks (task_manager pc) @ own_tasks off @ own_tasks aura @ own_tasks fin"
    using start_own(1) [OF assms(1) ok(2)] start_own(2) [OF assms(1) ok(4)] by (simp add: tasks)
  have other: "task_name t \<noteq> ''grandpa-voter''"
    if "t \<in> set (own_tasks (task_manager pc) @ own_tasks off @ own_tasks aura)" for t
  proof -
    have "task_kind t \<in> set (map task_kind (own_tasks (task_manager pc) @ own_tasks off @ own_tasks aura))"
      using that by (simp only: list.set_map) blast
    then show ?thesis
      using kinds by (auto simp: task_kind_def split: if_splits)
  qed
  have voter: "\<exists>p. run_grandpa_voter L p = Inr (future t) \<and>
      (g_keystore (v_config p) \<noteq> None \<longleftrightarrow> node_role cfg = Authority) \<and>
      g_justification_period (v_config p) = 512" if "t \<in> set (own_tasks fin)" for t
    using start_finality_voter [OF ok(6), of t] that by (auto simp: own_tasks_def is_authority_def)
  show ?thesis
    using kinds other voter unfolding own by (auto simp: is_authority_def)
qed

theorem node_tasks_exact_witness:
  "\<exists>tasks. new_full (demo_lib {}) Libp2p (demo_node Authority True) = Inr tasks \<and>
     map task_kind (own_tasks tasks) =
       [(''offchain-workers-runner'', Some ''offchain-worker'', False, False),
        (''aura'', Some ''block-authoring'', True, True), (''grandpa-voter'', None, True, True)]"
proof -
  obtain tasks where t: "new_full (demo_lib {}) Libp2p (demo_node Authority True) = Inr tasks"
    by (simp add: new_full_def new_partial_def set_up_telemetry_def start_defs demo_lib_def demo_node_def
        is_authority_def)
  from node_tasks_exact [OF demo_lib_foreign t] t show ?thesis
    by (simp add: wants_telemetry_def demo_node_def)
qed

text \<open>The calls a configuration needs; the others may fail without consequence.\<close>

definition needed_calls_succeed :: "('e, 'h) node_lib \<Rightarrow> 'h configuration \<Rightarrow> bool" where
  "needed_calls_succeed L cfg \<longleftrightarrow>
     (wants_telemetry cfg \<longrightarrow> \<not> isl (telemetry_worker_new L 16)) \<and>
     (\<forall>c t x. \<not> isl (new_full_parts L c t x)) \<and>
     (\<forall>c p s t. \<not> isl (grandpa_block_import L c p s t)) \<and>
     (\<forall>p. \<not> isl (aura_import_queue L p)) \<and>
     (\<forall>c. \<exists>h. block_hash L c 0 = Inr (Some h)) \<and>
     (\<forall>p. \<not> isl (build_network L p)) \<and>
     (offchain_enabled cfg \<longrightarrow> (\<forall>p. \<not> isl (offchain_workers_new L p))) \<and>
     (\<forall>p. \<not> isl (spawn_tasks L p)) \<and>
     (node_role cfg = Authority \<longrightarrow>
        (\<forall>c. \<not> isl (aura_slot_duration L c)) \<and> (\<forall>p. \<not> isl (start_aura L p))) \<and>
     (\<not> disable_grandpa cfg \<longrightarrow> (\<forall>p. \<not> isl (run_grandpa_voter L p)))"

lemma isl_lift_error [simp]: "isl (lift_error r) = isl r"
  by (cases r) simp_all

lemma not_isl: "\<not> isl r \<longleftrightarrow> (\<exists>x. r = Inr x)"
  by (cases r) auto

text \<open>The start-up succeeds whenever the calls its configuration needs succeed: a disabled
  offchain worker, a missing telemetry endpoint, a node that is not an authority or a
  disabled voter take their library calls out of the path altogether.\<close>

theorem startup_succeeds:
  assumes "needed_calls_succeed L cfg"
  shows "\<exists>tasks. new_full L N cfg = Inr tasks"
proof -
  have "\<not> isl (new_partial L cfg)"
    using assms
    by (simp add: new_partial_def set_up_telemetry_eq isl_and_then needed_calls_succeed_def Let_def
        case_prod_beta)
  then obtain pc where pc: "new_partial L cfg = Inr pc" by (auto simp: not_isl)
  obtain h where "block_hash L (client pc) 0 = Inr (Some h)"
    using assms unfolding needed_calls_succeed_def by blast
  then have "\<not> isl (start_network L N cfg pc)"
    using assms
    by (simp add: start_network_def isl_and_then needed_calls_succeed_def Let_def case_prod_beta)
  then obtain net where net: "start_network L N cfg pc = Inr net" by (auto simp: not_isl)
  have "\<not> isl (start_offchain_workers L cfg pc net)" "\<not> isl (start_rpc_and_tasks L cfg pc net)"
    "\<not> isl (start_authoring L cfg pc net)" "\<not> isl (start_finality L cfg pc net)"
    using assms
    by (simp_all add: start_defs isl_and_then needed_calls_succeed_def Let_def is_authority_def)
  with pc net show ?thesis by (auto simp: new_full_def not_isl)
qed

theorem startup_succeeds_witness:
  "\<exists>tasks. new_full (demo_lib {''aura'', ''slot'', ''voter'', ''telemetry''}) Litep2p
     (demo_node Full False) = Inr tasks"
proof -
  have "needed_calls_succeed (demo_lib {''aura'', ''slot'', ''voter'', ''telemetry''}) (demo_node Full False)"
    by (simp add: needed_calls_succeed_def demo_lib_def demo_node_def wants_telemetry_def)
  from startup_succeeds [OF this] show ?thesis .
qed

text \<open>A failure stops the start-up. If the network cannot be built, or on an authority
  authoring cannot start, or an enabled voter cannot start, no node comes up, and when the
  client or the import queue fails its error is the start-up's error, whatever the later
  calls would do.\<close>

theorem startup_fails_fast:
  assumes "(\<forall>p. isl (build_network L p)) \<or>
    (node_role cfg = Authority \<and> (\<forall>p. isl (start_aura L p))) \<or>
    (\<not> disable_grandpa cfg \<and> (\<forall>p. isl (run_grandpa_voter L p))) \<or>
    new_partial L cfg = Inl e"
  shows "isl (new_full L N cfg) \<and> (new_partial L cfg = Inl e \<longrightarrow> new_full L N cfg = Inl e)"
proof -
  have net: "isl (start_network L N cfg pc)" if "\<forall>p. isl (build_network L p)" for pc
    using that by (simp add: start_network_def isl_and_then Let_def case_prod_beta)
  have aura: "isl (start_authoring L cfg pc n)"
    if "node_role cfg = Authority" "\<forall>p. isl (start_aura L p)" for pc n
    using that by (simp add: start_authoring_def isl_and_then is_authority_def)
  have voter: "isl (start_finality L cfg pc n)"
    if "\<not> disable_grandpa cfg" "\<forall>p. isl (run_grandpa_voter L p)" for pc n
    using that by (simp add: start_finality_def isl_and_then)
  have "isl (new_full L N cfg)"
    using assms
    by (elim disjE conjE) (simp_all add: new_full_def isl_and_then net aura voter)
  then show ?thesis by (simp add: new_full_def)
qed

theorem startup_fails_fast_witness:
  "isl (new_full (demo_lib {''aura''}) Libp2p (demo_node Authority True)) \<and>
   isl (new_full (demo_lib {''voter''}) Libp2p (demo_node Full True))"
proof -
  have "node_role (demo_node Authority True) = Authority \<and> (\<forall>p. isl (start_aura (demo_lib {''aura''}) p))"
    "\<not> disable_grandpa (demo_node Full True) \<and> (\<forall>p. isl (run_grandpa_voter (demo_lib {''voter''}) p))"
    by (simp_all add: demo_lib_def demo_node_def)
  then show ?thesis
    using startup_fails_fast [of "demo_lib {''aura''}" "demo_node Authority True" undefined Libp2p]
      startup_fails_fast [of "demo_lib {''voter''}" "demo_node Full True" undefined Libp2p]
    by blast
qed

text \<open>With the slot duration the runtime reports unchanged since start-up, the authored inherent
  data is what the import queue of any node computes for the same time.\<close>

lemma inherents_agree:
  "slot_duration_at L c parent = Inr d \<Longrightarrow>
   import_inherents L c parent = authoring_inherents L d"
  by (simp add: import_inherents_def authoring_inherents_def fun_eq_iff)

end
