(* ===== verification/Node_Benchmarking.thy ===== *)
theory Node_Benchmarking
  imports Runtime_Types Fallible
begin

text \<open>
  The extrinsics of the node's benchmark commands (\<open>node/src/benchmarking.rs\<close>): the mortal
  period derived from \<open>BlockHashCount\<close>, the signed extrinsic with its extensions and the
  additional data that is signed with them, the two builders, and the inherent data. The
  client, the keyring, signing and eras are library code: a record of functions.
\<close>

section \<open>The mortal period\<close>

text \<open>\<open>u32::checked_next_power_of_two\<close>: the least power of two that is not below the argument,
  unless it does not fit the width.\<close>

function pow2_from :: "nat \<Rightarrow> nat \<Rightarrow> nat" where
  "pow2_from p n = (if p = 0 \<or> n \<le> p then p else pow2_from (2 * p) n)"
  by pat_completeness auto
termination by (relation "measure (\<lambda>(p, n). n - p)") auto

declare pow2_from.simps [simp del]

definition checked_next_power_of_two :: "u32 \<Rightarrow> u32 option" where
  "checked_next_power_of_two x =
     (let p = pow2_from 1 (unat x) in if p < 2 ^ 32 then Some (of_nat p) else None)"

definition mortal_period :: "u32 \<Rightarrow> u64" where
  "mortal_period count =
     ucast (case map_option (\<lambda>c. c div 2) (checked_next_power_of_two count) of
        None \<Rightarrow> 2
      | Some c \<Rightarrow> c)"

text \<open>The loop finds the least power of two: one that is big enough, with its half too small.\<close>

lemma pow2_from_spec:
  "0 < p \<Longrightarrow> \<exists>k. pow2_from p n = p * 2 ^ k \<and> n \<le> p * 2 ^ k \<and> (k = 0 \<or> p * 2 ^ k < 2 * n)"
proof (induction p n rule: pow2_from.induct)
  case (1 p n)
  show ?case
  proof (cases "n \<le> p")
    case True
    then show ?thesis by (intro exI [of _ 0]) (simp add: pow2_from.simps)
  next
    case False
    with 1 obtain k where k: "pow2_from (2 * p) n = 2 * p * 2 ^ k" "n \<le> 2 * p * 2 ^ k"
      "k = 0 \<or> 2 * p * 2 ^ k < 2 * n" by auto
    with False 1(2) show ?thesis
      by (intro exI [of _ "Suc k"]) (auto simp: pow2_from.simps [of p])
  qed
qed

lemma checked_next_power_of_two_range:
  assumes "2 \<le> unat x" "unat x \<le> 2 ^ 31"
  shows "\<exists>k. k < 31 \<and> checked_next_power_of_two x = Some (2 ^ Suc k) \<and>
    2 ^ k < unat x \<and> unat x \<le> 2 ^ Suc k"
proof -
  obtain k where k: "pow2_from 1 (unat x) = 2 ^ k" "unat x \<le> 2 ^ k" "k = 0 \<or> 2 ^ k < 2 * unat x"
    using pow2_from_spec [of 1 "unat x"] by auto
  with assms(1) obtain j where j: "k = Suc j" by (cases k) auto
  with k(3) assms(2) have "(2 :: nat) ^ j < 2 ^ 31" by simp
  then have "j < 31" by (rule power_less_imp_less_exp [rotated]) simp
  moreover from this have "(2 :: nat) ^ Suc j < 2 ^ 32" by (intro power_strict_increasing) auto
  ultimately show ?thesis
    using k j by (intro exI [of _ j]) (simp add: checked_next_power_of_two_def Let_def)
qed

section \<open>The extrinsic\<close>

text \<open>The two runtime calls the builders make.\<close>

datatype bench_call =
    Remark "u8 list"
  | TransferKeepAlive account_id balance

text \<open>The data signed along with each extension without being part of the extrinsic.\<close>

datatype 'h implicit =
    NoImplicit
  | VersionImplicit u32
  | HashImplicit 'h
  | MetadataImplicit "'h option"

record ('h, 'era) payload =
  pl_call :: bench_call
  pl_extensions :: "'era extension list"
  pl_implicit :: "'h implicit list"

record ('h, 'era) signed_extrinsic =
  se_call :: bench_call
  se_signer :: account_id
  se_signature :: 'h
  se_extensions :: "'era extension list"

record ('e, 'h, 'era) bench_lib =
  chain_block_hash :: "'h \<Rightarrow> u32 \<Rightarrow> 'e + 'h option"
  best_hash :: "'h \<Rightarrow> 'h"
  best_number :: "'h \<Rightarrow> u32"
  era_mortal :: "u64 \<Rightarrow> u64 \<Rightarrow> 'era"
  bob_pair :: 'h
  sign :: "'h \<Rightarrow> ('h, 'era) payload \<Rightarrow> 'h"
  public_account :: "'h \<Rightarrow> account_id"
  new_inherent_data :: 'h
  provide_timestamp :: "u64 \<Rightarrow> 'h \<Rightarrow> 'e + 'h"

definition benchmark_extensions ::
    "('e, 'h, 'era) bench_lib \<Rightarrow> 'h \<Rightarrow> u32 \<Rightarrow> 'era extension list" where
  "benchmark_extensions L client nonce =
     [CheckNonZeroSender, CheckSpecVersion, CheckTxVersion, CheckGenesis,
      CheckEra (era_mortal L (mortal_period BlockHashCount) (ucast (best_number L client))),
      CheckNonce nonce, CheckWeight, ChargeTransactionPayment 0, CheckMetadataHash False,
      WeightReclaim]"

text \<open>\<open>None\<close> is the panic of the \<open>expect\<close> on the genesis hash.\<close>

definition create_benchmark_extrinsic ::
    "('e, 'h, 'era) bench_lib \<Rightarrow> 'h \<Rightarrow> 'h \<Rightarrow> bench_call \<Rightarrow> u32 \<Rightarrow> ('h, 'era) signed_extrinsic option" where
  "create_benchmark_extrinsic L client sender call nonce =
     (case Option.bind (ok (chain_block_hash L client 0)) (\<lambda>h. h) of
        None \<Rightarrow> None
      | Some genesis_hash \<Rightarrow>
          let tx_ext = benchmark_extensions L client nonce;
              raw_payload = \<lparr>pl_call = call, pl_extensions = tx_ext,
                pl_implicit = [NoImplicit, VersionImplicit (spec_version (VERSION ())),
                  VersionImplicit (transaction_version (VERSION ())), HashImplicit genesis_hash,
                  HashImplicit (best_hash L client), NoImplicit, NoImplicit, NoImplicit,
                  MetadataImplicit None, NoImplicit]\<rparr>
          in Some \<lparr>se_call = call, se_signer = public_account L sender,
                   se_signature = sign L sender raw_payload, se_extensions = tx_ext\<rparr>)"

record ('h, 'era) extrinsic_builder =
  builder_pallet :: string
  builder_extrinsic :: string
  builder_build :: "u32 \<Rightarrow> ('h, 'era) signed_extrinsic option"

definition remark_builder :: "('e, 'h, 'era) bench_lib \<Rightarrow> 'h \<Rightarrow> ('h, 'era) extrinsic_builder" where
  "remark_builder L client =
     \<lparr>builder_pallet = ''system'', builder_extrinsic = ''remark'',
      builder_build = (\<lambda>nonce. create_benchmark_extrinsic L client (bob_pair L) (Remark []) nonce)\<rparr>"

definition transfer_keep_alive_builder ::
    "('e, 'h, 'era) bench_lib \<Rightarrow> 'h \<Rightarrow> account_id \<Rightarrow> balance \<Rightarrow> ('h, 'era) extrinsic_builder" where
  "transfer_keep_alive_builder L client dest value =
     \<lparr>builder_pallet = ''balances'', builder_extrinsic = ''transfer_keep_alive'',
      builder_build = (\<lambda>nonce.
        create_benchmark_extrinsic L client (bob_pair L) (TransferKeepAlive dest value) nonce)\<rparr>"

text \<open>The inherent data holds the timestamp zero; the error is a message.\<close>

definition inherent_benchmark_data :: "('e, 'h, 'era) bench_lib \<Rightarrow> ('e \<Rightarrow> string) \<Rightarrow> string + 'h" where
  "inherent_benchmark_data L show_error =
     (case provide_timestamp L 0 (new_inherent_data L) of
        Inl e \<Rightarrow> Inl (''creating inherent data: '' @ show_error e)
      | Inr inherent_data \<Rightarrow> Inr inherent_data)"

section \<open>What the runtime expects\<close>

text \<open>
  The documented implicit data of each extension, as the runtime computes it to verify a
  signature on top of the best block: its own versions, the genesis hash, and for an era
  the hash of the block it is born in. \<open>birth\<close> is \<open>Era::birth\<close>, \<open>block\<close> the block
  hashes of the chain.
\<close>

fun expected_implicit ::
    "('era \<Rightarrow> u64 \<Rightarrow> u64) \<Rightarrow> (u64 \<Rightarrow> 'h) \<Rightarrow> u64 \<Rightarrow> 'era extension \<Rightarrow> 'h implicit" where
  "expected_implicit birth block best CheckSpecVersion = VersionImplicit (spec_version (VERSION ()))"
| "expected_implicit birth block best CheckTxVersion = VersionImplicit (transaction_version (VERSION ()))"
| "expected_implicit birth block best CheckGenesis = HashImplicit (block 0)"
| "expected_implicit birth block best (CheckEra e) = HashImplicit (block (birth e best))"
| "expected_implicit birth block best (CheckMetadataHash _) = MetadataImplicit None"
| "expected_implicit birth block best _ = NoImplicit"

section \<open>Properties\<close>

lemma mortal_period_runtime: "mortal_period BlockHashCount = 2048"
proof -
  have "pow2_from 1 2400 = 4096"
    by (simp add: pow2_from.simps)
  then show ?thesis
    by (simp add: mortal_period_def checked_next_power_of_two_def constant_defs)
qed

text \<open>The era period. For every block hash count from 2 to \<open>2 ^ 31\<close> the period is a power of
  two, smaller than the count (so the hash the era starts from is still on chain) and at
  least half of it (no shorter than it has to be); for the runtime's count it is 2048, in
  the range from 4 to 65536 an era can express.\<close>

theorem mortal_period_bounds:
  assumes "2 \<le> unat count" and "unat count \<le> 2 ^ 31"
  shows "(\<exists>k. unat (mortal_period count) = 2 ^ k) \<and> unat (mortal_period count) < unat count \<and>
    unat count \<le> 2 * unat (mortal_period count) \<and>
    unat (mortal_period BlockHashCount) = 2048 \<and> mortal_period BlockHashCount < ucast BlockHashCount"
proof -
  obtain k where k: "k < 31" "checked_next_power_of_two count = Some (2 ^ Suc k)"
    "2 ^ k < unat count" "unat count \<le> 2 ^ Suc k"
    using checked_next_power_of_two_range [OF assms] by blast
  have lt: "(2 :: nat) ^ Suc k < 2 ^ 32" "(2 :: nat) ^ k < 2 ^ 64"
    using k(1) by (intro power_strict_increasing; simp)+
  have "unat ((2 :: u32) ^ Suc k) = 2 ^ Suc k"
    using lt(1) unsigned_of_nat [where ?'a = nat and ?'b = 32, of "2 ^ Suc k"]
    by (simp add: take_bit_nat_eq_self)
  then have "unat ((2 :: u32) ^ Suc k div 2) = 2 ^ k"
    by (simp add: unat_div)
  then have "unat (mortal_period count) = 2 ^ k"
    using k(1,2) lt(2) by (simp add: mortal_period_def unsigned_ucast_eq take_bit_nat_eq_self)
  moreover have "unat (mortal_period BlockHashCount) = 2048 \<and> mortal_period BlockHashCount < ucast BlockHashCount"
    unfolding mortal_period_runtime by (simp add: constant_defs)
  ultimately show ?thesis using k(3,4) by auto
qed

theorem mortal_period_bounds_witness:
  "unat (mortal_period 8) < 8 \<and> 8 \<le> 2 * unat (mortal_period 8)"
  using mortal_period_bounds [of 8] by simp

text \<open>The additional data a benchmark extrinsic signs is, extension by extension, what the
  runtime expects on top of the best block, and the extensions are the runtime's in their
  order: so the signature verifies. What is used of the library is that an era of the chosen
  period starting at a block is born there, and that the client reports the hashes of its
  chain.\<close>

theorem benchmark_extrinsic_verifies:
  assumes born: "\<And>n. birth (era_mortal L 2048 n) n = n"
    and genesis: "chain_block_hash L client 0 = Inr (Some (block 0))"
    and best: "best_hash L client = block (ucast (best_number L client))"
    and ext: "create_benchmark_extrinsic L client sender call nonce = Some x"
  shows "map kind_of (se_extensions x) = TxExtension \<and> se_signer x = public_account L sender \<and>
    se_signature x = sign L sender
      \<lparr>pl_call = se_call x, pl_extensions = se_extensions x,
       pl_implicit = map (expected_implicit birth block (ucast (best_number L client))) (se_extensions x)\<rparr>"
  using ext
  by (auto simp: create_benchmark_extrinsic_def benchmark_extensions_def genesis best born
      mortal_period_runtime TxExtension_def Let_def)

text \<open>A chain whose block hashes are the block numbers, and eras that are their birth block.\<close>

definition demo_bench_lib :: "(string, nat, u64) bench_lib" where
  "demo_bench_lib =
     \<lparr>chain_block_hash = (\<lambda>_ n. Inr (Some (unat n))), best_hash = (\<lambda>_. 7), best_number = (\<lambda>_. 7),
      era_mortal = (\<lambda>_ n. n), bob_pair = 2, sign = (\<lambda>k p. k + length (pl_implicit p)),
      public_account = of_nat, new_inherent_data = 0, provide_timestamp = (\<lambda>t d. Inr (d + unat t))\<rparr>"

theorem benchmark_extrinsic_verifies_witness:
  "\<exists>x. create_benchmark_extrinsic demo_bench_lib 0 2 (Remark []) 5 = Some x \<and>
     map kind_of (se_extensions x) = TxExtension \<and> se_signer x = 2"
proof -
  obtain x where x: "create_benchmark_extrinsic demo_bench_lib 0 2 (Remark []) 5 = Some x"
    by (simp add: create_benchmark_extrinsic_def demo_bench_lib_def)
  have "map kind_of (se_extensions x) = TxExtension \<and> se_signer x = public_account demo_bench_lib 2 \<and>
    se_signature x = sign demo_bench_lib 2
      \<lparr>pl_call = se_call x, pl_extensions = se_extensions x,
       pl_implicit = map (expected_implicit (\<lambda>e _. e) unat (ucast (best_number demo_bench_lib 0)))
         (se_extensions x)\<rparr>"
    by (rule benchmark_extrinsic_verifies [OF _ _ _ x]) (simp_all add: demo_bench_lib_def)
  with x show ?thesis by (simp add: demo_bench_lib_def)
qed

text \<open>Both builders sign for Bob, and give up only when the genesis block is missing.\<close>

lemma builders_signed_by_bob:
  "builder_build (remark_builder L client) n = Some x \<or>
   builder_build (transfer_keep_alive_builder L client dest value) n = Some x \<Longrightarrow>
   se_signer x = public_account L (bob_pair L)"
  by (auto simp: remark_builder_def transfer_keep_alive_builder_def create_benchmark_extrinsic_def
      Let_def split: option.splits)

end
