(* ===== verification/Node_Spec.thy ===== *)
theory Node_Spec
  imports Runtime_Api
begin

text \<open>
  The chain specifications of the node (\<open>node/src/chain_spec.rs\<close>) and the choice between
  them on the command line (\<open>load_spec\<close> in \<open>node/src/command.rs\<close>). The runtime's WASM
  binary, which a build without the \<open>std\<close> runtime lacks, and the JSON reader are
  parameters; a specification is the record of what its builder was given.
\<close>

datatype chain_type = Development | LocalChain | Live | CustomChain string

datatype json = JString string | JNumber int

record 'w chain_spec =
  spec_wasm :: 'w
  spec_display_name :: string
  spec_id :: string
  spec_type :: chain_type
  spec_properties :: "(string \<times> json) list"
  spec_preset :: "string option"

record 'w spec_lib =
  WASM_BINARY :: "'w option"
  from_json_file :: "string \<Rightarrow> string + 'w chain_spec"

definition xode_properties :: "(string \<times> json) list" where
  "xode_properties =
     [(''tokenSymbol'', JString ''XON''), (''tokenDecimals'', JNumber 12), (''ss58Format'', JNumber 280)]"

definition development_chain_spec ::
    "'w spec_lib \<Rightarrow> ('a, 'g) preset_env \<Rightarrow> string + 'w chain_spec" where
  "development_chain_spec S E =
     and_then (ok_or ''Development wasm not available'' (WASM_BINARY S)) (\<lambda>wasm.
     Inr \<lparr>spec_wasm = wasm, spec_display_name = ''Xode Development'', spec_id = ''xode_dev'',
          spec_type = Development, spec_properties = xode_properties,
          spec_preset = Some (DEV_RUNTIME_PRESET E)\<rparr>)"

definition local_chain_spec ::
    "'w spec_lib \<Rightarrow> ('a, 'g) preset_env \<Rightarrow> string + 'w chain_spec" where
  "local_chain_spec S E =
     and_then (ok_or ''Development wasm not available'' (WASM_BINARY S)) (\<lambda>wasm.
     Inr \<lparr>spec_wasm = wasm, spec_display_name = ''Xode Local Testnet'',
          spec_id = ''xode_local_testnet'', spec_type = LocalChain,
          spec_properties = xode_properties,
          spec_preset = Some (LOCAL_TESTNET_RUNTIME_PRESET E)\<rparr>)"

definition load_spec ::
    "'w spec_lib \<Rightarrow> ('a, 'g) preset_env \<Rightarrow> string \<Rightarrow> string + 'w chain_spec" where
  "load_spec S E i =
     (if i = ''dev'' then development_chain_spec S E
      else if i = '''' \<or> i = ''local'' then local_chain_spec S E
      else from_json_file S i)"

lemma built_in_spec:
  assumes "i \<in> {''dev'', ''local'', ''''}" "load_spec S E i = Inr spec"
  shows "WASM_BINARY S = Some (spec_wasm spec) \<and> spec_properties spec = xode_properties \<and>
    (\<exists>name. spec_preset spec = Some name \<and> name \<in> set (api_preset_names E))"
  using assms
  by (auto simp: load_spec_def development_chain_spec_def local_chain_spec_def and_then_Inr
      api_preset_names_def preset_names_def split: if_splits)

text \<open>C37: the chain specifications resolve. The names \<open>dev\<close>, \<open>local\<close> and the empty name
  load a built-in specification exactly when the node carries the runtime's WASM; it embeds
  that WASM, its genesis preset is one that the runtime lists and answers, and its
  properties state the runtime's address prefix and the decimals of its unit. Any other
  name is a file.\<close>

theorem load_spec_resolves:
  "(i \<in> {''dev'', ''local'', ''''} \<longrightarrow> ((\<exists>spec. load_spec S E i = Inr spec) \<longleftrightarrow> WASM_BINARY S \<noteq> None)) \<and>
   (i \<notin> {''dev'', ''local'', ''''} \<longrightarrow> load_spec S E i = from_json_file S i) \<and>
   (i \<in> {''dev'', ''local'', ''''} \<and> load_spec S E i = Inr spec \<longrightarrow>
     WASM_BINARY S = Some (spec_wasm spec) \<and>
     (\<exists>name json. spec_preset spec = Some name \<and> name \<in> set (api_preset_names E) \<and>
        api_get_preset A E K (Some name) = Some (Some json)) \<and>
     map_of (spec_properties spec) ''ss58Format'' = Some (JNumber (uint SS58Prefix)) \<and>
     (\<exists>d. map_of (spec_properties spec) ''tokenDecimals'' = Some (JNumber (int d)) \<and> unat UNIT = 10 ^ d))"
proof -
  have loads: "(\<exists>spec. load_spec S E i = Inr spec) \<longleftrightarrow> WASM_BINARY S \<noteq> None"
    if "i \<in> {''dev'', ''local'', ''''}"
    using that
    by (cases "WASM_BINARY S") (auto simp: load_spec_def development_chain_spec_def local_chain_spec_def)
  have other: "load_spec S E i = from_json_file S i" if "i \<notin> {''dev'', ''local'', ''''}"
    using that by (simp add: load_spec_def)
  have "unat UNIT = 10 ^ 12" by (simp add: constant_defs)
  moreover have "map_of xode_properties ''tokenDecimals'' = Some (JNumber (int 12))"
    "map_of xode_properties ''ss58Format'' = Some (JNumber (uint SS58Prefix))"
    by (simp_all add: xode_properties_def SS58Prefix_def)
  ultimately have "WASM_BINARY S = Some (spec_wasm spec) \<and>
     (\<exists>name json. spec_preset spec = Some name \<and> name \<in> set (api_preset_names E) \<and>
        api_get_preset A E K (Some name) = Some (Some json)) \<and>
     map_of (spec_properties spec) ''ss58Format'' = Some (JNumber (uint SS58Prefix)) \<and>
     (\<exists>d. map_of (spec_properties spec) ''tokenDecimals'' = Some (JNumber (int d)) \<and> unat UNIT = 10 ^ d)"
    if "i \<in> {''dev'', ''local'', ''''}" "load_spec S E i = Inr spec"
    using built_in_spec [OF that] listed_preset_resolves [of _ E A K] by metis
  with loads other show ?thesis by blast
qed

text \<open>A build that embeds a binary, with no files to read.\<close>

definition demo_specs :: "nat spec_lib" where
  "demo_specs = \<lparr>WASM_BINARY = Some 7, from_json_file = (\<lambda>_. Inl ''missing'')\<rparr>"

theorem load_spec_resolves_witness:
  "\<exists>spec name json. load_spec demo_specs demo_env ''local'' = Inr spec \<and> spec_wasm spec = 7 \<and>
     spec_preset spec = Some name \<and> get_preset demo_env demo_keyring name = Some (Some json)"
proof -
  obtain spec where spec: "load_spec demo_specs demo_env ''local'' = Inr spec"
    by (simp add: load_spec_def local_chain_spec_def demo_specs_def)
  moreover have "''local'' \<in> {''dev'', ''local'', ''''}" by simp
  ultimately obtain name json where "spec_preset spec = Some name" "WASM_BINARY demo_specs = Some (spec_wasm spec)"
    "api_get_preset undefined demo_env demo_keyring (Some name) = Some (Some json)"
    using load_spec_resolves [of "''local''" demo_specs demo_env spec undefined demo_keyring] by blast
  with spec show ?thesis by (auto simp: api_get_preset_def demo_specs_def)
qed

text \<open>Without a WASM binary both built-in specifications fail with the same message.\<close>

lemma load_spec_without_wasm:
  "WASM_BINARY S = None \<Longrightarrow> i \<in> {''dev'', ''local'', ''''} \<Longrightarrow>
   load_spec S E i = Inl ''Development wasm not available''"
  by (auto simp: load_spec_def development_chain_spec_def local_chain_spec_def)

end
