(* ===== verification/Node_Command.thy ===== *)
theory Node_Command
  imports Node_Service Node_Benchmarking Node_Spec
begin

text \<open>
  The commands of the node (\<open>node/src/cli.rs\<close> and \<open>run\<close> in \<open>node/src/command.rs\<close>): which
  part of the service a subcommand opens, what it hands to the command, and what the binary
  does without a subcommand. The command-line library's runners and the commands themselves
  are a record of functions; parsed command values are opaque, of type \<open>'c\<close>.
\<close>

section \<open>The command line\<close>

datatype 'c benchmark_cmd =
    BenchPallet 'c
  | BenchBlock 'c
  | BenchStorage 'c
  | BenchOverhead 'c
  | BenchExtrinsic 'c
  | BenchMachine 'c

datatype 'c subcommand =
    Key 'c
  | BuildSpec 'c
  | CheckBlock 'c
  | ExportBlocks 'c
  | ExportState 'c
  | ImportBlocks 'c
  | PurgeChain 'c
  | Revert 'c
  | Benchmark "'c benchmark_cmd"
  | ChainInfo 'c

text \<open>\<open>run\<close> is the node's own command line, used without a subcommand.\<close>

record 'c cli =
  cli_subcommand :: "'c subcommand option"
  cli_run :: 'c

text \<open>\<open>sc_cli::Error\<close>: a message, a library error, or a panic.\<close>

datatype 'e cli_error = CliMessage string | CliService 'e | CliPanic

fun of_startup :: "'e startup_error \<Rightarrow> 'e cli_error" where
  "of_startup (ServiceError e) = CliService e"
| "of_startup GenesisMissing = CliPanic"

abbreviation open_service ::
    "('e, 'h) node_lib \<Rightarrow> 'h configuration \<Rightarrow> 'e cli_error + 'h partial_components" where
  "open_service L cfg \<equiv> map_sum of_startup id (new_partial L cfg)"

text \<open>What the node says about itself; the version, description and authors come from the build.\<close>

record cli_info =
  impl_name :: string
  impl_version :: string
  description :: string
  author :: string
  support_url :: string
  copyright_start_year :: int

definition cli_about :: "string \<Rightarrow> string \<Rightarrow> string \<Rightarrow> cli_info" where
  "cli_about SUBSTRATE_CLI_IMPL_VERSION CARGO_PKG_DESCRIPTION CARGO_PKG_AUTHORS =
     \<lparr>impl_name = ''Xode Solochain Node'', impl_version = SUBSTRATE_CLI_IMPL_VERSION,
      description = CARGO_PKG_DESCRIPTION, author = CARGO_PKG_AUTHORS,
      support_url = ''support.anonymous.an'', copyright_start_year = 2017\<rparr>"

section \<open>The command library\<close>

text \<open>A runner runs a closure with the node's configuration: \<open>sync_run\<close> to its end,
  \<open>async_run\<close> the future the closure answers, next to its tasks, \<open>run_node_until_exit\<close> the
  tasks of a whole node.\<close>

type_synonym 'e cli_result = "'e cli_error + unit"

record ('e, 'h, 'c, 'era) cli_lib =
  create_runner :: "'c \<Rightarrow> 'e cli_error + 'h"
  create_benchmark_runner :: "'c benchmark_cmd \<Rightarrow> 'e cli_error + 'h"
  sync_run :: "'h \<Rightarrow> ('h configuration \<Rightarrow> 'e cli_result) \<Rightarrow> 'e cli_result"
  async_run :: "'h \<Rightarrow> ('h configuration \<Rightarrow> 'e cli_error + ('h \<times> 'h task list)) \<Rightarrow> 'e cli_result"
  run_node_until_exit :: "'h \<Rightarrow> ('h configuration \<Rightarrow> 'e cli_error + 'h task list) \<Rightarrow> 'e cli_result"
  key_run :: "'c \<Rightarrow> 'c cli \<Rightarrow> 'e cli_result"
  build_spec_run :: "'c \<Rightarrow> 'h \<Rightarrow> 'h \<Rightarrow> 'e cli_result"
  check_block_run :: "'c \<Rightarrow> 'h \<Rightarrow> 'h \<Rightarrow> 'h"
  export_blocks_run :: "'c \<Rightarrow> 'h \<Rightarrow> 'h \<Rightarrow> 'h"
  export_state_run :: "'c \<Rightarrow> 'h \<Rightarrow> 'h \<Rightarrow> 'h"
  import_blocks_run :: "'c \<Rightarrow> 'h \<Rightarrow> 'h \<Rightarrow> 'h"
  purge_chain_run :: "'c \<Rightarrow> 'h \<Rightarrow> 'e cli_result"
  grandpa_revert :: "'h \<Rightarrow> 'h \<Rightarrow> 'e cli_result"
  revert_run :: "'c \<Rightarrow> 'h \<Rightarrow> 'h \<Rightarrow> ('h \<Rightarrow> 'h \<Rightarrow> 'h \<Rightarrow> 'e cli_result) option \<Rightarrow> 'h"
  bench_pallet_run :: "'c \<Rightarrow> 'h option \<Rightarrow> 'e cli_result"
  bench_block_run :: "'c \<Rightarrow> 'h \<Rightarrow> 'e cli_result"
  expose_db :: "'h \<Rightarrow> 'h"
  expose_storage :: "'h \<Rightarrow> 'h"
  bench_storage_run :: "'c \<Rightarrow> 'h configuration \<Rightarrow> 'h \<Rightarrow> 'h \<Rightarrow> 'h \<Rightarrow> 'e cli_result"
  chain_name :: "'h \<Rightarrow> string"
  bench_overhead_run ::
    "'c \<Rightarrow> string \<Rightarrow> 'h \<Rightarrow> 'h \<Rightarrow> u8 list \<Rightarrow> ('h, 'era) extrinsic_builder \<Rightarrow> bool \<Rightarrow> 'e cli_result"
  alice_account :: account_id
  bench_extrinsic_run ::
    "'c \<Rightarrow> 'h \<Rightarrow> 'h \<Rightarrow> u8 list \<Rightarrow> ('h, 'era) extrinsic_builder list \<Rightarrow> 'e cli_result"
  reference_hardware :: 'h
  bench_machine_run :: "'c \<Rightarrow> 'h configuration \<Rightarrow> 'h \<Rightarrow> 'e cli_result"
  chain_info_run :: "'c \<Rightarrow> 'h configuration \<Rightarrow> 'e cli_result"
  show_error :: "'e \<Rightarrow> string"
  node :: "('e, 'h) node_lib"
  bench :: "('e, 'h, 'era) bench_lib"

section \<open>\<open>run\<close>\<close>

text \<open>The benchmark commands; \<open>feature\<close> is the \<open>runtime-benchmarks\<close> feature of the build.\<close>

definition inherent_data :: "('e, 'h, 'c, 'era) cli_lib \<Rightarrow> 'e cli_error + 'h" where
  "inherent_data K = map_sum CliMessage id (inherent_benchmark_data (bench K) (show_error K))"

fun run_benchmark_cmd ::
    "bool \<Rightarrow> ('e, 'h, 'c, 'era) cli_lib \<Rightarrow> 'c benchmark_cmd \<Rightarrow> 'h configuration \<Rightarrow> 'e cli_result" where
  "run_benchmark_cmd feature K (BenchPallet cmd) cfg =
     (if \<not> feature
      then Inl (CliMessage (''Runtime benchmarking wasn't enabled when building the node. '' @
        ''You can enable it with `--features runtime-benchmarks`.''))
      else bench_pallet_run K cmd (Some (config_chain_spec cfg)))"
| "run_benchmark_cmd feature K (BenchBlock cmd) cfg =
     and_then (open_service (node K) cfg) (\<lambda>pc. bench_block_run K cmd (client pc))"
| "run_benchmark_cmd feature K (BenchStorage cmd) cfg =
     (if \<not> feature
      then Inl (CliMessage ''Storage benchmarking can be enabled with `--features runtime-benchmarks`.'')
      else and_then (open_service (node K) cfg) (\<lambda>pc.
        let db = expose_db K (backend pc); storage = expose_storage K (backend pc)
        in bench_storage_run K cmd cfg (client pc) db storage))"
| "run_benchmark_cmd feature K (BenchOverhead cmd) cfg =
     and_then (open_service (node K) cfg) (\<lambda>pc.
       let ext_builder = remark_builder (bench K) (client pc) in
       and_then (inherent_data K) (\<lambda>data.
         bench_overhead_run K cmd (chain_name K (config_chain_spec cfg)) (client pc) data []
           ext_builder False))"
| "run_benchmark_cmd feature K (BenchExtrinsic cmd) cfg =
     and_then (open_service (node K) cfg) (\<lambda>pc.
       let ext_factory = [remark_builder (bench K) (client pc),
             transfer_keep_alive_builder (bench K) (client pc) (alice_account K) EXISTENTIAL_DEPOSIT] in
       and_then (inherent_data K) (\<lambda>data.
         bench_extrinsic_run K cmd (client pc) data [] ext_factory))"
| "run_benchmark_cmd feature K (BenchMachine cmd) cfg =
     bench_machine_run K cmd cfg (reference_hardware K)"

text \<open>The closures of the subcommands that open the service for a future of their own.\<close>

definition check_block ::
    "('e, 'h, 'c, 'era) cli_lib \<Rightarrow> 'c \<Rightarrow> 'h configuration \<Rightarrow> 'e cli_error + ('h \<times> 'h task list)" where
  "check_block K cmd cfg =
     and_then (open_service (node K) cfg) (\<lambda>pc.
       Inr (check_block_run K cmd (client pc) (import_queue pc), task_manager pc))"

definition export_blocks ::
    "('e, 'h, 'c, 'era) cli_lib \<Rightarrow> 'c \<Rightarrow> 'h configuration \<Rightarrow> 'e cli_error + ('h \<times> 'h task list)" where
  "export_blocks K cmd cfg =
     and_then (open_service (node K) cfg) (\<lambda>pc.
       Inr (export_blocks_run K cmd (client pc) (config_database cfg), task_manager pc))"

definition export_state ::
    "('e, 'h, 'c, 'era) cli_lib \<Rightarrow> 'c \<Rightarrow> 'h configuration \<Rightarrow> 'e cli_error + ('h \<times> 'h task list)" where
  "export_state K cmd cfg =
     and_then (open_service (node K) cfg) (\<lambda>pc.
       Inr (export_state_run K cmd (client pc) (config_chain_spec cfg), task_manager pc))"

definition import_blocks ::
    "('e, 'h, 'c, 'era) cli_lib \<Rightarrow> 'c \<Rightarrow> 'h configuration \<Rightarrow> 'e cli_error + ('h \<times> 'h task list)" where
  "import_blocks K cmd cfg =
     and_then (open_service (node K) cfg) (\<lambda>pc.
       Inr (import_blocks_run K cmd (client pc) (import_queue pc), task_manager pc))"

definition revert ::
    "('e, 'h, 'c, 'era) cli_lib \<Rightarrow> 'c \<Rightarrow> 'h configuration \<Rightarrow> 'e cli_error + ('h \<times> 'h task list)" where
  "revert K cmd cfg =
     and_then (open_service (node K) cfg) (\<lambda>pc.
       let aux_revert = (\<lambda>client _ blocks. and_then (grandpa_revert K client blocks) (\<lambda>_. Inr ())) in
       Inr (revert_run K cmd (client pc) (backend pc) (Some aux_revert), task_manager pc))"

text \<open>Without a subcommand the whole node starts, over the configured network backend;
  \<open>default_backend\<close> is the library's default.\<close>

definition start_node ::
    "('e, 'h, 'c, 'era) cli_lib \<Rightarrow> network_backend \<Rightarrow> 'h configuration \<Rightarrow> 'e cli_error + 'h task list" where
  "start_node K default_backend cfg =
     (case (case network_backend_choice cfg of None \<Rightarrow> default_backend | Some b \<Rightarrow> b) of
        Libp2p \<Rightarrow> map_sum of_startup id (new_full (node K) Libp2p cfg)
      | Litep2p \<Rightarrow> map_sum of_startup id (new_full (node K) Litep2p cfg))"

definition run ::
    "bool \<Rightarrow> network_backend \<Rightarrow> ('e, 'h, 'c, 'era) cli_lib \<Rightarrow> 'c cli \<Rightarrow> 'e cli_result" where
  "run feature default_backend K c =
     (case cli_subcommand c of
        Some (Key cmd) \<Rightarrow> key_run K cmd c
      | Some (BuildSpec cmd) \<Rightarrow>
          and_then (create_runner K cmd) (\<lambda>runner. sync_run K runner (\<lambda>cfg.
            build_spec_run K cmd (config_chain_spec cfg) (network_config cfg)))
      | Some (CheckBlock cmd) \<Rightarrow>
          and_then (create_runner K cmd) (\<lambda>runner. async_run K runner (check_block K cmd))
      | Some (ExportBlocks cmd) \<Rightarrow>
          and_then (create_runner K cmd) (\<lambda>runner. async_run K runner (export_blocks K cmd))
      | Some (ExportState cmd) \<Rightarrow>
          and_then (create_runner K cmd) (\<lambda>runner. async_run K runner (export_state K cmd))
      | Some (ImportBlocks cmd) \<Rightarrow>
          and_then (create_runner K cmd) (\<lambda>runner. async_run K runner (import_blocks K cmd))
      | Some (PurgeChain cmd) \<Rightarrow>
          and_then (create_runner K cmd) (\<lambda>runner. sync_run K runner (\<lambda>cfg.
            purge_chain_run K cmd (config_database cfg)))
      | Some (Revert cmd) \<Rightarrow>
          and_then (create_runner K cmd) (\<lambda>runner. async_run K runner (revert K cmd))
      | Some (Benchmark cmd) \<Rightarrow>
          and_then (create_benchmark_runner K cmd) (\<lambda>runner. sync_run K runner (\<lambda>cfg.
            run_benchmark_cmd feature K cmd cfg))
      | Some (ChainInfo cmd) \<Rightarrow>
          and_then (create_runner K cmd) (\<lambda>runner. sync_run K runner (\<lambda>cfg.
            chain_info_run K cmd cfg))
      | None \<Rightarrow>
          and_then (create_runner K (cli_run c)) (\<lambda>runner. run_node_until_exit K runner (\<lambda>cfg.
            start_node K default_backend cfg)))"

text \<open>\<open>main\<close> runs the parsed command line.\<close>

definition main ::
    "bool \<Rightarrow> network_backend \<Rightarrow> ('e, 'h, 'c, 'era) cli_lib \<Rightarrow> 'c cli \<Rightarrow> 'e cli_result" where
  "main feature default_backend K args = run feature default_backend K args"

section \<open>Properties\<close>

lemmas async_bodies = check_block_def export_blocks_def export_state_def import_blocks_def revert_def

text \<open>The library without a network: another implementation of everything only a running node
  calls.\<close>

definition rewired ::
    "('e, 'h) node_lib \<Rightarrow> ('e, 'h, 'c, 'era) cli_lib \<Rightarrow> ('e, 'h, 'c, 'era) cli_lib" where
  "rewired M K = K
     \<lparr>run_node_until_exit := \<lambda>_ _. Inl CliPanic,
      node := (node K)
        \<lparr>block_hash := block_hash M, build_network := build_network M,
         offchain_workers_new := offchain_workers_new M, spawn_tasks := spawn_tasks M,
         aura_slot_duration := aura_slot_duration M, start_aura := start_aura M,
         run_grandpa_voter := run_grandpa_voter M, rpc := rpc M\<rparr>\<rparr>"

lemma new_partial_rewired [simp]: "new_partial (node (rewired M K)) cfg = new_partial (node K) cfg"
  by (simp add: new_partial_def rewired_def set_up_telemetry_def telemetry_task_def import_inherents_def
      cong: if_cong option.case_cong)

lemma rewired_sel [simp]:
  "create_runner (rewired M K) = create_runner K"
  "create_benchmark_runner (rewired M K) = create_benchmark_runner K"
  "sync_run (rewired M K) = sync_run K" "async_run (rewired M K) = async_run K"
  "key_run (rewired M K) = key_run K" "build_spec_run (rewired M K) = build_spec_run K"
  "check_block_run (rewired M K) = check_block_run K"
  "export_blocks_run (rewired M K) = export_blocks_run K"
  "export_state_run (rewired M K) = export_state_run K"
  "import_blocks_run (rewired M K) = import_blocks_run K"
  "purge_chain_run (rewired M K) = purge_chain_run K"
  "grandpa_revert (rewired M K) = grandpa_revert K" "revert_run (rewired M K) = revert_run K"
  "bench_pallet_run (rewired M K) = bench_pallet_run K"
  "bench_block_run (rewired M K) = bench_block_run K"
  "expose_db (rewired M K) = expose_db K" "expose_storage (rewired M K) = expose_storage K"
  "bench_storage_run (rewired M K) = bench_storage_run K" "chain_name (rewired M K) = chain_name K"
  "bench_overhead_run (rewired M K) = bench_overhead_run K"
  "alice_account (rewired M K) = alice_account K"
  "bench_extrinsic_run (rewired M K) = bench_extrinsic_run K"
  "reference_hardware (rewired M K) = reference_hardware K"
  "bench_machine_run (rewired M K) = bench_machine_run K"
  "chain_info_run (rewired M K) = chain_info_run K" "show_error (rewired M K) = show_error K"
  "bench (rewired M K) = bench K"
  by (simp_all add: rewired_def)

lemma run_benchmark_rewired [simp]:
  "run_benchmark_cmd feature (rewired M K) cmd = run_benchmark_cmd feature K cmd"
  by (cases cmd) (simp_all add: fun_eq_iff inherent_data_def)

lemma async_bodies_rewired [simp]:
  "check_block (rewired M K) = check_block K" "export_blocks (rewired M K) = export_blocks K"
  "export_state (rewired M K) = export_state K" "import_blocks (rewired M K) = import_blocks K"
  "revert (rewired M K) = revert K"
  by (simp_all add: async_bodies fun_eq_iff)

text \<open>A command library whose runners run the closure with the given configuration.\<close>

definition demo_cli :: "nat configuration \<Rightarrow> (string, nat, nat, u64) cli_lib" where
  "demo_cli cfg =
     \<lparr>create_runner = (\<lambda>_. Inr 0), create_benchmark_runner = (\<lambda>_. Inr 0),
      sync_run = (\<lambda>_ f. f cfg), async_run = (\<lambda>_ f. map_sum id (\<lambda>_. ()) (f cfg)),
      run_node_until_exit = (\<lambda>_ f. map_sum id (\<lambda>_. ()) (f cfg)),
      key_run = (\<lambda>_ _. Inr ()), build_spec_run = (\<lambda>_ _ _. Inr ()),
      check_block_run = (\<lambda>c _ _. c), export_blocks_run = (\<lambda>c _ _. c), export_state_run = (\<lambda>c _ _. c),
      import_blocks_run = (\<lambda>c _ _. c), purge_chain_run = (\<lambda>_ _. Inr ()),
      grandpa_revert = (\<lambda>_ _. Inr ()), revert_run = (\<lambda>c _ _ _. c),
      bench_pallet_run = (\<lambda>_ _. Inr ()), bench_block_run = (\<lambda>_ _. Inr ()), expose_db = (\<lambda>b. b),
      expose_storage = (\<lambda>b. b), bench_storage_run = (\<lambda>_ _ _ _ _. Inr ()), chain_name = (\<lambda>_. ''demo''),
      bench_overhead_run = (\<lambda>_ _ _ _ _ _ _. Inr ()), alice_account = 1,
      bench_extrinsic_run = (\<lambda>_ _ _ _ _. Inr ()), reference_hardware = 0,
      bench_machine_run = (\<lambda>_ _ _. Inr ()), chain_info_run = (\<lambda>_ _. Inr ()), show_error = (\<lambda>e. e),
      node = demo_lib {}, bench = demo_bench_lib\<rparr>"

text \<open>A subcommand stays off the network. Whatever the library's networking, RPC, offchain
  worker, authoring, voting and node runner do, the outcome of every subcommand is the same:
  only the command line without a subcommand builds a network, authors or votes.\<close>

theorem subcommands_stay_offline:
  assumes "cli_subcommand c \<noteq> None"
  shows "run feature d (rewired M K) c = run feature d K c"
  using assms by (auto simp: run_def split: subcommand.split)

theorem subcommands_stay_offline_witness:
  "run True Libp2p (rewired (demo_lib {''network'', ''tasks'', ''aura'', ''voter''}) (demo_cli (demo_node Full True)))
     \<lparr>cli_subcommand = Some (CheckBlock 3), cli_run = 0\<rparr> =
   run True Libp2p (demo_cli (demo_node Full True)) \<lparr>cli_subcommand = Some (CheckBlock 3), cli_run = 0\<rparr>"
  by (rule subcommands_stay_offline) simp

text \<open>The benchmark commands that need the runtime's benchmarks are refused by a node built
  without them, before anything is opened, and run by a node built with them; the storage
  benchmark then still fails with the service's own error when it cannot be opened.\<close>

theorem benchmarks_need_feature:
  assumes runner: "create_benchmark_runner K cmd = Inr r" "\<And>f. sync_run K r f = f cfg"
    and cmd: "cmd \<in> {BenchPallet x, BenchStorage x}" and c: "cli_subcommand c = Some (Benchmark cmd)"
  shows "(\<exists>msg. run False d K c = Inl (CliMessage msg)) \<and>
    (cmd = BenchPallet x \<longrightarrow> run True d K c = bench_pallet_run K x (Some (config_chain_spec cfg))) \<and>
    (cmd = BenchStorage x \<longrightarrow> (\<forall>e. new_partial (node K) cfg = Inl e \<longrightarrow> run True d K c = Inl (of_startup e)))"
  using assms by (auto simp: run_def)

theorem benchmarks_need_feature_witness:
  "\<exists>msg. run False Libp2p (demo_cli (demo_node Full True))
     \<lparr>cli_subcommand = Some (Benchmark (BenchStorage 1)), cli_run = 0\<rparr> = Inl (CliMessage msg)"
proof -
  have runner: "create_benchmark_runner (demo_cli (demo_node Full True)) (BenchStorage 1) = Inr 0"
    "\<And>f. sync_run (demo_cli (demo_node Full True)) 0 f = f (demo_node Full True)"
    by (simp_all add: demo_cli_def)
  have "BenchStorage 1 \<in> {BenchPallet (1 :: nat), BenchStorage 1}" by simp
  from benchmarks_need_feature [OF runner this,
      of "\<lparr>cli_subcommand = Some (Benchmark (BenchStorage 1)), cli_run = 0\<rparr>" Libp2p]
  show ?thesis by simp
qed

text \<open>Without a subcommand the runner gets the tasks of \<open>new_full\<close> over the configured backend,
  or over the default one.\<close>

lemma default_command_starts_node:
  assumes "cli_subcommand c = None" "create_runner K (cli_run c) = Inr r"
    and "\<And>f. run_node_until_exit K r f = and_then (f cfg) g"
  shows "run feature d K c =
    and_then (map_sum of_startup id (new_full (node K)
      (case network_backend_choice cfg of None \<Rightarrow> d | Some b \<Rightarrow> b) cfg)) g"
  using assms by (simp add: run_def start_node_def split: option.split network_backend.split)

end
