(* ===== verification/Spec2Isabelle.thy ===== *)
theory Spec2Isabelle
  imports Constants Ranking Staking_State Runtime_Config Staking_Calls Staking_Session
    Transition Staking_Invariants Staking_Solvency Staking_Order Session_Interface
    Staking_Rotation Staking_Theorems Staking_Entries Staking_Accounts Staking_Book Staking_Ledger Block_Production
    Session_Runs Block_Theorems Freezer Governance Genesis Weights
    Runtime_Calls Runtime_Blocks Runtime_Types Runtime_Library Runtime_Api Freezer_Benchmarks
    Freezer_Mock Freezer_Tests Fallible Node_Rpc
    Node_Service Node_Benchmarking Node_Spec Node_Command
begin

text \<open>
  A verification library for the Xode solochain (a Substrate runtime and node in Rust): the
  two pallets of the repository, alone and together over one bank, the runtime's
  configuration, governance, genesis and APIs, and the node binary that runs it.

  \<^bold>\<open>The program and where it is modelled.\<close>

  \<^item> \<open>Prelude\<close>: the machine types of \<open>runtime/src/lib.rs\<close> (\<open>AccountId\<close> as 256 bits,
    \<open>Balance = u128\<close>, \<open>BlockNumber = u32\<close>), saturating arithmetic, and the bounded-vector
    operations the pallets use (\<open>try_push\<close>, \<open>iter_mut().find\<close>, \<open>position\<close>, \<open>remove\<close>).
  \<^item> \<open>Frame\<close>: what the pallets use of the framework, which is not in the repository:
    origins, dispatch errors, the storage layer around a call, and the contract of
    \<open>ReservableCurrency\<close> as the locale \<open>reservable_currency\<close>, interpreted on a ledger.
  \<^item> \<open>Constants\<close>: block times, units and pallet parameters, at their widths.
  \<^item> \<open>Ranking\<close>: \<open>Status\<close>, \<open>CandidateInfo\<close>, \<open>Delegation\<close> and \<open>sort_proposed_candidates\<close> of
    \<open>pallets/xode-staking/src/lib.rs\<close>; \<open>sort_by\<close> is the stable sort of the closure, which
    is shown to be a comparator, and the result to be the reference sort by one key.
  \<^item> \<open>Staking_State\<close>: the pallet's configuration, errors, events, storage (the record
    \<open>chain\<close>, which also holds what the pallet reads: \<open>pallet_session::Validators\<close>, the
    block number, the bank), the genesis build, and the private helpers.
  \<^item> \<open>Runtime_Config\<close>: \<open>impl pallet_xode_staking::Config for Runtime\<close> and the 32-byte codec
    \<open>validator_to_account\<close> goes through.
  \<^item> \<open>Staking_Calls\<close>: the nine dispatchables, each as a function from storage to a result
    and the storage it leaves, guards in source order; \<open>dispatch\<close> adds the storage layer.
    The \<open>*_ok\<close> lemmas say what a successful call has checked and written, and carry every
    later proof about calls.
  \<^item> \<open>Staking_Session\<close>: \<open>on_initialize\<close>, the four stages of \<open>end_session\<close>, \<open>new_session\<close>,
    \<open>note_author\<close>. The loops that write the list they iterate are folds over the snapshot,
    as in the code; the second half replaces each by a map or a filter and composes them
    into \<open>end_session_spec\<close>.
  \<^item> \<open>Transition\<close>: reachability and inductive invariants, as locales.
  \<^item> \<open>Staking_Invariants\<close>, \<open>Staking_Order\<close>, \<open>Staking_Solvency\<close>: the pallet as a transition
    system (calls, hooks, new blocks, other pallets moving money, in any order), with its
    well-formedness, the stake order of the registry, and the cover of all bonds and stakes
    by reserves.
  \<^item> \<open>Session_Interface\<close>, \<open>Staking_Rotation\<close>: the contract between a session manager and the
    session machinery, the staking pallet as an instance of it, and one candidate followed
    across a boundary.
  \<^item> \<open>Staking_Theorems\<close>, \<open>Staking_Accounts\<close>: the properties of the pallet.
  \<^item> \<open>Staking_Entries\<close>: what the calls of others, and the hooks, leave of one candidate's entry.
  \<^item> \<open>Staking_Book\<close>: an abstract specification of the nine calls over two maps without order,
    \<open>staking_book_call\<close>, the abstraction \<open>staking_book_of\<close>, and the agreement of every body
    with it in result, error and money moved.
  \<^item> \<open>Staking_Ledger\<close>: conservation of money, and reserves that move exactly with the claims.
  \<^item> \<open>Block_Production\<close>, \<open>Session_Runs\<close>, \<open>Block_Theorems\<close>: blocks. Pallet hooks run in the
    declaration order \<open>runtime_pallets\<close>, as \<open>Executive\<close> names it, then extrinsics; the periodic schedule and the author
    lookup of the session and AURA pallets are parameters with their documented laws
    (\<open>lawful_session_lib\<close>). A call that answers an error leaves its block valid, one that
    panics fails it. A block is a run of the transition system's steps; whole sessions of
    blocks carry selection through to production, and idle accounts through any number of
    sessions.
  \<^item> \<open>Freezer\<close>: \<open>pallets/account-freezer/src/lib.rs\<close>, generic like the code in its origins,
    accounts and balances (a word of any width), over any currency that satisfies the
    documented \<open>fungible::freeze\<close> contract (locale \<open>freezable_currency\<close>), the abstract
    account book it refines, and its properties.
  \<^item> \<open>Freezer_Mock\<close>, \<open>Freezer_Tests\<close>: the same pallet over 64-bit accounts and balances in the
    mock runtime of \<open>mock.rs\<close>, over any balances pallet with the documented transfer and freeze
    behaviour (locale \<open>balances_pallet\<close>), and the nine tests of \<open>tests.rs\<close> as assertion lists.
  \<^item> \<open>Governance\<close>: the origin aliases and privileged origins of
    \<open>runtime/src/configs/mod.rs\<close>, over the documented \<open>EnsureOrigin\<close> combinators (locale
    \<open>origin_gates\<close>).
  \<^item> \<open>Genesis\<close>: \<open>runtime/src/genesis_config_presets.rs\<close> and the declaration order of the
    pallets and \<open>Executive\<close> in \<open>runtime/src/lib.rs\<close>.
  \<^item> \<open>Weights\<close>: the declared weights of both pallets (\<open>weights.rs\<close>) and of \<open>on_initialize\<close>,
    over any weight algebra; read in the algebra that counts writes they are compared with
    the storage items a call changes (\<open>changed_items\<close>, \<open>footprint\<close>).
  \<^item> \<open>Runtime_Calls\<close>: \<open>RuntimeCall\<close> of the two pallets over the one bank both are configured
    with (\<open>runtime_storage\<close>, \<open>runtime_dispatch\<close>). The locale \<open>runtime_currency\<close> joins the two
    currency contracts; \<open>joint_runtime\<close> shows every step of the joint runtime to be a step of
    each pallet, so both invariants carry over.
  \<^item> \<open>Runtime_Blocks\<close>: blocks of the whole runtime, the hooks of \<open>Block_Production\<close> followed by
    calls of both pallets and of library pallets. \<open>staking_view\<close> reads such a block as a block
    of the staking pallet, \<open>lawful_block\<close> as a run of lawful steps of the joint runtime.
  \<^item> \<open>Runtime_Types\<close>: \<open>VERSION\<close>, \<open>native_version\<close>, \<open>TxExtension\<close> (\<open>runtime/src/lib.rs\<close>).
  \<^item> \<open>Runtime_Library\<close>: the values and pallets the configurations of the library pallets name
    (\<open>runtime/src/configs/mod.rs\<close>), one record per pallet.
  \<^item> \<open>Runtime_Api\<close>: \<open>impl_runtime_apis!\<close> (\<open>runtime/src/apis.rs\<close>) and the benchmark list
    (\<open>runtime/src/benchmarks.rs\<close>), one definition per API function over the library's executive.
  \<^item> \<open>Freezer_Benchmarks\<close>: \<open>pallets/account-freezer/src/benchmarking.rs\<close>.
  \<^item> \<open>Fallible\<close>: the \<open>?\<close> operator and the conversions of \<open>Result\<close> and \<open>Option\<close> the node uses.
  \<^item> \<open>Node_Rpc\<close>, \<open>Node_Service\<close>: \<open>node/src/rpc.rs\<close> and \<open>node/src/service.rs\<close>. The libraries are
    a record of functions over opaque handles; \<open>new_partial\<close> and \<open>new_full\<close> are chains of
    fallible calls, and a successful start-up answers the list of spawned tasks.
  \<^item> \<open>Node_Benchmarking\<close>: \<open>node/src/benchmarking.rs\<close>, the signed benchmark extrinsic.
  \<^item> \<open>Node_Spec\<close>, \<open>Node_Command\<close>: \<open>node/src/chain_spec.rs\<close>, \<open>cli.rs\<close>, \<open>command.rs\<close>, \<open>main.rs\<close>: the
    chain specifications, the subcommands, and what each opens.

  \<^bold>\<open>How the parts interact.\<close> Extrinsics run \<open>dispatch\<close> or \<open>freezer_dispatch\<close>. The staking
  pallet calls the bank; the session machinery calls \<open>end_session\<close> and \<open>new_session\<close> and
  installs validator sets; authorship reports block authors to \<open>on_initialize\<close>. The
  transition system leaves the order of all of these open, so the invariants do not rest on
  how the library schedules the hooks. \<open>boundary\<close> fixes the documented order of one session
  boundary, and \<open>begin_block\<close> the declared order of the pallets in one block.
  In \<open>Runtime_Calls\<close> the two pallets' calls interleave over one bank, and in \<open>Runtime_Blocks\<close>
  they do so inside blocks. The node reaches the
  runtime through the APIs: \<open>load_spec\<close> names a preset that \<open>api_get_preset\<close> answers from
  \<open>Genesis\<close>, and the benchmark extrinsic signs what \<open>VERSION\<close> and \<open>BlockHashCount\<close> say.

  \<^bold>\<open>What the lemmas show.\<close> For the staking pallet: the registry, the delegation map and the
  validator pipeline are well formed in every reachable state; selection is by stake;
  an eligible candidate is seated by the second boundary; slashing hits exactly the stale
  validators; no boundary panics; every call refines the map specification, on success and on
  error; no call creates money, and reserves cover all claims as long as nobody uses
  \<open>bond_correction\<close> beyond his bond and other pallets release no more than what is reserved
  beyond these claims; stake and unstake are inverse; what each error path leaves behind. For block
  production: no hook and no call panics, so no block fails; a session lasts its period; the validators are the waiting list
  of two session ends before, restricted to accounts with keys; whoever authors in a session is
  not slashed at its end, nobody is if no slot is skipped, whoever is silent beyond the
  staling period loses his seat, and an idle candidate who is offline, leaving or unbonded is out
  of the pipeline from the fourth session end on, his bond still reserved. Several theorems record where the code falls short of its
  comments: seats held by candidates without session keys, stakes stranded behind a removed
  candidate, stake forgotten at re-registration, the overdraft of \<open>bond_correction\<close>, a registry out of rank order. For the freezer: refinement
  of the account book on success and on error, authorisation, round trips; in the mock
  runtime its test suite passes and the funds of a frozen account stay. For the runtime:
  who holds each privilege, that genesis seeds a validator set, that consensus can hold
  every validator set, that the two pallets keep each other's invariants in any order of
  steps and across blocks, that blocks with calls of both pallets are blocks of the staking
  pallet, that a frozen account cannot commit money, and how far declared weights cover the
  writes. For the node: which tasks run and with which keys, when the start-up succeeds and
  what makes it fail, that subcommands stay off the network, that the built-in chain
  specifications resolve, and that the benchmark extrinsic verifies.

  \<^bold>\<open>Bounds.\<close> No fuel is used: every loop of the source runs over a list and is structural
  recursion; the one search, for the next power of two (\<open>pow2_from\<close>), ends by the distance to
  its bound. Runs of blocks are lists too; \<open>begin_block\<close> answers \<open>None\<close> when the 32-bit block
  number is used up. A panic of a dispatchable is the error \<open>Panic\<close>, which \<open>run_extrinsic\<close> and
  \<open>run_runtime_extrinsic\<close> turn into \<open>None\<close> for the block. \<open>None\<close> stands for a panic (\<open>expect\<close>) in \<open>genesis_build\<close>,
  \<open>validator_to_account\<close>, \<open>end_session\<close>, \<open>testnet_genesis\<close> and
  \<open>create_benchmark_extrinsic\<close>; \<open>GenesisMissing\<close> and \<open>CliPanic\<close> are panics of the node.

  \<^bold>\<open>Not modelled.\<close> The library pallets (balances, session, aura, grandpa, collective, ...), the
  executive's own code, and the node libraries: they appear as parameters with their documented
  behaviour. Type aliases, associated types and trait bounds that only name library types;
  the sudo, utility and randomness configurations, and the mock's \<open>frame_system\<close>
  configuration, which hold no value. Storage encodings other than the account codec. Build
  scripts.
\<close>

section \<open>Properties across components\<close>

text \<open>C36: who can freeze an account. With the runtime's freezer configuration, all four freezer
  calls answer \<open>BadOrigin\<close> and write nothing unless the origin is Root or a Technical
  Committee motion; a motion of a committee of at most 100 members gets through exactly with
  more than two thirds of the members, so in a committee of three only unanimously.\<close>

theorem freezer_authority:
  assumes gates: "origin_gates G"
    and bounds: "unat t \<le> 100" "unat y \<le> unat t"
  shows "(org \<noteq> System Root \<and> (\<nexists>y t. org = TechnicalCommittee (Members y t)) \<longrightarrow>
      freezer_dispatch (xode_freezer_config G F reason) org call s = (Inl BadOrigin, s)) \<and>
    (\<not> 2 * unat t < 3 * unat y \<longrightarrow>
      freezer_dispatch (xode_freezer_config G F reason) (TechnicalCommittee (Members y t)) call s =
        (Inl BadOrigin, s)) \<and>
    (2 * unat t < 3 * unat y \<longrightarrow>
      fst (freezer_dispatch (xode_freezer_config G F reason) (TechnicalCommittee (Members y t)) call s)
        \<noteq> Inl BadOrigin) \<and>
    (t = 3 \<and> 2 * unat t < 3 * unat y \<longrightarrow> y = 3)"
proof -
  let ?cfg = "xode_freezer_config G F reason"
  have gate: "freeze_origin ?cfg org = guard G FreezeAccounts org" for org
    by (simp add: xode_freezer_config_def)
  have m: "freeze_origin ?cfg (TechnicalCommittee (Members y t)) \<longleftrightarrow> 2 * unat t < 3 * unat y"
    using origin_gates.guard_motion [OF gates bounds, of FreezeAccounts TechnicalCommitteeInstance]
    by (simp add: gate body_of_def two_thirds_def)
  have "\<not> freeze_origin ?cfg org"
    if "org \<noteq> System Root" "\<nexists>y t. org = TechnicalCommittee (Members y t)"
    using origin_gates.guard_origin [OF gates, of FreezeAccounts org] that
    by (auto simp: gate body_of_def)
  moreover have "t = 3 \<Longrightarrow> 2 * unat t < 3 * unat y \<Longrightarrow> y = 3"
    using bounds by (auto simp: word_unat_eq_iff)
  ultimately show ?thesis
    using m freezer_dispatch_denied freezer_dispatch_authorised by metis
qed

theorem freezer_authority_witness:
  "fst (freezer_dispatch (xode_freezer_config doc_gates book_ops (\<lambda>_. ()))
      (TechnicalCommittee (Members 2 3)) (FreezeAccount 7) (demo_freezer [] (\<lambda>_. 0))) = Inl BadOrigin \<and>
   fst (freezer_dispatch (xode_freezer_config doc_gates book_ops (\<lambda>_. ()))
      (TechnicalCommittee (Members 3 3)) (FreezeAccount 7) (demo_freezer [] (\<lambda>_. 0))) \<noteq> Inl BadOrigin"
  using freezer_authority [OF doc.origin_gates_axioms, where t = 3 and y = 2 and org = "System Root"
      and F = book_ops and reason = "\<lambda>_. ()" and call = "FreezeAccount 7" and s = "demo_freezer [] (\<lambda>_. 0)"]
    freezer_authority [OF doc.origin_gates_axioms, where t = 3 and y = 3 and org = "System Root"
      and F = book_ops and reason = "\<lambda>_. ()" and call = "FreezeAccount 7" and s = "demo_freezer [] (\<lambda>_. 0)"]
  by simp

end
